theory Spec2Isabelle
  imports Main
begin

section \<open>The Mixer chat connection (MixerChatConnection.cpp)\<close>

text \<open>
  A shallow embedding of \<^verbatim>\<open>FMixerChatConnection\<close>: the chat-history cache (an intrusive
  doubly-linked list of shared message objects), the user registry, the table of pending
  replies and the packet handlers.

  Conventions of the model.
  \<^item> Message objects live in a store \<open>Heap\<close> from addresses to objects; a
    \<^verbatim>\<open>TSharedPtr\<close> is an address option, \<open>None\<close> being the empty pointer. A shared
    pointer never dangles, so the store is total. \<^verbatim>\<open>MakeShared\<close> takes the address
    \<open>HeapNext\<close>. Reference counts are not modelled: an object nobody points to stays in
    the store.
  \<^item> \<^verbatim>\<open>int32\<close> values are integers. The history counters are bounded by the number of
    live message objects; the correlation counter is incremented for ever, so its
    increment at \<open>2^31 - 1\<close> (undefined in C++) is an error outcome of the model.
  \<^item> A failed \<^verbatim>\<open>check\<close> and the dereference of an empty pointer are error outcomes.
  \<^item> Calls on the chat interface, log lines and frames handed to the socket are appended
    to lists held in the state, oldest first.
  \<^item> A loop that follows links of the store may run for ever on a cyclic store: such
    loops return an option, \<open>None\<close> meaning that the loop does not return.
\<close>

subsection \<open>The JSON tree\<close>

text \<open>
  Modelled from the spec: the JSON library (\<^verbatim>\<open>FJsonObject\<close>, \<^verbatim>\<open>FJsonValue\<close>) is not part of
  the source; the design consumes it as "parse into a field-addressable tree". A typed
  getter succeeds when the field is present and holds a value of that type; the getter
  for \<^verbatim>\<open>int32\<close> also needs the number to fit.
\<close>

datatype json =
    JNull
  | JBool bool
  | JNumber int
  | JString string
  | JArray "json list"
  | JObject "(string \<times> json) list"

type_synonym FJsonObject = "(string \<times> json) list"

definition TryGetStringField :: "FJsonObject \<Rightarrow> string \<Rightarrow> string option" where
  "TryGetStringField JsonObj FieldName =
     (case map_of JsonObj FieldName of Some (JString v) \<Rightarrow> Some v | _ \<Rightarrow> None)"

definition TryGetNumberField :: "FJsonObject \<Rightarrow> string \<Rightarrow> int option" where
  "TryGetNumberField JsonObj FieldName =
     (case map_of JsonObj FieldName of
        Some (JNumber v) \<Rightarrow> if - 2147483648 \<le> v \<and> v \<le> 2147483647 then Some v else None
      | _ \<Rightarrow> None)"

definition TryGetBoolField :: "FJsonObject \<Rightarrow> string \<Rightarrow> bool option" where
  "TryGetBoolField JsonObj FieldName =
     (case map_of JsonObj FieldName of Some (JBool v) \<Rightarrow> Some v | _ \<Rightarrow> None)"

definition TryGetObjectField :: "FJsonObject \<Rightarrow> string \<Rightarrow> FJsonObject option" where
  "TryGetObjectField JsonObj FieldName =
     (case map_of JsonObj FieldName of Some (JObject v) \<Rightarrow> Some v | _ \<Rightarrow> None)"

definition TryGetArrayField :: "FJsonObject \<Rightarrow> string \<Rightarrow> json list option" where
  "TryGetArrayField JsonObj FieldName =
     (case map_of JsonObj FieldName of Some (JArray v) \<Rightarrow> Some v | _ \<Rightarrow> None)"

definition TryGetObject :: "json \<Rightarrow> FJsonObject option" where
  "TryGetObject v = (case v of JObject obj \<Rightarrow> Some obj | _ \<Rightarrow> None)"

text \<open>\<^verbatim>\<open>AsObject\<close> on a value that is no object yields an empty object.\<close>

definition AsObject :: "json \<Rightarrow> FJsonObject" where
  "AsObject v = (case v of JObject obj \<Rightarrow> obj | _ \<Rightarrow> [])"

subsection \<open>Users and messages\<close>

text \<open>
  \<^verbatim>\<open>FMixerChatUser\<close>: \<open>UId\<close> is the member \<^verbatim>\<open>Id\<close>. The constructor sets the level to 0.
\<close>

record FMixerChatUser =
  Name :: string
  UId :: int
  Level :: int

definition FMixerChatUser_new :: "string \<Rightarrow> int \<Rightarrow> FMixerChatUser" where
  "FMixerChatUser_new InName InId = \<lparr>Name = InName, UId = InId, Level = 0\<rparr>"

text \<open>
  An \<^verbatim>\<open>FGuid\<close> is a 128-bit value, here its number; \<^verbatim>\<open>FGuid::Parse\<close> is not part of the
  source and is a parameter \<open>Parse\<close> of every function that reads an id.

  \<^verbatim>\<open>FChatMessageMixerImpl\<close>. \<^verbatim>\<open>FromUser\<close> is a shared reference to the cached user object;
  through a message only its name and id are read, and neither is assigned after
  construction, so the message carries their values. The timestamp (the wall clock at
  construction) is left out.
\<close>

type_synonym FGuid = nat

record FChatMessageMixerImpl =
  MessageId :: FGuid
  FromUser_Name :: string
  FromUser_Id :: int
  Body :: string
  bIsWhisper :: bool
  bIsAction :: bool
  bIsModerated :: bool
  NextLink :: "nat option"
  PrevLink :: "nat option"

definition FChatMessageMixerImpl_new :: "FGuid \<Rightarrow> FMixerChatUser \<Rightarrow> FChatMessageMixerImpl" where
  "FChatMessageMixerImpl_new InMessageId InFromUser =
     \<lparr>MessageId = InMessageId, FromUser_Name = Name InFromUser, FromUser_Id = UId InFromUser,
      Body = [], bIsWhisper = False, bIsAction = False, bIsModerated = False,
      NextLink = None, PrevLink = None\<rparr>"

definition FlagAsDeleted :: "FChatMessageMixerImpl \<Rightarrow> FChatMessageMixerImpl" where
  "FlagAsDeleted m = m\<lparr>Body := [], bIsModerated := True\<rparr>"

definition AppendBodyFragment :: "string \<Rightarrow> FChatMessageMixerImpl \<Rightarrow> FChatMessageMixerImpl" where
  "AppendBodyFragment InBodyFragment m = m\<lparr>Body := Body m @ InBodyFragment\<rparr>"

definition FlagAsWhisper :: "FChatMessageMixerImpl \<Rightarrow> FChatMessageMixerImpl" where
  "FlagAsWhisper m = m\<lparr>bIsWhisper := True\<rparr>"

definition FlagAsAction :: "FChatMessageMixerImpl \<Rightarrow> FChatMessageMixerImpl" where
  "FlagAsAction m =
     (if \<not> bIsAction m
      then m\<lparr>bIsAction := True, Body := FromUser_Name m @ '' '' @ Body m\<rparr>
      else m)"

subsection \<open>The connection\<close>

datatype error = CheckFailed | NullDereference | SignedOverflow

text \<open>The member functions stored in the reply table and in the event table.\<close>

datatype FServerMessageHandler =
    HandleAuthReply_fn
  | HandleHistoryReply_fn
  | HandleWelcomeEvent_fn
  | HandleChatMessageEvent_fn
  | HandleUserJoinEvent_fn
  | HandleUserLeaveEvent_fn
  | HandleDeleteMessageEvent_fn
  | HandleClearMessagesEvent_fn
  | HandlePurgeMessageEvent_fn

text \<open>
  Calls on \<^verbatim>\<open>ChatInterface\<close>. A member notification carries the cached user object whose
  net id the call passes; a message notification carries the address of the message.
\<close>

datatype notification =
    ConnectAttemptFinished bool string
  | ChatRoomMemberJoin FMixerChatUser
  | ChatRoomMemberExit FMixerChatUser
  | ChatRoomMessageReceived nat
  | ChatPrivateMessageReceived nat

text \<open>The lines written with \<^verbatim>\<open>UE_LOG\<close>, by what they report.\<close>

datatype log_line =
    MissingRequiredField string
  | IdNotGuid string
  | UnexpectedReply int
  | EventNotHandled string
  | FailedToHandlePacket
  | WelcomedByServer
  | MissingUserLevel
  | IsJoining string
  | IsExiting string
  | PrivateMessageFrom string string
  | ChatMessageFrom string string
  | SendBeforeReady
  | SendWhenAnonymous

text \<open>The socket: whether it is connected, and the payloads passed to \<^verbatim>\<open>Send\<close>.\<close>

record IWebSocket =
  IsConnected :: bool
  Sent :: "json list"

record FMixerChatConnection =
  Heap :: "nat \<Rightarrow> FChatMessageMixerImpl"
  HeapNext :: nat
  ChatHistoryNewest :: "nat option"
  ChatHistoryOldest :: "nat option"
  ChatHistoryNum :: int
  ChatHistoryMax :: int
  CachedUsers :: "int \<rightharpoonup> FMixerChatUser"
  ReplyHandlers :: "int \<rightharpoonup> FServerMessageHandler option"
  CorrelationId :: int
  bIsReady :: bool
  WebSocket :: "IWebSocket option"
  ChatInterface :: "notification list"
  LogMixerChat :: "log_line list"

text \<open>
  \<open>CorrelationId\<close> is the member \<^verbatim>\<open>MessageId\<close> of the connection (the name \<open>MessageId\<close> is
  the field of a message here). A stored null handler is \<open>Some None\<close> in \<open>ReplyHandlers\<close>.
\<close>

definition UE_LOG :: "log_line \<Rightarrow> FMixerChatConnection \<Rightarrow> FMixerChatConnection" where
  "UE_LOG l s = s\<lparr>LogMixerChat := LogMixerChat s @ [l]\<rparr>"

definition Notify :: "notification \<Rightarrow> FMixerChatConnection \<Rightarrow> FMixerChatConnection" where
  "Notify n s = s\<lparr>ChatInterface := ChatInterface s @ [n]\<rparr>"

definition set_NextLink :: "nat \<Rightarrow> nat option \<Rightarrow> FMixerChatConnection \<Rightarrow> FMixerChatConnection" where
  "set_NextLink a v s = s\<lparr>Heap := (Heap s)(a := (Heap s a)\<lparr>NextLink := v\<rparr>)\<rparr>"

definition set_PrevLink :: "nat \<Rightarrow> nat option \<Rightarrow> FMixerChatConnection \<Rightarrow> FMixerChatConnection" where
  "set_PrevLink a v s = s\<lparr>Heap := (Heap s)(a := (Heap s a)\<lparr>PrevLink := v\<rparr>)\<rparr>"

text \<open>\<^verbatim>\<open>MakeShared<FChatMessageMixerImpl>\<close>: the new object gets the next address.\<close>

definition MakeShared :: "FChatMessageMixerImpl \<Rightarrow> FMixerChatConnection \<Rightarrow> nat \<times> FMixerChatConnection" where
  "MakeShared m s = (HeapNext s, s\<lparr>Heap := (Heap s)(HeapNext s := m), HeapNext := HeapNext s + 1\<rparr>)"

subsection \<open>The chat-history cache\<close>

definition AddMessageToChatHistory :: "nat \<Rightarrow> FMixerChatConnection \<Rightarrow> error + FMixerChatConnection" where
  "AddMessageToChatHistory ChatMessage s =
     (if ChatHistoryMax s > 0 \<and> \<not> bIsWhisper (Heap s ChatMessage) then
        let s1 = set_NextLink ChatMessage (ChatHistoryNewest s) s;
            s2 = (case ChatHistoryNewest s1 of
                    Some n \<Rightarrow> set_PrevLink n (Some ChatMessage) s1
                  | None \<Rightarrow> s1);
            s3 = s2\<lparr>ChatHistoryNewest := Some ChatMessage,
                    ChatHistoryNum := ChatHistoryNum s2 + 1\<rparr>
        in (case ChatHistoryOldest s3 of
              None \<Rightarrow> Inr (s3\<lparr>ChatHistoryOldest := Some ChatMessage\<rparr>)
            | Some old \<Rightarrow>
                if ChatHistoryNum s3 > ChatHistoryMax s3 then
                  let s4 = s3\<lparr>ChatHistoryOldest := PrevLink (Heap s3 old)\<rparr> in
                  (case ChatHistoryOldest s4 of
                     None \<Rightarrow> Inr (s4\<lparr>ChatHistoryNum := ChatHistoryNum s4 - 1\<rparr>)
                   | Some old' \<Rightarrow>
                       (case NextLink (Heap s4 old') of
                          None \<Rightarrow> Inl CheckFailed
                        | Some n \<Rightarrow>
                            let s5 = set_PrevLink n None s4;
                                s6 = set_NextLink old' None s5
                            in Inr (s6\<lparr>ChatHistoryNum := ChatHistoryNum s6 - 1\<rparr>)))
                else Inr s3)
      else Inr s)"

text \<open>
  The body of the loop of \<^verbatim>\<open>DeleteFromChatHistoryIf\<close> for a message the predicate accepts.
\<close>

definition DeleteNode :: "nat \<Rightarrow> FMixerChatConnection \<Rightarrow> FMixerChatConnection" where
  "DeleteNode ChatMessage s =
     (let s1 = s\<lparr>Heap := (Heap s)(ChatMessage := FlagAsDeleted (Heap s ChatMessage))\<rparr>;
          s2 = (if Some ChatMessage = ChatHistoryNewest s1
                then s1\<lparr>ChatHistoryNewest := NextLink (Heap s1 ChatMessage)\<rparr> else s1);
          s3 = (if Some ChatMessage = ChatHistoryOldest s2
                then s2\<lparr>ChatHistoryOldest := PrevLink (Heap s2 ChatMessage)\<rparr> else s2);
          s4 = (case NextLink (Heap s3 ChatMessage) of
                  Some n \<Rightarrow> set_PrevLink n (PrevLink (Heap s3 ChatMessage)) s3
                | None \<Rightarrow> s3);
          s5 = (case PrevLink (Heap s4 ChatMessage) of
                  Some p \<Rightarrow> set_NextLink p (NextLink (Heap s4 ChatMessage)) s4
                | None \<Rightarrow> s4);
          s6 = set_NextLink ChatMessage None s5;
          s7 = set_PrevLink ChatMessage None s6
      in s7\<lparr>ChatHistoryNum := ChatHistoryNum s7 - 1\<rparr>)"

text \<open>
  The loop of \<^verbatim>\<open>DeleteFromChatHistoryIf\<close>, from the message \<open>ChatMessage\<close> on. The predicate
  is a callable that may carry state of its own (a capturing lambda): it gets its state,
  the address and the object, and returns its answer and its new state.
\<close>

partial_function (option) DeleteLoop ::
  "('p \<Rightarrow> nat \<Rightarrow> FChatMessageMixerImpl \<Rightarrow> bool \<times> 'p) \<Rightarrow> 'p \<Rightarrow> nat option \<Rightarrow>
   FMixerChatConnection \<Rightarrow> ('p \<times> FMixerChatConnection) option" where
  "DeleteLoop Predicate p ChatMessage s =
     (case ChatMessage of
        None \<Rightarrow> Some (p, s)
      | Some m \<Rightarrow>
          (let NextMessage = NextLink (Heap s m);
               (b, p') = Predicate p m (Heap s m)
           in if b then DeleteLoop Predicate p' NextMessage (DeleteNode m s)
              else DeleteLoop Predicate p' NextMessage s))"

declare DeleteLoop.simps [code]

definition DeleteFromChatHistoryIf ::
  "('p \<Rightarrow> nat \<Rightarrow> FChatMessageMixerImpl \<Rightarrow> bool \<times> 'p) \<Rightarrow> 'p \<Rightarrow>
   FMixerChatConnection \<Rightarrow> ('p \<times> FMixerChatConnection) option" where
  "DeleteFromChatHistoryIf Predicate p s = DeleteLoop Predicate p (ChatHistoryNewest s) s"

subsection \<open>Decoding a chat message\<close>

definition HandleChatMessageEventMessageArrayEntry ::
  "FJsonObject \<Rightarrow> nat \<Rightarrow> FMixerChatConnection \<Rightarrow> bool \<times> FMixerChatConnection" where
  "HandleChatMessageEventMessageArrayEntry JsonObj ChatMessage s =
     (case TryGetStringField JsonObj ''type'' of
        None \<Rightarrow> (False, UE_LOG (MissingRequiredField ''type'') s)
      | Some FragmentType \<Rightarrow>
          (case TryGetStringField JsonObj ''text'' of
             None \<Rightarrow> (False, UE_LOG (MissingRequiredField ''text'') s)
           | Some FragmentText \<Rightarrow>
               (True, s\<lparr>Heap := (Heap s)(ChatMessage :=
                          AppendBodyFragment FragmentText (Heap s ChatMessage))\<rparr>)))"

text \<open>
  The source reads the flags \<^verbatim>\<open>whisper\<close> and \<^verbatim>\<open>me\<close> from the message object itself, once
  that object has a \<^verbatim>\<open>meta\<close> object; so does the model.
\<close>

definition HandleChatMessageEventMessageObject ::
  "FJsonObject \<Rightarrow> nat \<Rightarrow> FMixerChatConnection \<Rightarrow> bool \<times> FMixerChatConnection" where
  "HandleChatMessageEventMessageObject JsonObj ChatMessage s =
     (case TryGetArrayField JsonObj ''message'' of
        None \<Rightarrow> (False, UE_LOG (MissingRequiredField ''message'') s)
      | Some MessageFragmentArray \<Rightarrow>
          (let s1 = fold (\<lambda>Fragment t.
                      case TryGetObject Fragment of
                        Some FragmentObj \<Rightarrow>
                          snd (HandleChatMessageEventMessageArrayEntry FragmentObj ChatMessage t)
                      | None \<Rightarrow> t) MessageFragmentArray s;
               has_meta = (TryGetObjectField JsonObj ''meta'' \<noteq> None);
               bWhisper = (has_meta \<and> TryGetBoolField JsonObj ''whisper'' = Some True);
               bAction = (has_meta \<and> TryGetBoolField JsonObj ''me'' = Some True);
               s2 = (if bWhisper
                     then s1\<lparr>Heap := (Heap s1)(ChatMessage := FlagAsWhisper (Heap s1 ChatMessage))\<rparr>
                     else s1);
               s3 = (if bAction
                     then s2\<lparr>Heap := (Heap s2)(ChatMessage := FlagAsAction (Heap s2 ChatMessage))\<rparr>
                     else s2)
           in (True, s3)))"

text \<open>
  The result is the returned flag, the out-parameter \<^verbatim>\<open>OutChatMessage\<close> and the state.
\<close>

definition HandleChatMessageEventInternal ::
  "(string \<Rightarrow> FGuid option) \<Rightarrow> FJsonObject \<Rightarrow> FMixerChatConnection \<Rightarrow>
   bool \<times> nat option \<times> FMixerChatConnection" where
  "HandleChatMessageEventInternal Parse JsonObj s =
     (case TryGetStringField JsonObj ''user_name'' of
        None \<Rightarrow> (False, None, UE_LOG (MissingRequiredField ''user_name'') s)
      | Some FromUserName \<Rightarrow>
     (case TryGetNumberField JsonObj ''user_id'' of
        None \<Rightarrow> (False, None, UE_LOG (MissingRequiredField ''user_id'') s)
      | Some FromUserIdRaw \<Rightarrow>
     (case TryGetObjectField JsonObj ''message'' of
        None \<Rightarrow> (False, None, UE_LOG (MissingRequiredField ''message'') s)
      | Some MessageJson \<Rightarrow>
     (case TryGetStringField JsonObj ''id'' of
        None \<Rightarrow> (False, None, UE_LOG (MissingRequiredField ''id'') s)
      | Some IdString \<Rightarrow>
     (case Parse IdString of
        None \<Rightarrow> (False, None, UE_LOG (IdNotGuid IdString) s)
      | Some MsgId \<Rightarrow>
          (let bSendJoinEvent = (CachedUsers s FromUserIdRaw = None);
               u0 = (case CachedUsers s FromUserIdRaw of
                       None \<Rightarrow> FMixerChatUser_new FromUserName FromUserIdRaw
                     | Some u \<Rightarrow> u);
               s1 = (case TryGetNumberField JsonObj ''user_level'' of
                       Some l \<Rightarrow> s\<lparr>CachedUsers := (CachedUsers s)(FromUserIdRaw \<mapsto> u0\<lparr>Level := l\<rparr>)\<rparr>
                     | None \<Rightarrow>
                         UE_LOG MissingUserLevel
                           (s\<lparr>CachedUsers := (CachedUsers s)(FromUserIdRaw \<mapsto> u0)\<rparr>));
               FromUserObject = (case TryGetNumberField JsonObj ''user_level'' of
                                   Some l \<Rightarrow> u0\<lparr>Level := l\<rparr> | None \<Rightarrow> u0);
               s2 = (if bSendJoinEvent
                     then Notify (ChatRoomMemberJoin FromUserObject)
                            (UE_LOG (IsJoining (Name FromUserObject)) s1)
                     else s1);
               (OutChatMessage, s3) = MakeShared (FChatMessageMixerImpl_new MsgId FromUserObject) s2;
               (b, s4) = HandleChatMessageEventMessageObject MessageJson OutChatMessage s3
           in (b, Some OutChatMessage, s4)))))))"

subsection \<open>Sending\<close>

text \<open>
  \<^verbatim>\<open>WriteRemoteMethodPacket\<close>: the frame is kept as the tree the writer is asked to write.
\<close>

definition WriteRemoteMethodPacket :: "string \<Rightarrow> int \<Rightarrow> json list \<Rightarrow> json" where
  "WriteRemoteMethodPacket MethodName MsgId Args =
     JObject [(''type'', JString ''method''), (''method'', JString MethodName),
              (''arguments'', JArray Args), (''id'', JNumber MsgId)]"

definition SendMethodPacket ::
  "json \<Rightarrow> FServerMessageHandler option \<Rightarrow> FMixerChatConnection \<Rightarrow> error + FMixerChatConnection" where
  "SendMethodPacket Payload Handler s =
     (if ReplyHandlers s (CorrelationId s) \<noteq> None then Inl CheckFailed
      else
        let s1 = s\<lparr>ReplyHandlers := (ReplyHandlers s)(CorrelationId s \<mapsto> Handler)\<rparr> in
        if CorrelationId s1 = 2147483647 then Inl SignedOverflow
        else
          let s2 = s1\<lparr>CorrelationId := CorrelationId s1 + 1\<rparr> in
          (case WebSocket s2 of
             None \<Rightarrow> Inl NullDereference
           | Some ws \<Rightarrow> Inr (s2\<lparr>WebSocket := Some (ws\<lparr>Sent := Sent ws @ [Payload]\<rparr>)\<rparr>)))"

text \<open>
  \<^verbatim>\<open>IsAnonymous\<close> is declared outside the source; it is the parameter \<open>IsAnonymous\<close>, a
  function of the connection.
\<close>

definition SendChatMessage ::
  "(FMixerChatConnection \<Rightarrow> bool) \<Rightarrow> string \<Rightarrow> FMixerChatConnection \<Rightarrow>
   error + bool \<times> FMixerChatConnection" where
  "SendChatMessage IsAnonymous MessageBody s =
     (if \<not> bIsReady s then Inr (False, UE_LOG SendBeforeReady s)
      else if IsAnonymous s then Inr (False, UE_LOG SendWhenAnonymous s)
      else
        (case WebSocket s of
           None \<Rightarrow> Inl CheckFailed
         | Some ws \<Rightarrow>
             if \<not> IsConnected ws then Inl CheckFailed
             else
               (case SendMethodPacket
                       (WriteRemoteMethodPacket ''msg'' (CorrelationId s) [JString MessageBody])
                       None s of
                  Inl e \<Rightarrow> Inl e
                | Inr s' \<Rightarrow> Inr (True, s'))))"

definition SendWhisper ::
  "(FMixerChatConnection \<Rightarrow> bool) \<Rightarrow> string \<Rightarrow> string \<Rightarrow> FMixerChatConnection \<Rightarrow>
   error + bool \<times> FMixerChatConnection" where
  "SendWhisper IsAnonymous ToUser MessageBody s =
     (if \<not> bIsReady s then Inr (False, UE_LOG SendBeforeReady s)
      else if IsAnonymous s then Inr (False, UE_LOG SendWhenAnonymous s)
      else
        (case SendMethodPacket
                (WriteRemoteMethodPacket ''whisper'' (CorrelationId s)
                   [JString ToUser, JString MessageBody])
                None s of
           Inl e \<Rightarrow> Inl e
         | Inr s' \<Rightarrow> Inr (True, s')))"

definition SendHistory :: "int \<Rightarrow> FMixerChatConnection \<Rightarrow> error + FMixerChatConnection" where
  "SendHistory MessageCount s =
     SendMethodPacket
       (WriteRemoteMethodPacket ''history'' (CorrelationId s) [JNumber MessageCount])
       (Some HandleHistoryReply_fn) s"

subsection \<open>Handlers of events\<close>

definition HandleWelcomeEvent :: "FJsonObject \<Rightarrow> FMixerChatConnection \<Rightarrow> bool \<times> FMixerChatConnection" where
  "HandleWelcomeEvent JsonObj s = (True, UE_LOG WelcomedByServer s)"

definition HandleChatMessageEvent ::
  "(string \<Rightarrow> FGuid option) \<Rightarrow> FJsonObject \<Rightarrow> FMixerChatConnection \<Rightarrow>
   error + bool \<times> FMixerChatConnection" where
  "HandleChatMessageEvent Parse JsonObj s =
     (let (bHandled, ChatMessage, s1) = HandleChatMessageEventInternal Parse JsonObj s in
      if bHandled then
        (case ChatMessage of
           None \<Rightarrow> Inl CheckFailed
         | Some m \<Rightarrow>
             if bIsWhisper (Heap s1 m) then
               Inr (True, Notify (ChatPrivateMessageReceived m)
                      (UE_LOG (PrivateMessageFrom (FromUser_Name (Heap s1 m)) (Body (Heap s1 m))) s1))
             else
               (case AddMessageToChatHistory m
                       (UE_LOG (ChatMessageFrom (FromUser_Name (Heap s1 m)) (Body (Heap s1 m))) s1) of
                  Inl e \<Rightarrow> Inl e
                | Inr s2 \<Rightarrow> Inr (True, Notify (ChatRoomMessageReceived m) s2)))
      else Inr (False, s1))"

definition HandleUserJoinEvent :: "FJsonObject \<Rightarrow> FMixerChatConnection \<Rightarrow> bool \<times> FMixerChatConnection" where
  "HandleUserJoinEvent JsonObj s =
     (case TryGetNumberField JsonObj ''id'' of
        None \<Rightarrow> (False, UE_LOG (MissingRequiredField ''id'') s)
      | Some JoiningUserIdRaw \<Rightarrow>
          (case CachedUsers s JoiningUserIdRaw of
             None \<Rightarrow>
               (case TryGetStringField JsonObj ''username'' of
                  None \<Rightarrow> (False, UE_LOG (MissingRequiredField ''username'') s)
                | Some JoiningUserName \<Rightarrow>
                    (let CachedUser = FMixerChatUser_new JoiningUserName JoiningUserIdRaw;
                         s1 = s\<lparr>CachedUsers := (CachedUsers s)(JoiningUserIdRaw \<mapsto> CachedUser)\<rparr>
                     in (True, Notify (ChatRoomMemberJoin CachedUser)
                                 (UE_LOG (IsJoining (Name CachedUser)) s1))))
           | Some CachedUser \<Rightarrow> (True, s)))"

definition HandleUserLeaveEvent :: "FJsonObject \<Rightarrow> FMixerChatConnection \<Rightarrow> bool \<times> FMixerChatConnection" where
  "HandleUserLeaveEvent JsonObj s =
     (case TryGetNumberField JsonObj ''id'' of
        None \<Rightarrow> (False, UE_LOG (MissingRequiredField ''id'') s)
      | Some LeavingUserIdRaw \<Rightarrow>
          (case CachedUsers s LeavingUserIdRaw of
             Some LeavingUser \<Rightarrow>
               (True, Notify (ChatRoomMemberExit LeavingUser)
                        (UE_LOG (IsExiting (Name LeavingUser))
                           (s\<lparr>CachedUsers := (CachedUsers s)(LeavingUserIdRaw := None)\<rparr>)))
           | None \<Rightarrow> (True, s)))"

definition HandleDeleteMessageEvent ::
  "(string \<Rightarrow> FGuid option) \<Rightarrow> FJsonObject \<Rightarrow> FMixerChatConnection \<Rightarrow>
   (bool \<times> FMixerChatConnection) option" where
  "HandleDeleteMessageEvent Parse JsonObj s =
     (case TryGetStringField JsonObj ''id'' of
        None \<Rightarrow> Some (False, UE_LOG (MissingRequiredField ''id'') s)
      | Some IdString \<Rightarrow>
          (case Parse IdString of
             None \<Rightarrow> Some (False, UE_LOG (IdNotGuid IdString) s)
           | Some MsgId \<Rightarrow>
               (case DeleteFromChatHistoryIf (\<lambda>(u::unit) a m. (MessageId m = MsgId, u)) () s of
                  None \<Rightarrow> None
                | Some (u, s') \<Rightarrow> Some (True, s'))))"

definition HandleClearMessagesEvent ::
  "FJsonObject \<Rightarrow> FMixerChatConnection \<Rightarrow> (error + bool \<times> FMixerChatConnection) option" where
  "HandleClearMessagesEvent JsonObj s =
     (case DeleteFromChatHistoryIf (\<lambda>(u::unit) a m. (True, u)) () s of
        None \<Rightarrow> None
      | Some (u, s') \<Rightarrow>
          if ChatHistoryNum s' \<noteq> 0 then Some (Inl CheckFailed)
          else if ChatHistoryNewest s' \<noteq> None then Some (Inl CheckFailed)
          else if ChatHistoryOldest s' \<noteq> None then Some (Inl CheckFailed)
          else Some (Inr (True, s')))"

definition HandlePurgeMessageEvent ::
  "FJsonObject \<Rightarrow> FMixerChatConnection \<Rightarrow> (bool \<times> FMixerChatConnection) option" where
  "HandlePurgeMessageEvent JsonObj s =
     (case TryGetNumberField JsonObj ''user_id'' of
        None \<Rightarrow> Some (False, UE_LOG (MissingRequiredField ''user_id'') s)
      | Some UserId \<Rightarrow>
          (case DeleteFromChatHistoryIf (\<lambda>(u::unit) a m. (FromUser_Id m = UserId, u)) () s of
             None \<Rightarrow> None
           | Some (u, s') \<Rightarrow> Some (True, s')))"

subsection \<open>Handlers of replies\<close>

definition HandleAuthReply ::
  "FJsonObject \<Rightarrow> FMixerChatConnection \<Rightarrow> error + bool \<times> FMixerChatConnection" where
  "HandleAuthReply JsonObj s =
     (case TryGetObjectField JsonObj ''error'' of
        Some Error \<Rightarrow>
          (let ErrorMessage = (case TryGetStringField Error ''message'' of
                                 Some m \<Rightarrow> m | None \<Rightarrow> [])
           in Inr (False, Notify (ConnectAttemptFinished False ErrorMessage) s))
      | None \<Rightarrow>
          (let s1 = s\<lparr>bIsReady := True\<rparr> in
           (case (if ChatHistoryMax s1 > 0
                  then SendHistory (min (ChatHistoryMax s1) 100) s1
                  else Inr s1) of
              Inl e \<Rightarrow> Inl e
            | Inr s2 \<Rightarrow> Inr (True, Notify (ConnectAttemptFinished True []) s2))))"

text \<open>The loop of \<^verbatim>\<open>HandleHistoryReply\<close> over the entries the server reports, oldest first.\<close>

fun HistoryLoop ::
  "(string \<Rightarrow> FGuid option) \<Rightarrow> json list \<Rightarrow> FMixerChatConnection \<Rightarrow> error + FMixerChatConnection" where
  "HistoryLoop Parse [] s = Inr s"
| "HistoryLoop Parse (HistoryEntry # Data) s =
     (let (ok, ChatMessage, s1) = HandleChatMessageEventInternal Parse (AsObject HistoryEntry) s in
      if ok then
        (case ChatMessage of
           None \<Rightarrow> Inl NullDereference
         | Some m \<Rightarrow>
             if bIsWhisper (Heap s1 m) then Inl CheckFailed
             else
               (case AddMessageToChatHistory m s1 of
                  Inl e \<Rightarrow> Inl e
                | Inr s2 \<Rightarrow> HistoryLoop Parse Data s2))
      else HistoryLoop Parse Data s1)"

text \<open>
  The scan of \<^verbatim>\<open>HandleHistoryReply\<close> for a message with the id \<open>IdToCheckForDupes\<close>: the
  result is the final \<^verbatim>\<open>ServerHistoryMessage\<close> and \<^verbatim>\<open>DupeCount\<close>.
\<close>

partial_function (option) FindDupe ::
  "(nat \<Rightarrow> FChatMessageMixerImpl) \<Rightarrow> FGuid \<Rightarrow> nat option \<Rightarrow> int \<Rightarrow> (nat option \<times> int) option" where
  "FindDupe h IdToCheckForDupes ServerHistoryMessage DupeCount =
     (case ServerHistoryMessage of
        None \<Rightarrow> Some (None, DupeCount)
      | Some m \<Rightarrow>
          if MessageId (h m) = IdToCheckForDupes then Some (Some m, DupeCount + 1)
          else FindDupe h IdToCheckForDupes (NextLink (h m)) (DupeCount + 1))"

declare FindDupe.simps [code]

text \<open>The first block of \<^verbatim>\<open>HandleHistoryReply\<close>: the member pointers are cleared.\<close>

definition StashHistory :: "FMixerChatConnection \<Rightarrow> FMixerChatConnection" where
  "StashHistory s =
     s\<lparr>ChatHistoryNewest := None, ChatHistoryOldest := None, ChatHistoryNum := 0,
       ChatHistoryMax := ChatHistoryMax s - ChatHistoryNum s\<rparr>"

text \<open>
  The last block of \<^verbatim>\<open>HandleHistoryReply\<close>, which links the stashed history in front of
  the history built from the reply.
\<close>

definition RelinkHistory ::
  "nat option \<Rightarrow> nat option \<Rightarrow> int \<Rightarrow> int \<Rightarrow> FMixerChatConnection \<Rightarrow>
   FMixerChatConnection option" where
  "RelinkHistory LocalHistoryNewest LocalHistoryOldest LocalHistoryNum LocalHistoryMax s =
     (case ChatHistoryNewest s of
        None \<Rightarrow>
          Some (s\<lparr>ChatHistoryNewest := LocalHistoryNewest, ChatHistoryOldest := LocalHistoryOldest\<rparr>)
      | Some ServerNewest \<Rightarrow>
          (case LocalHistoryOldest of
             None \<Rightarrow> Some s
           | Some LocalOldest \<Rightarrow>
               (case FindDupe (Heap s) (MessageId (Heap s LocalOldest)) (ChatHistoryNewest s) 0 of
                  None \<Rightarrow> None
                | Some (ServerHistoryMessage, DupeCount) \<Rightarrow>
                    (let s3 =
                       (case ServerHistoryMessage of
                          Some d \<Rightarrow>
                            (let s1 = set_NextLink LocalOldest (NextLink (Heap s d)) s;
                                 s2 = (case NextLink (Heap s1 d) of
                                         Some n \<Rightarrow> set_PrevLink n (Some LocalOldest) s1
                                       | None \<Rightarrow> s1)
                             in s2\<lparr>ChatHistoryNum := ChatHistoryNum s2 - DupeCount\<rparr>)
                        | None \<Rightarrow>
                            set_PrevLink ServerNewest (Some LocalOldest)
                              (set_NextLink LocalOldest (ChatHistoryNewest s) s))
                     in Some (s3\<lparr>ChatHistoryNewest := LocalHistoryNewest,
                                 ChatHistoryNum := ChatHistoryNum s3 + LocalHistoryNum,
                                 ChatHistoryMax := LocalHistoryMax\<rparr>)))))"

definition HandleHistoryReply ::
  "(string \<Rightarrow> FGuid option) \<Rightarrow> FJsonObject \<Rightarrow> FMixerChatConnection \<Rightarrow>
   (error + bool \<times> FMixerChatConnection) option" where
  "HandleHistoryReply Parse JsonObj s =
     (case TryGetArrayField JsonObj ''data'' of
        None \<Rightarrow> Some (Inr (False, UE_LOG (MissingRequiredField ''data'') s))
      | Some Data \<Rightarrow>
          (case HistoryLoop Parse Data (StashHistory s) of
             Inl e \<Rightarrow> Some (Inl e)
           | Inr s1 \<Rightarrow>
               (case RelinkHistory (ChatHistoryNewest s) (ChatHistoryOldest s)
                       (ChatHistoryNum s) (ChatHistoryMax s) s1 of
                  None \<Rightarrow> None
                | Some s2 \<Rightarrow> Some (Inr (True, s2)))))"

subsection \<open>The router\<close>

definition GetEventHandler :: "string \<Rightarrow> FServerMessageHandler option" where
  "GetEventHandler EventType =
     map_of [(''WelcomeEvent'', HandleWelcomeEvent_fn),
             (''ChatMessage'', HandleChatMessageEvent_fn),
             (''UserJoin'', HandleUserJoinEvent_fn),
             (''UserLeave'', HandleUserLeaveEvent_fn),
             (''DeleteMessage'', HandleDeleteMessageEvent_fn),
             (''ClearMessages'', HandleClearMessagesEvent_fn),
             (''PurgeMessage'', HandlePurgeMessageEvent_fn)] EventType"

text \<open>The call \<^verbatim>\<open>(this->*Handler)(JsonObj)\<close> through a member-function pointer.\<close>

definition Invoke ::
  "(string \<Rightarrow> FGuid option) \<Rightarrow> FServerMessageHandler \<Rightarrow> FJsonObject \<Rightarrow> FMixerChatConnection \<Rightarrow>
   (error + bool \<times> FMixerChatConnection) option" where
  "Invoke Parse Handler JsonObj s =
     (case Handler of
        HandleAuthReply_fn \<Rightarrow> Some (HandleAuthReply JsonObj s)
      | HandleHistoryReply_fn \<Rightarrow> HandleHistoryReply Parse JsonObj s
      | HandleWelcomeEvent_fn \<Rightarrow> Some (Inr (HandleWelcomeEvent JsonObj s))
      | HandleChatMessageEvent_fn \<Rightarrow> Some (HandleChatMessageEvent Parse JsonObj s)
      | HandleUserJoinEvent_fn \<Rightarrow> Some (Inr (HandleUserJoinEvent JsonObj s))
      | HandleUserLeaveEvent_fn \<Rightarrow> Some (Inr (HandleUserLeaveEvent JsonObj s))
      | HandleDeleteMessageEvent_fn \<Rightarrow> map_option Inr (HandleDeleteMessageEvent Parse JsonObj s)
      | HandleClearMessagesEvent_fn \<Rightarrow> HandleClearMessagesEvent JsonObj s
      | HandlePurgeMessageEvent_fn \<Rightarrow> map_option Inr (HandlePurgeMessageEvent JsonObj s))"

text \<open>
  The router drops the flag a handler returns and reports the frame as handled.
\<close>

definition InvokeHandled ::
  "(string \<Rightarrow> FGuid option) \<Rightarrow> FServerMessageHandler \<Rightarrow> FJsonObject \<Rightarrow> FMixerChatConnection \<Rightarrow>
   (error + bool \<times> FMixerChatConnection) option" where
  "InvokeHandled Parse Handler JsonObj s =
     (case Invoke Parse Handler JsonObj s of
        None \<Rightarrow> None
      | Some (Inl e) \<Rightarrow> Some (Inl e)
      | Some (Inr (b, s')) \<Rightarrow> Some (Inr (True, s')))"

definition OnChatPacketInternal ::
  "(string \<Rightarrow> FGuid option) \<Rightarrow> FJsonObject \<Rightarrow> FMixerChatConnection \<Rightarrow>
   (error + bool \<times> FMixerChatConnection) option" where
  "OnChatPacketInternal Parse JsonObj s =
     (case TryGetStringField JsonObj ''type'' of
        None \<Rightarrow> Some (Inr (False, UE_LOG (MissingRequiredField ''type'') s))
      | Some MessageType \<Rightarrow>
          if MessageType = ''reply'' then
            (case TryGetNumberField JsonObj ''id'' of
               None \<Rightarrow> Some (Inr (False, UE_LOG (MissingRequiredField ''id'') s))
             | Some ReplyingToMessageId \<Rightarrow>
                 (case ReplyHandlers s ReplyingToMessageId of
                    Some Handler \<Rightarrow>
                      (let s1 = s\<lparr>ReplyHandlers := (ReplyHandlers s)(ReplyingToMessageId := None)\<rparr> in
                       (case Handler of
                          Some h \<Rightarrow> InvokeHandled Parse h JsonObj s1
                        | None \<Rightarrow> Some (Inr (True, s1))))
                  | None \<Rightarrow> Some (Inr (False, UE_LOG (UnexpectedReply ReplyingToMessageId) s))))
          else if MessageType = ''event'' then
            (case TryGetStringField JsonObj ''event'' of
               None \<Rightarrow> Some (Inr (False, UE_LOG (MissingRequiredField ''event'') s))
             | Some EventType \<Rightarrow>
                 (case TryGetObjectField JsonObj ''data'' of
                    None \<Rightarrow> Some (Inr (False, UE_LOG (MissingRequiredField ''data'') s))
                  | Some Data \<Rightarrow>
                      (case GetEventHandler EventType of
                         Some h \<Rightarrow> InvokeHandled Parse h Data s
                       | None \<Rightarrow> Some (Inr (False, UE_LOG (EventNotHandled EventType) s)))))
          else Some (Inr (False, s)))"


section \<open>The history cache as a list\<close>

text \<open>
  \<open>NextPath h p xs q\<close>: following \<^verbatim>\<open>NextLink\<close> from the pointer \<open>p\<close> visits the addresses
  \<open>xs\<close> in order and arrives at the pointer \<open>q\<close>. \<open>PrevLinked h q xs\<close>: the \<^verbatim>\<open>PrevLink\<close> of
  every address of \<open>xs\<close> is its predecessor in \<open>xs\<close>, that of the first one is \<open>q\<close>.
\<close>

fun NextPath ::
  "(nat \<Rightarrow> FChatMessageMixerImpl) \<Rightarrow> nat option \<Rightarrow> nat list \<Rightarrow> nat option \<Rightarrow> bool" where
  "NextPath h p [] q = (p = q)"
| "NextPath h p (a # as) q = (p = Some a \<and> NextPath h (NextLink (h a)) as q)"

fun PrevLinked :: "(nat \<Rightarrow> FChatMessageMixerImpl) \<Rightarrow> nat option \<Rightarrow> nat list \<Rightarrow> bool" where
  "PrevLinked h q [] = True"
| "PrevLinked h q (a # as) = (PrevLink (h a) = q \<and> PrevLinked h (Some a) as)"

text \<open>
  \<open>Linked h newest oldest xs\<close>: the messages at \<open>xs\<close>, newest first, form a doubly-linked
  list whose ends are \<open>newest\<close> and \<open>oldest\<close>.
\<close>

definition Linked ::
  "(nat \<Rightarrow> FChatMessageMixerImpl) \<Rightarrow> nat option \<Rightarrow> nat option \<Rightarrow> nat list \<Rightarrow> bool" where
  "Linked h newest oldest xs =
     (distinct xs \<and> NextPath h newest xs None \<and> PrevLinked h None xs \<and>
      oldest = (if xs = [] then None else Some (last xs)))"

text \<open>
  \<open>HistoryIs s xs\<close>: the cache of \<open>s\<close> holds exactly the messages at \<open>xs\<close>, newest first,
  and \<^verbatim>\<open>ChatHistoryNum\<close> is their number. \<open>HistoryInvariant\<close> adds the bound of the cache.
\<close>

definition HistoryIs :: "FMixerChatConnection \<Rightarrow> nat list \<Rightarrow> bool" where
  "HistoryIs s xs =
     (Linked (Heap s) (ChatHistoryNewest s) (ChatHistoryOldest s) xs \<and>
      ChatHistoryNum s = int (length xs) \<and> list_all (\<lambda>a. a < HeapNext s) xs)"

definition HistoryInvariant :: "FMixerChatConnection \<Rightarrow> nat list \<Rightarrow> bool" where
  "HistoryInvariant s xs = (HistoryIs s xs \<and> ChatHistoryNum s \<le> ChatHistoryMax s)"

text \<open>A message without its links: what the message says.\<close>

definition Unlinked :: "FChatMessageMixerImpl \<Rightarrow> FChatMessageMixerImpl" where
  "Unlinked m = m\<lparr>NextLink := None, PrevLink := None\<rparr>"

text \<open>Everything of the connection but the store and the four members of the cache.\<close>

definition SameButHistory :: "FMixerChatConnection \<Rightarrow> FMixerChatConnection \<Rightarrow> bool" where
  "SameButHistory s s' =
     (HeapNext s' = HeapNext s \<and> ChatHistoryMax s' = ChatHistoryMax s \<and>
      CachedUsers s' = CachedUsers s \<and> ReplyHandlers s' = ReplyHandlers s \<and>
      CorrelationId s' = CorrelationId s \<and> bIsReady s' = bIsReady s \<and>
      WebSocket s' = WebSocket s \<and> ChatInterface s' = ChatInterface s \<and>
      LogMixerChat s' = LogMixerChat s)"

text \<open>
  A push as the callers of \<^verbatim>\<open>AddMessageToChatHistory\<close> do it: the message is a new object.
\<close>

definition PushNew :: "FChatMessageMixerImpl \<Rightarrow> FMixerChatConnection \<Rightarrow> error + FMixerChatConnection" where
  "PushNew msg s = (let (ChatMessage, s1) = MakeShared msg s in AddMessageToChatHistory ChatMessage s1)"

fun PushAll :: "FChatMessageMixerImpl list \<Rightarrow> FMixerChatConnection \<Rightarrow> error + FMixerChatConnection" where
  "PushAll [] s = Inr s"
| "PushAll (msg # msgs) s =
     (case PushNew msg s of Inl e \<Rightarrow> Inl e | Inr s' \<Rightarrow> PushAll msgs s')"

subsection \<open>Example states\<close>

definition NoMessage :: FChatMessageMixerImpl where
  "NoMessage = FChatMessageMixerImpl_new 0 (FMixerChatUser_new [] 0)"

definition EmptyConnection :: "int \<Rightarrow> FMixerChatConnection" where
  "EmptyConnection M =
     \<lparr>Heap = (\<lambda>a. NoMessage), HeapNext = 0, ChatHistoryNewest = None, ChatHistoryOldest = None,
      ChatHistoryNum = 0, ChatHistoryMax = M, CachedUsers = Map.empty,
      ReplyHandlers = Map.empty, CorrelationId = 0, bIsReady = False,
      WebSocket = Some \<lparr>IsConnected = True, Sent = []\<rparr>, ChatInterface = [], LogMixerChat = []\<rparr>"

definition ExampleMessage :: "FGuid \<Rightarrow> FChatMessageMixerImpl" where
  "ExampleMessage i = (FChatMessageMixerImpl_new i (FMixerChatUser_new ''ann'' 7))\<lparr>Body := ''hi''\<rparr>"

text \<open>A cache of two messages: the one with id 11 at address 1 is the newest.\<close>

definition TwoMessages :: "int \<Rightarrow> FMixerChatConnection" where
  "TwoMessages M =
     (EmptyConnection M)
       \<lparr>Heap := (\<lambda>a. NoMessage)
          (0 := (ExampleMessage 10)\<lparr>PrevLink := Some 1\<rparr>,
           1 := (ExampleMessage 11)\<lparr>NextLink := Some 0\<rparr>),
        HeapNext := 2, ChatHistoryNewest := Some 1, ChatHistoryOldest := Some 0,
        ChatHistoryNum := 2\<rparr>"

subsection \<open>What a reported entry decodes to\<close>

text \<open>
  \<open>EntryId Parse JsonObj\<close> is the id of the message that
  \<^verbatim>\<open>HandleChatMessageEventInternal\<close> builds from \<open>JsonObj\<close>, and \<open>None\<close> when it fails;
  \<open>EntryWhisper JsonObj\<close> is the whisper flag of that message. Neither depends on the
  connection (lemma \<open>HandleChatMessageEventInternal_result\<close>). \<open>ServerIds\<close> lists the ids
  of the entries of a reply that decode, in the order of the reply.
\<close>

definition EntryId :: "(string \<Rightarrow> FGuid option) \<Rightarrow> FJsonObject \<Rightarrow> FGuid option" where
  "EntryId Parse JsonObj =
     (if TryGetStringField JsonObj ''user_name'' = None then None
      else if TryGetNumberField JsonObj ''user_id'' = None then None
      else
        (case TryGetObjectField JsonObj ''message'' of
           None \<Rightarrow> None
         | Some MessageJson \<Rightarrow>
             (case TryGetStringField JsonObj ''id'' of
                None \<Rightarrow> None
              | Some IdString \<Rightarrow>
                  if TryGetArrayField MessageJson ''message'' = None then None
                  else Parse IdString)))"

definition EntryWhisper :: "FJsonObject \<Rightarrow> bool" where
  "EntryWhisper JsonObj =
     (case TryGetObjectField JsonObj ''message'' of
        None \<Rightarrow> False
      | Some MessageJson \<Rightarrow>
          TryGetObjectField MessageJson ''meta'' \<noteq> None \<and>
          TryGetBoolField MessageJson ''whisper'' = Some True)"

definition ServerIds :: "(string \<Rightarrow> FGuid option) \<Rightarrow> json list \<Rightarrow> FGuid list" where
  "ServerIds Parse Data = List.map_filter (\<lambda>e. EntryId Parse (AsObject e)) Data"

definition NoWhisperEntry :: "(string \<Rightarrow> FGuid option) \<Rightarrow> json list \<Rightarrow> bool" where
  "NoWhisperEntry Parse Data =
     list_all (\<lambda>e. EntryId Parse (AsObject e) = None \<or> \<not> EntryWhisper (AsObject e)) Data"

text \<open>
  \<open>SameCache\<close>: the four members of the cache agree. \<open>SameRouter\<close>: the table of pending
  replies, the correlation counter, the readiness flag and the socket agree.
  \<open>BuildsMessage a s s'\<close>: from \<open>s\<close> to \<open>s'\<close> nothing has changed but the log and, of the
  message at \<open>a\<close>, its body and its two flags.
\<close>

definition SameCache :: "FMixerChatConnection \<Rightarrow> FMixerChatConnection \<Rightarrow> bool" where
  "SameCache s s' =
     (ChatHistoryNewest s' = ChatHistoryNewest s \<and> ChatHistoryOldest s' = ChatHistoryOldest s \<and>
      ChatHistoryNum s' = ChatHistoryNum s \<and> ChatHistoryMax s' = ChatHistoryMax s)"

definition SameRouter :: "FMixerChatConnection \<Rightarrow> FMixerChatConnection \<Rightarrow> bool" where
  "SameRouter s s' =
     (ReplyHandlers s' = ReplyHandlers s \<and> CorrelationId s' = CorrelationId s \<and>
      bIsReady s' = bIsReady s \<and> WebSocket s' = WebSocket s)"

definition BuildsMessage :: "nat \<Rightarrow> FMixerChatConnection \<Rightarrow> FMixerChatConnection \<Rightarrow> bool" where
  "BuildsMessage a s s' =
     (SameCache s s' \<and> SameRouter s s' \<and> HeapNext s' = HeapNext s \<and>
      CachedUsers s' = CachedUsers s \<and> ChatInterface s' = ChatInterface s \<and>
      (\<forall>c. c \<noteq> a \<longrightarrow> Heap s' c = Heap s c) \<and>
      MessageId (Heap s' a) = MessageId (Heap s a) \<and>
      FromUser_Name (Heap s' a) = FromUser_Name (Heap s a) \<and>
      FromUser_Id (Heap s' a) = FromUser_Id (Heap s a) \<and>
      bIsModerated (Heap s' a) = bIsModerated (Heap s a) \<and>
      NextLink (Heap s' a) = NextLink (Heap s a) \<and>
      PrevLink (Heap s' a) = PrevLink (Heap s a))"

text \<open>
  A stand-in for \<^verbatim>\<open>FGuid::Parse\<close> in the examples, which knows the texts of four ids; an
  entry of a reply as the server reports it; a reply to the history request.
\<close>

definition ExampleParse :: "string \<Rightarrow> FGuid option" where
  "ExampleParse = map_of [(''10'', 10), (''11'', 11), (''20'', 20), (''21'', 21)]"

definition ExampleEntry :: "string \<Rightarrow> json" where
  "ExampleEntry IdString =
     JObject [(''user_name'', JString ''bob''), (''user_id'', JNumber 9),
              (''message'', JObject [(''message'',
                 JArray [JObject [(''type'', JString ''text''), (''text'', JString ''yo'')]])]),
              (''id'', JString IdString)]"

definition ExampleReply :: "string list \<Rightarrow> FJsonObject" where
  "ExampleReply IdStrings =
     [(''type'', JString ''reply''), (''id'', JNumber 0),
      (''data'', JArray (map ExampleEntry IdStrings))]"

subsection \<open>The table of pending replies\<close>

text \<open>
  \<open>PendingBelow\<close>: every pending correlation id has been issued, that is, lies below the
  counter. \<open>RouterGrows s s'\<close>: from \<open>s\<close> to \<open>s'\<close> the counter has not gone back and the
  table has changed at most at ids issued in between.
\<close>

definition PendingBelow :: "FMixerChatConnection \<Rightarrow> bool" where
  "PendingBelow s = (\<forall>i. ReplyHandlers s i \<noteq> None \<longrightarrow> i < CorrelationId s)"

definition RouterGrows :: "FMixerChatConnection \<Rightarrow> FMixerChatConnection \<Rightarrow> bool" where
  "RouterGrows s s' =
     (CorrelationId s \<le> CorrelationId s' \<and>
      (\<forall>i. ReplyHandlers s' i \<noteq> ReplyHandlers s i \<longrightarrow>
           CorrelationId s \<le> i \<and> i < CorrelationId s'))"

section \<open>Lemmas about the history cache\<close>

lemma NextPath_append:
  "NextPath h p (xs @ ys) q = (\<exists>r. NextPath h p xs r \<and> NextPath h r ys q)"
  by (induction xs arbitrary: p) auto

lemma NextPath_snoc:
  "NextPath h p (xs @ [a]) q = (NextPath h p xs (Some a) \<and> NextLink (h a) = q)"
  by (auto simp: NextPath_append)

lemma PrevLinked_append:
  "PrevLinked h q (xs @ ys) =
     (PrevLinked h q xs \<and> PrevLinked h (if xs = [] then q else Some (last xs)) ys)"
  by (induction xs arbitrary: q) auto

lemma NextPath_cong:
  "(\<And>a. a \<in> set xs \<Longrightarrow> NextLink (h' a) = NextLink (h a)) \<Longrightarrow>
   NextPath h' p xs q = NextPath h p xs q"
  by (induction xs arbitrary: p) auto

lemma PrevLinked_cong:
  "(\<And>a. a \<in> set xs \<Longrightarrow> PrevLink (h' a) = PrevLink (h a)) \<Longrightarrow>
   PrevLinked h' q xs = PrevLinked h q xs"
  by (induction xs arbitrary: q) auto

lemma NextPath_upd:
  "a \<notin> set xs \<Longrightarrow> NextPath (h(a := v)) p xs q = NextPath h p xs q"
  by (rule NextPath_cong) auto

lemma PrevLinked_upd:
  "a \<notin> set xs \<Longrightarrow> PrevLinked (h(a := v)) q xs = PrevLinked h q xs"
  by (rule PrevLinked_cong) auto

lemma NextPath_upd_Prev:
  "NextPath (h(a := (h a)\<lparr>PrevLink := v\<rparr>)) p xs q = NextPath h p xs q"
  by (rule NextPath_cong) auto

lemma PrevLinked_upd_Next:
  "PrevLinked (h(a := (h a)\<lparr>NextLink := v\<rparr>)) q xs = PrevLinked h q xs"
  by (rule PrevLinked_cong) auto

lemma AddMessage_first:
  assumes "HistoryIs s []" "0 < ChatHistoryMax s" "\<not> bIsWhisper (Heap s m)"
    "PrevLink (Heap s m) = None" "m < HeapNext s"
  shows "\<exists>s'. AddMessageToChatHistory m s = Inr s' \<and> HistoryIs s' [m]"
  using assms
  by (auto simp: AddMessageToChatHistory_def HistoryIs_def Linked_def set_NextLink_def set_PrevLink_def Let_def)

lemma AddMessage_room:
  assumes "HistoryIs s xs" "xs \<noteq> []" "int (length xs) < ChatHistoryMax s" "\<not> bIsWhisper (Heap s m)"
    "PrevLink (Heap s m) = None" "m < HeapNext s" "m \<notin> set xs"
  shows "\<exists>s'. AddMessageToChatHistory m s = Inr s' \<and> HistoryIs s' (m # xs)"
proof -
  obtain n ys where xs: "xs = n # ys" using assms(2) by (cases xs) auto
  show ?thesis
    using assms unfolding xs
    by (auto simp: AddMessageToChatHistory_def HistoryIs_def Linked_def set_NextLink_def set_PrevLink_def Let_def
        NextPath_upd PrevLinked_upd NextPath_upd_Prev PrevLinked_upd_Next)
qed


lemma list_ends_cases:
  obtains "ys = []" | n where "ys = [n]" | n ws l where "ys = n # ws @ [l]"
proof (cases ys)
  case Nil then show ?thesis using that by simp
next
  case (Cons n zs)
  then show ?thesis using that by (cases zs rule: rev_cases) auto
qed

lemma NextPath_append2:
  "NextPath h p (xs @ [a, b]) q =
     (NextPath h p xs (Some a) \<and> NextLink (h a) = Some b \<and> NextLink (h b) = q)"
  by (auto simp: NextPath_append)

lemma AddMessage_evict:
  assumes "HistoryIs s (ys @ [old])" "int (length (ys @ [old])) = ChatHistoryMax s" "\<not> bIsWhisper (Heap s m)"
    "PrevLink (Heap s m) = None" "m < HeapNext s" "m \<notin> set (ys @ [old])"
  shows "\<exists>s'. AddMessageToChatHistory m s = Inr s' \<and> HistoryIs s' (m # ys)
           \<and> (\<forall>b. b \<notin> set (m # ys @ [old]) \<longrightarrow> Heap s' b = Heap s b)"
proof (cases ys rule: list_ends_cases)
    case 1
    then show ?thesis
    using assms
    by (auto simp: AddMessageToChatHistory_def HistoryIs_def Linked_def set_NextLink_def set_PrevLink_def Let_def
        NextPath_upd PrevLinked_upd NextPath_upd_Prev PrevLinked_upd_Next)
  next
    case (2 n)
    then show ?thesis
    using assms 
    by (auto simp: AddMessageToChatHistory_def HistoryIs_def Linked_def set_NextLink_def set_PrevLink_def Let_def
        NextPath_upd PrevLinked_upd NextPath_upd_Prev PrevLinked_upd_Next NextPath_snoc PrevLinked_append)
  next
    case (3 n ws l)
    then show ?thesis
    using assms 
    by (auto simp: AddMessageToChatHistory_def HistoryIs_def Linked_def set_NextLink_def set_PrevLink_def Let_def
        NextPath_upd PrevLinked_upd NextPath_upd_Prev PrevLinked_upd_Next NextPath_snoc NextPath_append2 PrevLinked_append)
qed


lemma set_NextLink_Unlinked:
  "Unlinked (Heap (set_NextLink a v s) b) = Unlinked (Heap s b)"
  by (simp add: set_NextLink_def Unlinked_def)

lemma set_PrevLink_Unlinked:
  "Unlinked (Heap (set_PrevLink a v s) b) = Unlinked (Heap s b)"
  by (simp add: set_PrevLink_def Unlinked_def)

lemma set_NextLink_sel:
  "HeapNext (set_NextLink a v s) = HeapNext s"
  "ChatHistoryNewest (set_NextLink a v s) = ChatHistoryNewest s"
  "ChatHistoryOldest (set_NextLink a v s) = ChatHistoryOldest s"
  "ChatHistoryNum (set_NextLink a v s) = ChatHistoryNum s"
  "ChatHistoryMax (set_NextLink a v s) = ChatHistoryMax s"
  "CachedUsers (set_NextLink a v s) = CachedUsers s"
  "ReplyHandlers (set_NextLink a v s) = ReplyHandlers s"
  "CorrelationId (set_NextLink a v s) = CorrelationId s"
  "bIsReady (set_NextLink a v s) = bIsReady s"
  "WebSocket (set_NextLink a v s) = WebSocket s"
  "ChatInterface (set_NextLink a v s) = ChatInterface s"
  "LogMixerChat (set_NextLink a v s) = LogMixerChat s"
  by (simp_all add: set_NextLink_def)

lemma set_PrevLink_sel:
  "HeapNext (set_PrevLink a v s) = HeapNext s"
  "ChatHistoryNewest (set_PrevLink a v s) = ChatHistoryNewest s"
  "ChatHistoryOldest (set_PrevLink a v s) = ChatHistoryOldest s"
  "ChatHistoryNum (set_PrevLink a v s) = ChatHistoryNum s"
  "ChatHistoryMax (set_PrevLink a v s) = ChatHistoryMax s"
  "CachedUsers (set_PrevLink a v s) = CachedUsers s"
  "ReplyHandlers (set_PrevLink a v s) = ReplyHandlers s"
  "CorrelationId (set_PrevLink a v s) = CorrelationId s"
  "bIsReady (set_PrevLink a v s) = bIsReady s"
  "WebSocket (set_PrevLink a v s) = WebSocket s"
  "ChatInterface (set_PrevLink a v s) = ChatInterface s"
  "LogMixerChat (set_PrevLink a v s) = LogMixerChat s"
  by (simp_all add: set_PrevLink_def)

lemma AddMessage_frame_aux:
  "case AddMessageToChatHistory m s of Inl e \<Rightarrow> True
   | Inr s' \<Rightarrow> SameButHistory s s'"
  by (simp add: AddMessageToChatHistory_def SameButHistory_def set_NextLink_sel
      set_PrevLink_sel Let_def split: option.split)

lemma AddMessage_frame_aux2:
  "case AddMessageToChatHistory m s of Inl e \<Rightarrow> True
   | Inr s' \<Rightarrow> Unlinked (Heap s' b) = Unlinked (Heap s b)"
  by (simp add: AddMessageToChatHistory_def set_NextLink_Unlinked set_PrevLink_Unlinked
      set_NextLink_sel set_PrevLink_sel Let_def split: option.split)

lemma AddMessage_frame:
  "AddMessageToChatHistory m s = Inr s' \<Longrightarrow>
   SameButHistory s s' \<and> (\<forall>b. Unlinked (Heap s' b) = Unlinked (Heap s b))"
  using AddMessage_frame_aux[where m=m and s=s] AddMessage_frame_aux2[where m=m and s=s] by simp

lemma AddMessage_noop:
  "\<not> (0 < ChatHistoryMax s \<and> \<not> bIsWhisper (Heap s m)) \<Longrightarrow> AddMessageToChatHistory m s = Inr s"
  by (auto simp: AddMessageToChatHistory_def)

lemma AddMessage_HistoryIs:
  assumes "HistoryIs s xs" "int (length xs) \<le> ChatHistoryMax s" "0 < ChatHistoryMax s"
    "\<not> bIsWhisper (Heap s m)" "PrevLink (Heap s m) = None" "m < HeapNext s" "m \<notin> set xs"
  shows "\<exists>s'. AddMessageToChatHistory m s = Inr s' \<and>
           HistoryIs s' (take (nat (ChatHistoryMax s)) (m # xs)) \<and>
           (\<forall>b. b \<notin> set (m # xs) \<longrightarrow> Heap s' b = Heap s b)"
proof (cases "xs = []")
  case True
  then show ?thesis
    using assms
    by (auto simp: AddMessageToChatHistory_def HistoryIs_def Linked_def set_NextLink_def
        set_PrevLink_def Let_def)
next
  case False
  show ?thesis
  proof (cases "int (length xs) = ChatHistoryMax s")
    case True
    obtain ys old where xs: "xs = ys @ [old]"
      using False by (cases xs rule: rev_cases) auto
    have tk: "take (nat (ChatHistoryMax s)) (m # xs) = m # ys"
      using True xs by (simp add: take_Cons' nat_diff_distrib')
    have "\<exists>s'. AddMessageToChatHistory m s = Inr s' \<and> HistoryIs s' (m # ys)
           \<and> (\<forall>b. b \<notin> set (m # ys @ [old]) \<longrightarrow> Heap s' b = Heap s b)"
      by (rule AddMessage_evict) (use assms True xs in simp_all)
    then show ?thesis
      using tk xs by simp
  next
    case F2: False
    then have lt: "int (length xs) < ChatHistoryMax s" using assms(2) by simp
    then have tk: "take (nat (ChatHistoryMax s)) (m # xs) = m # xs" by simp
    obtain n ys where xs: "xs = n # ys" using False by (cases xs) auto
    show ?thesis
      unfolding tk using assms lt unfolding xs
      by (auto simp: AddMessageToChatHistory_def HistoryIs_def Linked_def set_NextLink_def
          set_PrevLink_def Let_def NextPath_upd PrevLinked_upd NextPath_upd_Prev PrevLinked_upd_Next)
  qed
qed

lemma DeleteNode_head:
  assumes "HistoryIs s (m # rest)"
  shows "HistoryIs (DeleteNode m s) rest \<and> SameButHistory s (DeleteNode m s) \<and>
         ChatHistoryNewest (DeleteNode m s) = NextLink (Heap s m) \<and>
         Heap (DeleteNode m s) m = Unlinked (FlagAsDeleted (Heap s m)) \<and>
         (\<forall>b. b \<noteq> m \<longrightarrow> Heap (DeleteNode m s) b =
              (if Some b = NextLink (Heap s m) then (Heap s b)\<lparr>PrevLink := None\<rparr> else Heap s b))"
proof (cases rest)
  case Nil
  then show ?thesis
    using assms
    by (auto simp: DeleteNode_def HistoryIs_def Linked_def set_NextLink_def SameButHistory_def
        set_PrevLink_def Let_def FlagAsDeleted_def Unlinked_def)
next
  case (Cons n ys)
  then show ?thesis
    using assms
    by (auto simp: DeleteNode_def HistoryIs_def Linked_def set_NextLink_def SameButHistory_def
        set_PrevLink_def Let_def FlagAsDeleted_def Unlinked_def
        NextPath_upd PrevLinked_upd NextPath_upd_Prev PrevLinked_upd_Next)
qed


lemma Unlinked_PrevLink_None: "Unlinked (m\<lparr>PrevLink := v\<rparr>) = Unlinked m"
  by (simp add: Unlinked_def)

lemma DeleteLoop_all:
  assumes P: "\<And>p a m. fst (P p a m)"
  shows "HistoryIs s xs \<Longrightarrow>
    \<exists>s'. DeleteLoop P p (ChatHistoryNewest s) s =
            Some (foldl (\<lambda>p a. snd (P p a ((Heap s a)\<lparr>PrevLink := None\<rparr>))) p xs, s') \<and>
         HistoryIs s' [] \<and> SameButHistory s s' \<and>
         (\<forall>a\<in>set xs. Heap s' a = Unlinked (FlagAsDeleted (Heap s a))) \<and>
         (\<forall>b. b \<notin> set xs \<longrightarrow> Heap s' b = Heap s b)"
proof (induction xs arbitrary: s p)
  case Nil
  then have "ChatHistoryNewest s = None" by (simp add: HistoryIs_def Linked_def)
  then show ?case using Nil by (simp add: DeleteLoop.simps SameButHistory_def)
next
  case (Cons m rest)
  let ?s1 = "DeleteNode m s"
  let ?p1 = "snd (P p m (Heap s m))"
  have new: "ChatHistoryNewest s = Some m" and prev: "PrevLink (Heap s m) = None"
    and dist: "m \<notin> set rest"
    using Cons.prems by (auto simp: HistoryIs_def Linked_def)
  have hd: "HistoryIs ?s1 rest" "SameButHistory s ?s1"
    "Heap ?s1 m = Unlinked (FlagAsDeleted (Heap s m))"
    "\<And>b. b \<noteq> m \<Longrightarrow> Heap ?s1 b =
       (if Some b = NextLink (Heap s m) then (Heap s b)\<lparr>PrevLink := None\<rparr> else Heap s b)"
    using DeleteNode_head[OF Cons.prems] by auto
  have nw: "ChatHistoryNewest ?s1 = NextLink (Heap s m)"
    using DeleteNode_head[OF Cons.prems] by simp
  obtain s' where s':
    "DeleteLoop P ?p1 (ChatHistoryNewest ?s1) ?s1 =
       Some (foldl (\<lambda>p a. snd (P p a ((Heap ?s1 a)\<lparr>PrevLink := None\<rparr>))) ?p1 rest, s')"
    "HistoryIs s' []" "SameButHistory ?s1 s'"
    "\<forall>a\<in>set rest. Heap s' a = Unlinked (FlagAsDeleted (Heap ?s1 a))"
    "\<forall>b. b \<notin> set rest \<longrightarrow> Heap s' b = Heap ?s1 b"
    using Cons.IH[OF hd(1), of ?p1] by blast
  have step: "DeleteLoop P p (ChatHistoryNewest s) s = DeleteLoop P ?p1 (ChatHistoryNewest ?s1) ?s1"
    using P[of p m "Heap s m"]
    by (subst DeleteLoop.simps, cases "P p m (Heap s m)") (simp add: new nw Let_def)
  have same: "(Heap ?s1 a)\<lparr>PrevLink := None\<rparr> = (Heap s a)\<lparr>PrevLink := None\<rparr>"
    if "a \<in> set rest" for a
  proof -
    have "a \<noteq> m" using that dist by auto
    then show ?thesis using hd(4)[of a] by simp
  qed
  have fold_eq: "foldl (\<lambda>p a. snd (P p a ((Heap ?s1 a)\<lparr>PrevLink := None\<rparr>))) ?p1 rest =
        foldl (\<lambda>p a. snd (P p a ((Heap s a)\<lparr>PrevLink := None\<rparr>))) p (m # rest)"
  proof -
    have "(Heap s m)\<lparr>PrevLink := None\<rparr> = Heap s m"
      by (simp add: prev[symmetric])
    then show ?thesis using same by (simp cong: foldl_cong)
  qed
  have tomb: "Unlinked (FlagAsDeleted (Heap ?s1 a)) = Unlinked (FlagAsDeleted (Heap s a))"
    if "a \<in> set rest" for a
  proof -
    have "a \<noteq> m" using that dist by auto
    then show ?thesis using hd(4)[of a] by (simp add: Unlinked_def FlagAsDeleted_def)
  qed
  show ?case
  proof (intro exI[of _ s'] conjI)
    show "DeleteLoop P p (ChatHistoryNewest s) s =
      Some (foldl (\<lambda>p a. snd (P p a ((Heap s a)\<lparr>PrevLink := None\<rparr>))) p (m # rest), s')"
      using step s'(1) fold_eq by simp
    show "HistoryIs s' []" by (rule s'(2))
    show "SameButHistory s s'" using hd(2) s'(3) by (simp add: SameButHistory_def)
    show "\<forall>a\<in>set (m # rest). Heap s' a = Unlinked (FlagAsDeleted (Heap s a))"
      using s'(4,5) hd(3) tomb dist by auto
    show "\<forall>b. b \<notin> set (m # rest) \<longrightarrow> Heap s' b = Heap s b"
    proof (intro allI impI)
      fix b assume b: "b \<notin> set (m # rest)"
      have "Some b \<noteq> NextLink (Heap s m)"
        using Cons.prems b by (cases rest) (auto simp: HistoryIs_def Linked_def)
      then show "Heap s' b = Heap s b" using s'(5) hd(4)[of b] b by simp
    qed
  qed
qed

lemma HistoryIs_heap_cong:
  assumes "HistoryIs s xs" "\<And>a. a \<in> set xs \<Longrightarrow> Heap s' a = Heap s a"
    "ChatHistoryNewest s' = ChatHistoryNewest s" "ChatHistoryOldest s' = ChatHistoryOldest s"
    "ChatHistoryNum s' = ChatHistoryNum s" "HeapNext s \<le> HeapNext s'"
  shows "HistoryIs s' xs"
proof -
  have "NextPath (Heap s') p xs q = NextPath (Heap s) p xs q" for p q
    by (rule NextPath_cong) (simp add: assms(2))
  moreover have "PrevLinked (Heap s') q xs = PrevLinked (Heap s) q xs" for q
    by (rule PrevLinked_cong) (simp add: assms(2))
  ultimately show ?thesis
    using assms(1,3-6) by (auto simp: HistoryIs_def Linked_def list_all_iff)
qed

lemma MakeShared_HistoryIs:
  assumes "HistoryIs s xs"
  shows "HistoryIs (snd (MakeShared msg s)) xs" "fst (MakeShared msg s) \<notin> set xs"
proof -
  have lt: "\<And>a. a \<in> set xs \<Longrightarrow> a < HeapNext s"
    using assms by (simp add: HistoryIs_def list_all_iff)
  then show "fst (MakeShared msg s) \<notin> set xs" by (auto simp: MakeShared_def)
  show "HistoryIs (snd (MakeShared msg s)) xs"
    by (rule HistoryIs_heap_cong[OF assms]) (use lt in \<open>auto simp: MakeShared_def\<close>)
qed

lemma take_append_take: "take n (xs @ take n ys) = take n (xs @ ys)"
  by (induction xs arbitrary: n) (auto simp: take_Cons')

lemma PushNew_HistoryIs:
  assumes "HistoryIs s xs" "int (length xs) \<le> max 0 (ChatHistoryMax s)"
    "NextLink msg = None" "PrevLink msg = None"
  shows "\<exists>s' zs. PushNew msg s = Inr s' \<and> HistoryIs s' zs \<and>
           ChatHistoryMax s' = ChatHistoryMax s \<and>
           map (\<lambda>a. Unlinked (Heap s' a)) zs =
             take (nat (ChatHistoryMax s))
               ((if bIsWhisper msg then [] else [msg]) @ map (\<lambda>a. Unlinked (Heap s a)) xs)"
proof -
  let ?a = "HeapNext s"
  let ?s1 = "s\<lparr>Heap := (Heap s)(HeapNext s := msg), HeapNext := HeapNext s + 1\<rparr>"
  have mk: "MakeShared msg s = (?a, ?s1)" by (simp add: MakeShared_def)
  have h1: "HistoryIs ?s1 xs" and fresh: "?a \<notin> set xs"
    using MakeShared_HistoryIs[OF assms(1), of msg] by (simp_all add: mk)
  have heap1: "Heap ?s1 ?a = msg" "\<And>b. b \<noteq> ?a \<Longrightarrow> Heap ?s1 b = Heap s b"
    and max1: "ChatHistoryMax ?s1 = ChatHistoryMax s" and next1: "?a < HeapNext ?s1"
    by simp_all
  have old: "map (\<lambda>a. Unlinked (Heap ?s1 a)) xs = map (\<lambda>a. Unlinked (Heap s a)) xs"
  proof (rule map_cong[OF refl])
    fix x assume "x \<in> set xs"
    then have "x \<noteq> ?a" using fresh by auto
    then show "Unlinked (Heap ?s1 x) = Unlinked (Heap s x)" using heap1(2) by simp
  qed
  have len: "length xs \<le> nat (ChatHistoryMax s)" using assms(2) by linarith
  show ?thesis
  proof (cases "0 < ChatHistoryMax s \<and> \<not> bIsWhisper msg")
    case False
    then have "PushNew msg s = Inr ?s1"
      by (simp add: PushNew_def mk) (rule AddMessage_noop, auto simp: heap1 max1)
    moreover have "take (nat (ChatHistoryMax s))
               ((if bIsWhisper msg then [] else [msg]) @ map (\<lambda>a. Unlinked (Heap s a)) xs)
           = map (\<lambda>a. Unlinked (Heap s a)) xs"
      using False len by auto
    ultimately show ?thesis using h1 max1 old by auto
  next
    case True
    then have le: "int (length xs) \<le> ChatHistoryMax ?s1" using assms(2) max1 by simp
    obtain s' where s': "AddMessageToChatHistory ?a ?s1 = Inr s'"
      "HistoryIs s' (take (nat (ChatHistoryMax ?s1)) (?a # xs))"
      using AddMessage_HistoryIs[OF h1 le, of ?a] True fresh assms(4) heap1(1) max1 next1
      by auto
    have fr: "SameButHistory ?s1 s'" "\<And>b. Unlinked (Heap s' b) = Unlinked (Heap ?s1 b)"
      using AddMessage_frame[OF s'(1)] by auto
    have um: "Unlinked msg = msg"
      using assms(3,4) by (simp add: Unlinked_def)
    have "map (\<lambda>a. Unlinked (Heap s' a)) (?a # xs) = msg # map (\<lambda>a. Unlinked (Heap s a)) xs"
      unfolding fr(2) old[symmetric] using um by simp
    then have "map (\<lambda>a. Unlinked (Heap s' a)) (take (nat (ChatHistoryMax s)) (?a # xs)) =
          take (nat (ChatHistoryMax s)) (msg # map (\<lambda>a. Unlinked (Heap s a)) xs)"
      by (metis take_map)
    then show ?thesis
      using s' fr(1) True max1 by (auto simp: PushNew_def mk SameButHistory_def)
  qed
qed

lemma PushAll_HistoryIs:
  assumes "list_all (\<lambda>m. NextLink m = None \<and> PrevLink m = None) msgs"
  shows "HistoryIs s xs \<Longrightarrow> int (length xs) \<le> max 0 (ChatHistoryMax s) \<Longrightarrow>
         \<exists>s' zs. PushAll msgs s = Inr s' \<and> HistoryIs s' zs \<and>
           ChatHistoryMax s' = ChatHistoryMax s \<and>
           map (\<lambda>a. Unlinked (Heap s' a)) zs =
             take (nat (ChatHistoryMax s))
               (rev (filter (\<lambda>m. \<not> bIsWhisper m) msgs) @ map (\<lambda>a. Unlinked (Heap s a)) xs)"
  using assms
proof (induction msgs arbitrary: s xs)
  case Nil
  then have "length xs \<le> nat (ChatHistoryMax s)" by linarith
  then show ?case using Nil by auto
next
  case (Cons msg msgs)
  obtain s1 zs where s1: "PushNew msg s = Inr s1" "HistoryIs s1 zs"
    "ChatHistoryMax s1 = ChatHistoryMax s"
    "map (\<lambda>a. Unlinked (Heap s1 a)) zs =
             take (nat (ChatHistoryMax s))
               ((if bIsWhisper msg then [] else [msg]) @ map (\<lambda>a. Unlinked (Heap s a)) xs)"
    using PushNew_HistoryIs[OF Cons.prems(1,2), of msg] Cons.prems(3) by auto
  have "length (map (\<lambda>a. Unlinked (Heap s1 a)) zs) \<le> nat (ChatHistoryMax s)"
    unfolding s1(4) by (rule order_trans[OF eq_refl[OF length_take]]) simp
  then have "length zs \<le> nat (ChatHistoryMax s)" by simp
  then have len: "int (length zs) \<le> max 0 (ChatHistoryMax s1)" using s1(3) by linarith
  obtain s' ws where s': "PushAll msgs s1 = Inr s'" "HistoryIs s' ws"
    "ChatHistoryMax s' = ChatHistoryMax s1"
    "map (\<lambda>a. Unlinked (Heap s' a)) ws =
             take (nat (ChatHistoryMax s1))
               (rev (filter (\<lambda>m. \<not> bIsWhisper m) msgs) @ map (\<lambda>a. Unlinked (Heap s1 a)) zs)"
    using Cons.IH[OF s1(2) len] Cons.prems(3) by auto
  have "map (\<lambda>a. Unlinked (Heap s' a)) ws =
        take (nat (ChatHistoryMax s))
               (rev (filter (\<lambda>m. \<not> bIsWhisper m) (msg # msgs)) @ map (\<lambda>a. Unlinked (Heap s a)) xs)"
    unfolding s'(4) s1(4) s1(3) by (subst take_append_take) simp
  then show ?case using s1(1,3) s'(1,2,3) by auto
qed

section \<open>Lemmas about decoding and the loop over a reply\<close>

lemma BuildsMessage_refl: "BuildsMessage a s s"
  by (simp add: BuildsMessage_def SameCache_def SameRouter_def)

lemma BuildsMessage_trans:
  "BuildsMessage a s t \<Longrightarrow> BuildsMessage a t u \<Longrightarrow> BuildsMessage a s u"
  by (simp add: BuildsMessage_def SameCache_def SameRouter_def)

lemma UE_LOG_sel:
  "Heap (UE_LOG l s) = Heap s"
  "HeapNext (UE_LOG l s) = HeapNext s"
  "ChatHistoryNewest (UE_LOG l s) = ChatHistoryNewest s"
  "ChatHistoryOldest (UE_LOG l s) = ChatHistoryOldest s"
  "ChatHistoryNum (UE_LOG l s) = ChatHistoryNum s"
  "ChatHistoryMax (UE_LOG l s) = ChatHistoryMax s"
  "CachedUsers (UE_LOG l s) = CachedUsers s"
  "ReplyHandlers (UE_LOG l s) = ReplyHandlers s"
  "CorrelationId (UE_LOG l s) = CorrelationId s"
  "bIsReady (UE_LOG l s) = bIsReady s"
  "WebSocket (UE_LOG l s) = WebSocket s"
  "ChatInterface (UE_LOG l s) = ChatInterface s"
  "LogMixerChat (UE_LOG l s) = LogMixerChat s @ [l]"
  by (simp_all add: UE_LOG_def)

lemma Notify_sel:
  "Heap (Notify n s) = Heap s"
  "HeapNext (Notify n s) = HeapNext s"
  "ChatHistoryNewest (Notify n s) = ChatHistoryNewest s"
  "ChatHistoryOldest (Notify n s) = ChatHistoryOldest s"
  "ChatHistoryNum (Notify n s) = ChatHistoryNum s"
  "ChatHistoryMax (Notify n s) = ChatHistoryMax s"
  "CachedUsers (Notify n s) = CachedUsers s"
  "ReplyHandlers (Notify n s) = ReplyHandlers s"
  "CorrelationId (Notify n s) = CorrelationId s"
  "bIsReady (Notify n s) = bIsReady s"
  "WebSocket (Notify n s) = WebSocket s"
  "ChatInterface (Notify n s) = ChatInterface s @ [n]"
  "LogMixerChat (Notify n s) = LogMixerChat s"
  by (simp_all add: Notify_def)

lemma ArrayEntry_BuildsMessage:
  "BuildsMessage a s (snd (HandleChatMessageEventMessageArrayEntry JsonObj a s))"
  by (simp add: HandleChatMessageEventMessageArrayEntry_def BuildsMessage_def SameCache_def
      SameRouter_def UE_LOG_sel AppendBodyFragment_def split: option.split)

lemma fold_BuildsMessage:
  "BuildsMessage a s
     (fold (\<lambda>Fragment t.
              case TryGetObject Fragment of
                Some FragmentObj \<Rightarrow> snd (HandleChatMessageEventMessageArrayEntry FragmentObj a t)
              | None \<Rightarrow> t) frags s)"
proof (induction frags arbitrary: s)
  case Nil
  show ?case by (simp add: BuildsMessage_refl)
next
  case (Cons f frags)
  have "BuildsMessage a s (case TryGetObject f of
                Some FragmentObj \<Rightarrow> snd (HandleChatMessageEventMessageArrayEntry FragmentObj a s)
              | None \<Rightarrow> s)"
    by (simp add: ArrayEntry_BuildsMessage BuildsMessage_refl split: option.split)
  then show ?case
    using Cons.IH BuildsMessage_trans by fastforce
qed

lemma ArrayEntry_whisper:
  "bIsWhisper (Heap (snd (HandleChatMessageEventMessageArrayEntry JsonObj a s)) c) =
   bIsWhisper (Heap s c)"
  by (simp add: HandleChatMessageEventMessageArrayEntry_def UE_LOG_sel AppendBodyFragment_def
      split: option.split)

lemma fold_whisper:
  "bIsWhisper (Heap (fold (\<lambda>Fragment t.
              case TryGetObject Fragment of
                Some FragmentObj \<Rightarrow> snd (HandleChatMessageEventMessageArrayEntry FragmentObj a t)
              | None \<Rightarrow> t) frags s) c) = bIsWhisper (Heap s c)"
proof (induction frags arbitrary: s)
  case Nil
  show ?case by simp
next
  case (Cons f frags)
  show ?case
    by (simp add: Cons.IH ArrayEntry_whisper split: option.split)
qed

lemma MessageObject_result:
  assumes "HandleChatMessageEventMessageObject JsonObj a s = (b, s')"
  shows "b = (TryGetArrayField JsonObj ''message'' \<noteq> None)" "BuildsMessage a s s'"
    "b \<Longrightarrow> bIsWhisper (Heap s' a) =
       (bIsWhisper (Heap s a) \<or>
        TryGetObjectField JsonObj ''meta'' \<noteq> None \<and> TryGetBoolField JsonObj ''whisper'' = Some True)"
proof -
  let ?f = "fold (\<lambda>Fragment t.
              case TryGetObject Fragment of
                Some FragmentObj \<Rightarrow> snd (HandleChatMessageEventMessageArrayEntry FragmentObj a t)
              | None \<Rightarrow> t)"
  let ?W = "TryGetObjectField JsonObj ''meta'' \<noteq> None \<and> TryGetBoolField JsonObj ''whisper'' = Some True"
  let ?A = "TryGetObjectField JsonObj ''meta'' \<noteq> None \<and> TryGetBoolField JsonObj ''me'' = Some True"
  show b: "b = (TryGetArrayField JsonObj ''message'' \<noteq> None)"
    using assms by (auto simp: HandleChatMessageEventMessageObject_def Let_def split: option.splits)
  have none: "BuildsMessage a s s'" if "TryGetArrayField JsonObj ''message'' = None"
    using assms that
    by (auto simp: HandleChatMessageEventMessageObject_def BuildsMessage_def SameCache_def
        SameRouter_def UE_LOG_sel)
  have some: "BuildsMessage a s s' \<and> bIsWhisper (Heap s' a) = (bIsWhisper (Heap s a) \<or> ?W)"
    if fr: "TryGetArrayField JsonObj ''message'' = Some frags" for frags
  proof -
    define t where "t = ?f frags s"
    have f: "BuildsMessage a s t" unfolding t_def by (rule fold_BuildsMessage)
    have wt: "bIsWhisper (Heap t a) = bIsWhisper (Heap s a)"
      unfolding t_def by (rule fold_whisper)

    define s2 where "s2 = (if ?W then t\<lparr>Heap := (Heap t)(a := FlagAsWhisper (Heap t a))\<rparr> else t)"
    have "snd (HandleChatMessageEventMessageObject JsonObj a s) =
            (if ?A then s2\<lparr>Heap := (Heap s2)(a := FlagAsAction (Heap s2 a))\<rparr> else s2)"
      unfolding HandleChatMessageEventMessageObject_def Let_def t_def s2_def fr by simp
    then have s': "s' = (if ?A then s2\<lparr>Heap := (Heap s2)(a := FlagAsAction (Heap s2 a))\<rparr> else s2)"
      by (simp add: assms)
    have 1: "BuildsMessage a t s2 \<and> bIsWhisper (Heap s2 a) = (bIsWhisper (Heap t a) \<or> ?W)"
      unfolding s2_def
      by (simp add: BuildsMessage_def SameCache_def SameRouter_def FlagAsWhisper_def)
    have 2: "BuildsMessage a s2 s' \<and> bIsWhisper (Heap s' a) = bIsWhisper (Heap s2 a)"
      unfolding s'
      by (simp add: BuildsMessage_def SameCache_def SameRouter_def FlagAsAction_def)
    have "BuildsMessage a s s2" using f 1 by (blast intro: BuildsMessage_trans)
    then have "BuildsMessage a s s'" using 2 by (blast intro: BuildsMessage_trans)
    then show ?thesis using 1 2 wt by simp
  qed
  show "BuildsMessage a s s'"
    using none some by (cases "TryGetArrayField JsonObj ''message''") auto
  show "bIsWhisper (Heap s' a) = (bIsWhisper (Heap s a) \<or> ?W)" if b
    using that b some by auto
qed


lemma HCMEI_fail:
  assumes "TryGetStringField JsonObj ''user_name'' = None \<or> TryGetNumberField JsonObj ''user_id'' = None \<or>
     TryGetObjectField JsonObj ''message'' = None \<or> TryGetStringField JsonObj ''id'' = None \<or>
     (\<exists>i. TryGetStringField JsonObj ''id'' = Some i \<and> Parse i = None)"
  shows "\<exists>l. HandleChatMessageEventInternal Parse JsonObj s = (False, None, UE_LOG l s)"
  using assms
  by (auto simp: HandleChatMessageEventInternal_def split: option.split)

lemma HCMEI_decoded:
  assumes "TryGetStringField JsonObj ''user_name'' = Some FromUserName"
    "TryGetNumberField JsonObj ''user_id'' = Some FromUserIdRaw"
    "TryGetObjectField JsonObj ''message'' = Some MessageJson"
    "TryGetStringField JsonObj ''id'' = Some IdString"
    "Parse IdString = Some MsgId"
  shows "\<exists>s2 u. Heap s2 = Heap s \<and> HeapNext s2 = HeapNext s \<and> SameCache s s2 \<and> SameRouter s s2 \<and>
           u = (case TryGetNumberField JsonObj ''user_level'' of
                  Some l \<Rightarrow>
                    (case CachedUsers s FromUserIdRaw of
                       None \<Rightarrow> FMixerChatUser_new FromUserName FromUserIdRaw
                     | Some c \<Rightarrow> c)\<lparr>Level := l\<rparr>
                | None \<Rightarrow>
                    (case CachedUsers s FromUserIdRaw of
                       None \<Rightarrow> FMixerChatUser_new FromUserName FromUserIdRaw
                     | Some c \<Rightarrow> c)) \<and>
           CachedUsers s2 = (CachedUsers s)(FromUserIdRaw \<mapsto> u) \<and>
           ChatInterface s2 = ChatInterface s @
             (if CachedUsers s FromUserIdRaw = None then [ChatRoomMemberJoin u] else []) \<and>
           (\<exists>ls. LogMixerChat s2 = LogMixerChat s @ ls) \<and>
           HandleChatMessageEventInternal Parse JsonObj s =
             (fst (HandleChatMessageEventMessageObject MessageJson (HeapNext s)
                (s2\<lparr>Heap := (Heap s2)(HeapNext s := FChatMessageMixerImpl_new MsgId u),
                    HeapNext := HeapNext s + 1\<rparr>)),
              Some (HeapNext s),
              snd (HandleChatMessageEventMessageObject MessageJson (HeapNext s)
                (s2\<lparr>Heap := (Heap s2)(HeapNext s := FChatMessageMixerImpl_new MsgId u),
                    HeapNext := HeapNext s + 1\<rparr>)))"
proof -
  define u0 where "u0 = (case CachedUsers s FromUserIdRaw of
                       None \<Rightarrow> FMixerChatUser_new FromUserName FromUserIdRaw
                     | Some u \<Rightarrow> u)"
  define s1 where "s1 = (case TryGetNumberField JsonObj ''user_level'' of
                       Some l \<Rightarrow> s\<lparr>CachedUsers := (CachedUsers s)(FromUserIdRaw \<mapsto> u0\<lparr>Level := l\<rparr>)\<rparr>
                     | None \<Rightarrow>
                         UE_LOG MissingUserLevel
                           (s\<lparr>CachedUsers := (CachedUsers s)(FromUserIdRaw \<mapsto> u0)\<rparr>))"
  define u where "u = (case TryGetNumberField JsonObj ''user_level'' of
                                   Some l \<Rightarrow> u0\<lparr>Level := l\<rparr> | None \<Rightarrow> u0)"
  define s2 where "s2 = (if CachedUsers s FromUserIdRaw = None
                     then Notify (ChatRoomMemberJoin u) (UE_LOG (IsJoining (Name u)) s1)
                     else s1)"
  have 1: "Heap s1 = Heap s \<and> HeapNext s1 = HeapNext s \<and> SameCache s s1 \<and> SameRouter s s1"
    unfolding s1_def by (simp add: SameCache_def SameRouter_def UE_LOG_sel split: option.split)
  have 2: "Heap s2 = Heap s \<and> HeapNext s2 = HeapNext s \<and> SameCache s s2 \<and> SameRouter s s2"
    unfolding s2_def using 1 by (simp add: SameCache_def SameRouter_def UE_LOG_sel Notify_sel)
  have 3: "CachedUsers s1 = (CachedUsers s)(FromUserIdRaw \<mapsto> u) \<and> ChatInterface s1 = ChatInterface s"
    unfolding s1_def u_def by (simp add: UE_LOG_sel split: option.split)
  have 4: "CachedUsers s2 = (CachedUsers s)(FromUserIdRaw \<mapsto> u) \<and>
           ChatInterface s2 = ChatInterface s @
             (if CachedUsers s FromUserIdRaw = None then [ChatRoomMemberJoin u] else [])"
    unfolding s2_def using 3 by (simp add: UE_LOG_sel Notify_sel)
  have 5: "\<exists>ls. LogMixerChat s1 = LogMixerChat s @ ls"
    unfolding s1_def by (simp add: UE_LOG_sel split: option.split)
  have 6: "\<exists>ls. LogMixerChat s2 = LogMixerChat s @ ls"
    unfolding s2_def using 5 by (auto simp: UE_LOG_sel Notify_sel)
  have "HandleChatMessageEventInternal Parse JsonObj s =
             (fst (HandleChatMessageEventMessageObject MessageJson (HeapNext s)
                (s2\<lparr>Heap := (Heap s2)(HeapNext s := FChatMessageMixerImpl_new MsgId u),
                    HeapNext := HeapNext s + 1\<rparr>)),
              Some (HeapNext s),
              snd (HandleChatMessageEventMessageObject MessageJson (HeapNext s)
                (s2\<lparr>Heap := (Heap s2)(HeapNext s := FChatMessageMixerImpl_new MsgId u),
                    HeapNext := HeapNext s + 1\<rparr>)))"
    unfolding HandleChatMessageEventInternal_def assms option.case Let_def
      u0_def[symmetric] s1_def[symmetric] u_def[symmetric] s2_def[symmetric] MakeShared_def
    using 2 by (simp add: case_prod_unfold)
  moreover have "u = (case TryGetNumberField JsonObj ''user_level'' of
                  Some l \<Rightarrow>
                    (case CachedUsers s FromUserIdRaw of
                       None \<Rightarrow> FMixerChatUser_new FromUserName FromUserIdRaw
                     | Some c \<Rightarrow> c)\<lparr>Level := l\<rparr>
                | None \<Rightarrow>
                    (case CachedUsers s FromUserIdRaw of
                       None \<Rightarrow> FMixerChatUser_new FromUserName FromUserIdRaw
                     | Some c \<Rightarrow> c))"
    unfolding u_def u0_def by simp
  ultimately show ?thesis using 2 4 6 by blast
qed

lemma HandleChatMessageEventInternal_result:
  assumes "HandleChatMessageEventInternal Parse JsonObj s = (b, m, s')"
  shows "b = (EntryId Parse JsonObj \<noteq> None)"
    "SameCache s s'" "SameRouter s s'"
    "HeapNext s \<le> HeapNext s'" "HeapNext s' \<le> HeapNext s + 1"
    "\<And>c. c < HeapNext s \<Longrightarrow> Heap s' c = Heap s c"
    "b \<Longrightarrow> m = Some (HeapNext s) \<and> HeapNext s' = HeapNext s + 1 \<and>
       Some (MessageId (Heap s' (HeapNext s))) = EntryId Parse JsonObj \<and>
       bIsWhisper (Heap s' (HeapNext s)) = EntryWhisper JsonObj \<and>
       NextLink (Heap s' (HeapNext s)) = None \<and> PrevLink (Heap s' (HeapNext s)) = None"
proof -
  let ?fail = "TryGetStringField JsonObj ''user_name'' = None \<or> TryGetNumberField JsonObj ''user_id'' = None \<or>
     TryGetObjectField JsonObj ''message'' = None \<or> TryGetStringField JsonObj ''id'' = None \<or>
     (\<exists>i. TryGetStringField JsonObj ''id'' = Some i \<and> Parse i = None)"
  have all: "b = (EntryId Parse JsonObj \<noteq> None) \<and> SameCache s s' \<and> SameRouter s s' \<and>
    HeapNext s \<le> HeapNext s' \<and> HeapNext s' \<le> HeapNext s + 1 \<and>
    (\<forall>c. c < HeapNext s \<longrightarrow> Heap s' c = Heap s c) \<and>
    (b \<longrightarrow> m = Some (HeapNext s) \<and> HeapNext s' = HeapNext s + 1 \<and>
       Some (MessageId (Heap s' (HeapNext s))) = EntryId Parse JsonObj \<and>
       bIsWhisper (Heap s' (HeapNext s)) = EntryWhisper JsonObj \<and>
       NextLink (Heap s' (HeapNext s)) = None \<and> PrevLink (Heap s' (HeapNext s)) = None)"
  proof (cases ?fail)
    case True
    then have "EntryId Parse JsonObj = None"
      by (auto simp: EntryId_def split: option.split)
    moreover obtain l where "HandleChatMessageEventInternal Parse JsonObj s = (False, None, UE_LOG l s)"
      using HCMEI_fail[OF True] by blast
    ultimately show ?thesis
      using assms by (auto simp: SameCache_def SameRouter_def UE_LOG_sel)
  next
    case False
    then obtain FromUserName FromUserIdRaw MessageJson IdString MsgId where d:
      "TryGetStringField JsonObj ''user_name'' = Some FromUserName"
      "TryGetNumberField JsonObj ''user_id'' = Some FromUserIdRaw"
      "TryGetObjectField JsonObj ''message'' = Some MessageJson"
      "TryGetStringField JsonObj ''id'' = Some IdString"
      "Parse IdString = Some MsgId"
      by auto
    obtain s2 u where s2: "Heap s2 = Heap s" "HeapNext s2 = HeapNext s" "SameCache s s2" "SameRouter s s2"
      and eq: "HandleChatMessageEventInternal Parse JsonObj s =
             (fst (HandleChatMessageEventMessageObject MessageJson (HeapNext s)
                (s2\<lparr>Heap := (Heap s2)(HeapNext s := FChatMessageMixerImpl_new MsgId u),
                    HeapNext := HeapNext s + 1\<rparr>)),
              Some (HeapNext s),
              snd (HandleChatMessageEventMessageObject MessageJson (HeapNext s)
                (s2\<lparr>Heap := (Heap s2)(HeapNext s := FChatMessageMixerImpl_new MsgId u),
                    HeapNext := HeapNext s + 1\<rparr>)))"
      using HCMEI_decoded[where Parse=Parse and s=s and IdString=IdString, OF d] by blast
    define s3 where "s3 = s2\<lparr>Heap := (Heap s2)(HeapNext s := FChatMessageMixerImpl_new MsgId u),
                    HeapNext := HeapNext s + 1\<rparr>"
    have mo: "HandleChatMessageEventMessageObject MessageJson (HeapNext s) s3 = (b, s')" "m = Some (HeapNext s)"
      using eq assms unfolding s3_def by (simp_all add: prod_eq_iff)
    note r = MessageObject_result[OF mo(1)]
    have id: "EntryId Parse JsonObj = (if b then Some MsgId else None)"
      using d r(1) by (simp add: EntryId_def)
    have w: "EntryWhisper JsonObj = (TryGetObjectField MessageJson ''meta'' \<noteq> None \<and>
          TryGetBoolField MessageJson ''whisper'' = Some True)"
      using d by (simp add: EntryWhisper_def)
    have h3: "Heap s3 (HeapNext s) = FChatMessageMixerImpl_new MsgId u"
      "\<And>c. c \<noteq> HeapNext s \<Longrightarrow> Heap s3 c = Heap s c" "HeapNext s3 = HeapNext s + 1"
      "SameCache s s3" "SameRouter s s3"
      using s2 unfolding s3_def by (simp_all add: SameCache_def SameRouter_def)
    show ?thesis
      using r(2) r(3) h3 id w mo(2)
      by (auto simp: BuildsMessage_def SameCache_def SameRouter_def FChatMessageMixerImpl_new_def)
  qed
  show "b = (EntryId Parse JsonObj \<noteq> None)"
    "SameCache s s'" "SameRouter s s'"
    "HeapNext s \<le> HeapNext s'" "HeapNext s' \<le> HeapNext s + 1"
    "\<And>c. c < HeapNext s \<Longrightarrow> Heap s' c = Heap s c"
    "b \<Longrightarrow> m = Some (HeapNext s) \<and> HeapNext s' = HeapNext s + 1 \<and>
       Some (MessageId (Heap s' (HeapNext s))) = EntryId Parse JsonObj \<and>
       bIsWhisper (Heap s' (HeapNext s)) = EntryWhisper JsonObj \<and>
       NextLink (Heap s' (HeapNext s)) = None \<and> PrevLink (Heap s' (HeapNext s)) = None"
    using all by blast+
qed


lemma AddMessage_any_Max:
  assumes "HistoryIs s xs" "int (length xs) \<le> max 0 (ChatHistoryMax s)"
    "\<not> bIsWhisper (Heap s m)" "PrevLink (Heap s m) = None" "m < HeapNext s" "m \<notin> set xs"
  shows "\<exists>s'. AddMessageToChatHistory m s = Inr s' \<and>
           HistoryIs s' (take (nat (ChatHistoryMax s)) (m # xs)) \<and>
           (\<forall>b. b \<notin> set (m # xs) \<longrightarrow> Heap s' b = Heap s b)"
proof (cases "0 < ChatHistoryMax s")
  case True
  then have "int (length xs) \<le> ChatHistoryMax s" using assms(2) by simp
  then show ?thesis
    using AddMessage_HistoryIs[OF assms(1) _ True assms(3-6)] by simp
next
  case False
  then have "xs = []" using assms(2) by simp
  moreover have "AddMessageToChatHistory m s = Inr s"
    by (rule AddMessage_noop) (use False in simp)
  ultimately show ?thesis using assms(1) False by simp
qed

lemma ServerIds_Cons:
  "ServerIds Parse (e # Data) =
     (case EntryId Parse (AsObject e) of None \<Rightarrow> ServerIds Parse Data
      | Some i \<Rightarrow> i # ServerIds Parse Data)"
  by (simp add: ServerIds_def map_filter_simps split: option.split)

lemma HistoryLoop_result:
  "NoWhisperEntry Parse Data \<Longrightarrow> HistoryIs t ys \<Longrightarrow> list_all (\<lambda>a. N0 \<le> a) ys \<Longrightarrow>
   N0 \<le> HeapNext t \<Longrightarrow> int (length ys) \<le> max 0 (ChatHistoryMax t) \<Longrightarrow>
   \<exists>t' ys'. HistoryLoop Parse Data t = Inr t' \<and> HistoryIs t' ys' \<and>
      list_all (\<lambda>a. N0 \<le> a) ys' \<and> HeapNext t \<le> HeapNext t' \<and>
      ChatHistoryMax t' = ChatHistoryMax t \<and> SameRouter t t' \<and>
      (\<forall>c<N0. Heap t' c = Heap t c) \<and>
      map (\<lambda>a. MessageId (Heap t' a)) ys' =
        take (nat (ChatHistoryMax t))
          (rev (ServerIds Parse Data) @ map (\<lambda>a. MessageId (Heap t a)) ys)"
proof (induction Data arbitrary: t ys)
  case Nil
  have "length ys \<le> nat (ChatHistoryMax t)" using Nil.prems(5) by linarith
  then show ?case using Nil.prems
    by (intro exI[of _ t] exI[of _ ys]) (simp add: ServerIds_def map_filter_simps SameRouter_def)
next
  case (Cons e Data)
  obtain b m t1 where h: "HandleChatMessageEventInternal Parse (AsObject e) t = (b, m, t1)"
    by (cases "HandleChatMessageEventInternal Parse (AsObject e) t") auto
  note r = HandleChatMessageEventInternal_result[OF h]
  have nw: "NoWhisperEntry Parse Data" and nw1: "EntryId Parse (AsObject e) = None \<or> \<not> EntryWhisper (AsObject e)"
    using Cons.prems(1) by (simp_all add: NoWhisperEntry_def)
  have lt: "\<And>a. a \<in> set ys \<Longrightarrow> a < HeapNext t"
    using Cons.prems(2) by (simp add: HistoryIs_def list_all_iff)
  have h1: "HistoryIs t1 ys"
    by (rule HistoryIs_heap_cong[OF Cons.prems(2)])
       (use r(2,4,6) lt in \<open>auto simp: SameCache_def\<close>)
  have max1: "ChatHistoryMax t1 = ChatHistoryMax t" using r(2) by (simp add: SameCache_def)
  have ids1: "map (\<lambda>a. MessageId (Heap t1 a)) ys = map (\<lambda>a. MessageId (Heap t a)) ys"
    using r(6) lt by (intro map_cong) auto
  have low1: "\<forall>c<N0. Heap t1 c = Heap t c"
    using r(6) Cons.prems(4) by auto
  show ?case
  proof (cases b)
    case False
    then have none: "EntryId Parse (AsObject e) = None" using r(1) by simp
    have loop: "HistoryLoop Parse (e # Data) t = HistoryLoop Parse Data t1"
      using h False by simp
    obtain t' ys' where t': "HistoryLoop Parse Data t1 = Inr t'" "HistoryIs t' ys'"
      "list_all (\<lambda>a. N0 \<le> a) ys'" "HeapNext t1 \<le> HeapNext t'"
      "ChatHistoryMax t' = ChatHistoryMax t1" "SameRouter t1 t'"
      "\<forall>c<N0. Heap t' c = Heap t1 c"
      "map (\<lambda>a. MessageId (Heap t' a)) ys' =
        take (nat (ChatHistoryMax t1))
          (rev (ServerIds Parse Data) @ map (\<lambda>a. MessageId (Heap t1 a)) ys)"
      using Cons.IH[OF nw h1 Cons.prems(3)] Cons.prems(4,5) r(4) max1 by auto
    show ?thesis
      using loop t' max1 ids1 low1 r(3,4) none
      by (auto simp: ServerIds_Cons SameRouter_def)
  next
    case True
    let ?a = "HeapNext t"
    have m: "m = Some ?a" "HeapNext t1 = ?a + 1" "Some (MessageId (Heap t1 ?a)) = EntryId Parse (AsObject e)"
      "bIsWhisper (Heap t1 ?a) = EntryWhisper (AsObject e)" "PrevLink (Heap t1 ?a) = None"
      using r(7)[OF True] by auto
    have nwh: "\<not> bIsWhisper (Heap t1 ?a)" using nw1 m(3,4) by auto
    have fresh: "?a \<notin> set ys" using lt by auto
    obtain t2 where t2: "AddMessageToChatHistory ?a t1 = Inr t2"
      "HistoryIs t2 (take (nat (ChatHistoryMax t1)) (?a # ys))"
      "\<forall>b. b \<notin> set (?a # ys) \<longrightarrow> Heap t2 b = Heap t1 b"
      using AddMessage_any_Max[OF h1 _ nwh m(5) _ fresh] Cons.prems(5) max1 m(2) by auto
    have fr: "SameButHistory t1 t2" "\<And>b. Unlinked (Heap t2 b) = Unlinked (Heap t1 b)"
      using AddMessage_frame[OF t2(1)] by auto
    have idb: "MessageId (Heap t2 b) = MessageId (Heap t1 b)" for b
      using arg_cong[OF fr(2)[of b], of MessageId] by (simp add: Unlinked_def)
    let ?ys2 = "take (nat (ChatHistoryMax t1)) (?a # ys)"
    have ge2: "list_all (\<lambda>a. N0 \<le> a) ?ys2"
    proof -
      have "set ?ys2 \<subseteq> set (?a # ys)" by (rule set_take_subset)
      then show ?thesis using Cons.prems(3,4) by (auto simp: list_all_iff)
    qed
    have len2: "int (length ?ys2) \<le> max 0 (ChatHistoryMax t2)"
      using fr(1) by (simp add: SameButHistory_def)
    have loop: "HistoryLoop Parse (e # Data) t = HistoryLoop Parse Data t2"
      using h True m(1) nwh t2(1) by simp
    obtain t' ys' where t': "HistoryLoop Parse Data t2 = Inr t'" "HistoryIs t' ys'"
      "list_all (\<lambda>a. N0 \<le> a) ys'" "HeapNext t2 \<le> HeapNext t'"
      "ChatHistoryMax t' = ChatHistoryMax t2" "SameRouter t2 t'"
      "\<forall>c<N0. Heap t' c = Heap t2 c"
      "map (\<lambda>a. MessageId (Heap t' a)) ys' =
        take (nat (ChatHistoryMax t2))
          (rev (ServerIds Parse Data) @ map (\<lambda>a. MessageId (Heap t2 a)) ?ys2)"
      using Cons.IH[OF nw t2(2) ge2 _ len2] Cons.prems(4) fr(1) m(2)
      by (auto simp: SameButHistory_def)
    have max2: "ChatHistoryMax t2 = ChatHistoryMax t" "HeapNext t2 = HeapNext t1"
      "SameRouter t t2"
      using fr(1) max1 r(3) by (simp_all add: SameButHistory_def SameRouter_def)
    have low2: "\<forall>c<N0. Heap t2 c = Heap t c"
    proof (intro allI impI)
      fix c assume c: "c < N0"
      then have "c \<notin> set (?a # ys)" using Cons.prems(3,4) by (auto simp: list_all_iff)
      then show "Heap t2 c = Heap t c" using t2(3) low1 c by simp
    qed
    have ids2: "map (\<lambda>a. MessageId (Heap t2 a)) ?ys2 =
        take (nat (ChatHistoryMax t)) (MessageId (Heap t1 ?a) # map (\<lambda>a. MessageId (Heap t a)) ys)"
    proof -
      have "map (\<lambda>a. MessageId (Heap t2 a)) (?a # ys) =
            MessageId (Heap t1 ?a) # map (\<lambda>a. MessageId (Heap t a)) ys"
        unfolding idb using ids1 by simp
      then show ?thesis unfolding max1 by (metis take_map)
    qed
    have sid: "ServerIds Parse (e # Data) = MessageId (Heap t1 ?a) # ServerIds Parse Data"
      using m(3) by (simp add: ServerIds_Cons split: option.split) (metis option.inject option.distinct(1))
    have final: "map (\<lambda>a. MessageId (Heap t' a)) ys' =
        take (nat (ChatHistoryMax t))
          (rev (ServerIds Parse (e # Data)) @ map (\<lambda>a. MessageId (Heap t a)) ys)"
      unfolding t'(8) ids2 max2(1) sid by (subst take_append_take) simp
    show ?thesis
      using loop t'(1-7) max2 low2 final r(4) m(2)
      by (auto simp: SameRouter_def)
  qed
qed

section \<open>Lemmas about relinking the stashed history\<close>

lemma FindDupe_none:
  "NextPath h p ys None \<Longrightarrow> list_all (\<lambda>a. MessageId (h a) \<noteq> L) ys \<Longrightarrow>
   FindDupe h L p c = Some (None, c + int (length ys))"
proof (induction ys arbitrary: p c)
  case Nil
  then show ?case by (subst FindDupe.simps) simp
next
  case (Cons a ys)
  then have p: "p = Some a" and n: "NextPath h (NextLink (h a)) ys None"
    and ne: "MessageId (h a) \<noteq> L" and r: "list_all (\<lambda>a. MessageId (h a) \<noteq> L) ys"
    by auto
  show ?case
    by (subst FindDupe.simps) (simp add: p ne Cons.IH[OF n r])
qed

lemma FindDupe_some:
  "NextPath h p (pre @ d # older) q \<Longrightarrow> list_all (\<lambda>a. MessageId (h a) \<noteq> L) pre \<Longrightarrow>
   MessageId (h d) = L \<Longrightarrow>
   FindDupe h L p c = Some (Some d, c + int (length pre) + 1)"
proof (induction pre arbitrary: p c)
  case Nil
  then show ?case by (subst FindDupe.simps) simp
next
  case (Cons a pre)
  then have p: "p = Some a" and n: "NextPath h (NextLink (h a)) (pre @ d # older) q"
    and ne: "MessageId (h a) \<noteq> L" and r: "list_all (\<lambda>a. MessageId (h a) \<noteq> L) pre"
    by auto
  show ?case
    by (subst FindDupe.simps) (simp add: p ne Cons.IH[OF n r Cons.prems(3)])
qed

lemma NextPath_None_start: "NextPath h None zs q \<Longrightarrow> zs = []"
  by (cases zs) auto

lemma splice:
  assumes n1: "NextPath h p (xs0 @ [lo]) q0" and p1: "PrevLinked h None (xs0 @ [lo])"
    and n2: "NextPath h r zs None" and p2: "PrevLinked h r0 zs"
    and d: "distinct (xs0 @ lo # zs)"
  shows "NextPath
           (case r of Some n \<Rightarrow> (h(lo := (h lo)\<lparr>NextLink := r\<rparr>))
                                   (n := ((h(lo := (h lo)\<lparr>NextLink := r\<rparr>)) n)\<lparr>PrevLink := Some lo\<rparr>)
            | None \<Rightarrow> h(lo := (h lo)\<lparr>NextLink := r\<rparr>))
           p (xs0 @ lo # zs) None \<and>
         PrevLinked
           (case r of Some n \<Rightarrow> (h(lo := (h lo)\<lparr>NextLink := r\<rparr>))
                                   (n := ((h(lo := (h lo)\<lparr>NextLink := r\<rparr>)) n)\<lparr>PrevLink := Some lo\<rparr>)
            | None \<Rightarrow> h(lo := (h lo)\<lparr>NextLink := r\<rparr>))
           None (xs0 @ lo # zs)"
proof (cases zs)
  case Nil
  then have r: "r = None" using n2 by simp
  have "NextPath (h(lo := (h lo)\<lparr>NextLink := None\<rparr>)) p xs0 (Some lo)"
    using n1 d by (simp add: NextPath_snoc NextPath_upd)
  moreover have "PrevLinked (h(lo := (h lo)\<lparr>NextLink := None\<rparr>)) None (xs0 @ [lo])"
    using p1 by (simp add: PrevLinked_upd_Next)
  ultimately show ?thesis
    unfolding Nil r by (simp add: NextPath_snoc)
next
  case (Cons z zs')
  then have r: "r = Some z" and n2': "NextPath h (NextLink (h z)) zs' None"
    and p2': "PrevLinked h (Some z) zs'"
    using n2 p2 by auto
  let ?h1 = "h(lo := (h lo)\<lparr>NextLink := Some z\<rparr>)"
  let ?h2 = "?h1(z := (?h1 z)\<lparr>PrevLink := Some lo\<rparr>)"
  have dz: "z \<noteq> lo" "z \<notin> set xs0" "z \<notin> set zs'" "lo \<notin> set xs0" "lo \<notin> set zs'"
    using d unfolding Cons by auto
  have a: "NextPath ?h2 p xs0 (Some lo)"
    using n1 dz by (simp add: NextPath_snoc NextPath_upd NextPath_upd_Prev)
  have b: "NextLink (?h2 lo) = Some z" using dz by simp
  have c: "NextPath ?h2 (NextLink (?h2 z)) zs' None"
    using n2' dz by (simp add: NextPath_upd NextPath_upd_Prev)
  have e: "PrevLinked ?h2 None (xs0 @ [lo])"
  proof -
    have "PrevLinked ?h1 None (xs0 @ [lo])" using p1 by (simp add: PrevLinked_upd_Next)
    then show ?thesis using dz by (simp add: PrevLinked_upd)
  qed
  have f: "PrevLink (?h2 z) = Some lo" by simp
  have g: "PrevLinked ?h2 (Some z) zs'"
    using p2' dz by (simp add: PrevLinked_upd PrevLinked_upd_Next)
  have "NextPath ?h2 p (xs0 @ lo # z # zs') None"
    using a b c by (simp add: NextPath_append)
  moreover have "PrevLinked ?h2 None (xs0 @ lo # z # zs')"
    using e f g PrevLinked_append[of ?h2 None "xs0 @ [lo]" "z # zs'"] by simp
  ultimately show ?thesis unfolding Cons r by simp
qed


lemma set_NextLink_Heap:
  "Heap (set_NextLink a v s) = (Heap s)(a := (Heap s a)\<lparr>NextLink := v\<rparr>)"
  by (simp add: set_NextLink_def)

lemma set_PrevLink_Heap:
  "Heap (set_PrevLink a v s) = (Heap s)(a := (Heap s a)\<lparr>PrevLink := v\<rparr>)"
  by (simp add: set_PrevLink_def)

lemma Relink_server_empty:
  assumes "HistoryIs t []"
  shows "RelinkHistory LN LO LNum LMax t =
           Some (t\<lparr>ChatHistoryNewest := LN, ChatHistoryOldest := LO\<rparr>)"
  using assms by (simp add: RelinkHistory_def HistoryIs_def Linked_def)

lemma Relink_local_empty:
  assumes "HistoryIs t ys" "ys \<noteq> []"
  shows "RelinkHistory LN None LNum LMax t = Some t"
  using assms by (cases ys) (auto simp: RelinkHistory_def HistoryIs_def Linked_def)

lemma Relink_no_dupe:
  assumes ht: "HistoryIs t ys" and ne: "ys \<noteq> []"
    and lk: "Linked (Heap t) LN LO (xs0 @ [lo])"
    and disj: "set (xs0 @ [lo]) \<inter> set ys = {}"
    and nd: "list_all (\<lambda>a. MessageId (Heap t a) \<noteq> MessageId (Heap t lo)) ys"
  shows "\<exists>s'. RelinkHistory LN LO LNum LMax t = Some s' \<and>
           Linked (Heap s') (ChatHistoryNewest s') (ChatHistoryOldest s') (xs0 @ lo # ys) \<and>
           ChatHistoryNum s' = int (length ys) + LNum \<and> ChatHistoryMax s' = LMax \<and>
           HeapNext s' = HeapNext t \<and> SameRouter t s' \<and>
           (\<forall>c. Unlinked (Heap s' c) = Unlinked (Heap t c))"
proof -
  obtain y0 ys' where ys: "ys = y0 # ys'" using ne by (cases ys) auto
  let ?h = "Heap t"
  have t: "ChatHistoryNewest t = Some y0" "NextPath ?h (Some y0) ys None" "PrevLinked ?h None ys"
    "ChatHistoryOldest t = Some (last ys)" "distinct ys" "ChatHistoryNum t = int (length ys)"
    using ht unfolding ys by (auto simp: HistoryIs_def Linked_def)
  have l: "LO = Some lo" "NextPath ?h LN (xs0 @ [lo]) None" "PrevLinked ?h None (xs0 @ [lo])"
    "distinct (xs0 @ [lo])"
    using lk by (auto simp: Linked_def)
  have d: "distinct (xs0 @ lo # ys)" using l(4) t(5) disj by auto
  have fd: "FindDupe ?h (MessageId (?h lo)) (Some y0) 0 = Some (None, int (length ys))"
    using FindDupe_none[OF t(2) nd, of 0] by simp
  let ?s3 = "set_PrevLink y0 (Some lo) (set_NextLink lo (Some y0) t)"
  let ?s' = "?s3\<lparr>ChatHistoryNewest := LN, ChatHistoryNum := ChatHistoryNum ?s3 + LNum,
                 ChatHistoryMax := LMax\<rparr>"
  have r: "RelinkHistory LN LO LNum LMax t = Some ?s'"
    by (simp add: RelinkHistory_def t(1) l(1) fd Let_def)
  have sp: "NextPath (Heap ?s') LN (xs0 @ lo # ys) None \<and> PrevLinked (Heap ?s') None (xs0 @ lo # ys)"
    using splice[OF l(2) l(3) t(2) t(3) d]
    by (simp add: set_NextLink_Heap set_PrevLink_Heap)
  have "Linked (Heap ?s') (ChatHistoryNewest ?s') (ChatHistoryOldest ?s') (xs0 @ lo # ys)"
    using sp d t(4) ne by (simp add: Linked_def set_NextLink_sel set_PrevLink_sel)
  moreover have "ChatHistoryNum ?s' = int (length ys) + LNum" "ChatHistoryMax ?s' = LMax"
    "HeapNext ?s' = HeapNext t" "SameRouter t ?s'"
    using t(6) by (simp_all add: set_NextLink_sel set_PrevLink_sel SameRouter_def)
  moreover have "\<forall>c. Unlinked (Heap ?s' c) = Unlinked (Heap t c)"
    by (simp add: set_NextLink_Unlinked set_PrevLink_Unlinked)
  ultimately show ?thesis using r by blast
qed

lemma Relink_dupe:
  assumes ht: "HistoryIs t (pre @ d # older)"
    and lk: "Linked (Heap t) LN LO (xs0 @ [lo])"
    and disj: "set (xs0 @ [lo]) \<inter> set (pre @ d # older) = {}"
    and nd: "list_all (\<lambda>a. MessageId (Heap t a) \<noteq> MessageId (Heap t lo)) pre"
    and dup: "MessageId (Heap t d) = MessageId (Heap t lo)"
  shows "\<exists>s'. RelinkHistory LN LO LNum LMax t = Some s' \<and>
           distinct (xs0 @ lo # older) \<and>
           NextPath (Heap s') (ChatHistoryNewest s') (xs0 @ lo # older) None \<and>
           PrevLinked (Heap s') None (xs0 @ lo # older) \<and>
           ChatHistoryNewest s' = LN \<and> ChatHistoryOldest s' = ChatHistoryOldest t \<and>
           ChatHistoryNum s' = int (length older) + LNum \<and> ChatHistoryMax s' = LMax \<and>
           HeapNext s' = HeapNext t \<and> SameRouter t s' \<and>
           (\<forall>c. Unlinked (Heap s' c) = Unlinked (Heap t c))"
proof -
  let ?h = "Heap t"
  let ?ys = "pre @ d # older"
  have t: "NextPath ?h (ChatHistoryNewest t) ?ys None" "PrevLinked ?h None ?ys"
    "distinct ?ys" "ChatHistoryNum t = int (length ?ys)"
    using ht by (auto simp: HistoryIs_def Linked_def)
  obtain sn where sn: "ChatHistoryNewest t = Some sn"
    using t(1) by (cases pre) auto
  have l: "LO = Some lo" "NextPath ?h LN (xs0 @ [lo]) None" "PrevLinked ?h None (xs0 @ [lo])"
    "distinct (xs0 @ [lo])"
    using lk by (auto simp: Linked_def)
  have d: "distinct (xs0 @ lo # older)" "d \<noteq> lo" using l(4) t(3) disj by auto
  have fd: "FindDupe ?h (MessageId (?h lo)) (Some sn) 0 = Some (Some d, int (length pre) + 1)"
    using FindDupe_some[OF t(1) nd dup, of 0] sn by simp
  let ?r = "NextLink (?h d)"
  have n2: "NextPath ?h ?r older None"
    using t(1) by (auto simp: NextPath_append)
  have p2: "PrevLinked ?h (Some d) older"
    using t(2) by (simp add: PrevLinked_append)
  let ?s1 = "set_NextLink lo ?r t"
  let ?s2 = "(case NextLink (Heap ?s1 d) of
                Some n \<Rightarrow> set_PrevLink n (Some lo) ?s1 | None \<Rightarrow> ?s1)"
  let ?s3 = "?s2\<lparr>ChatHistoryNum := ChatHistoryNum ?s2 - (int (length pre) + 1)\<rparr>"
  let ?s' = "?s3\<lparr>ChatHistoryNewest := LN, ChatHistoryNum := ChatHistoryNum ?s3 + LNum,
                 ChatHistoryMax := LMax\<rparr>"
  have r: "RelinkHistory LN LO LNum LMax t = Some ?s'"
    by (simp add: RelinkHistory_def sn l(1) fd Let_def)
  have rd: "NextLink (Heap ?s1 d) = ?r" using d(2) by (simp add: set_NextLink_Heap)
  have heap: "Heap ?s' = (case ?r of Some n \<Rightarrow> (?h(lo := (?h lo)\<lparr>NextLink := ?r\<rparr>))
                                   (n := ((?h(lo := (?h lo)\<lparr>NextLink := ?r\<rparr>)) n)\<lparr>PrevLink := Some lo\<rparr>)
            | None \<Rightarrow> ?h(lo := (?h lo)\<lparr>NextLink := ?r\<rparr>))"
    unfolding rd by (cases ?r) (simp_all add: set_NextLink_Heap set_PrevLink_Heap)
  have sp: "NextPath (Heap ?s') LN (xs0 @ lo # older) None \<and> PrevLinked (Heap ?s') None (xs0 @ lo # older)"
    unfolding heap by (rule splice[OF l(2) l(3) n2 p2 d(1)])
  have sel: "ChatHistoryNewest ?s' = LN" "ChatHistoryOldest ?s' = ChatHistoryOldest t"
    "ChatHistoryNum ?s' = int (length older) + LNum" "ChatHistoryMax ?s' = LMax"
    "HeapNext ?s' = HeapNext t" "SameRouter t ?s'"
    unfolding rd using t(4)
    by (cases ?r; simp add: set_NextLink_sel set_PrevLink_sel SameRouter_def)+
  have un: "\<forall>c. Unlinked (Heap ?s' c) = Unlinked (Heap t c)"
    unfolding rd by (cases ?r) (simp_all add: set_NextLink_Unlinked set_PrevLink_Unlinked)
  show ?thesis
    using r d(1) sp sel un by (intro exI[of _ ?s']) simp
qed

section \<open>The invariant under pushes and deletions\<close>

lemma NextPath_hd: "NextPath h p xs q \<Longrightarrow> xs \<noteq> [] \<Longrightarrow> p = Some (hd xs)"
  by (cases xs) auto

lemma DeleteNode_inner:
  assumes "HistoryIs s (pre @ l # m # rest)"
  shows "HistoryIs (DeleteNode m s) (pre @ l # rest) \<and> SameButHistory s (DeleteNode m s) \<and>
         NextPath (Heap (DeleteNode m s)) (NextLink (Heap s m)) rest None"
proof -
  have "ChatHistoryNewest s = Some (hd (pre @ l # m # rest))"
    using assms by (intro NextPath_hd[where q=None]) (auto simp: HistoryIs_def Linked_def)
  moreover have "distinct (pre @ l # m # rest)"
    using assms by (auto simp: HistoryIs_def Linked_def)
  ultimately have nn: "ChatHistoryNewest s \<noteq> Some m"
    by (cases pre) auto
  show ?thesis
proof (cases rest)
  case Nil
  then show ?thesis
    using assms nn
    by (auto simp: DeleteNode_def HistoryIs_def Linked_def set_NextLink_def SameButHistory_def
        set_PrevLink_def Let_def FlagAsDeleted_def NextPath_append PrevLinked_append
        NextPath_upd PrevLinked_upd NextPath_upd_Prev PrevLinked_upd_Next)
next
  case (Cons n ys)
  then show ?thesis
    using assms nn
    by (auto simp: DeleteNode_def HistoryIs_def Linked_def set_NextLink_def SameButHistory_def
        set_PrevLink_def Let_def FlagAsDeleted_def NextPath_append PrevLinked_append
        NextPath_upd PrevLinked_upd NextPath_upd_Prev PrevLinked_upd_Next)
qed
qed

lemma DeleteNode_any:
  assumes "HistoryIs s (pre @ m # rest)"
  shows "HistoryIs (DeleteNode m s) (pre @ rest) \<and> SameButHistory s (DeleteNode m s) \<and>
         NextPath (Heap (DeleteNode m s)) (NextLink (Heap s m)) rest None"
proof (cases pre rule: rev_cases)
  case Nil
  have h: "HistoryIs (DeleteNode m s) rest" "SameButHistory s (DeleteNode m s)"
    "ChatHistoryNewest (DeleteNode m s) = NextLink (Heap s m)"
    using DeleteNode_head[of s m rest] assms Nil by simp_all
  have "NextPath (Heap (DeleteNode m s)) (ChatHistoryNewest (DeleteNode m s)) rest None"
    using h(1) by (simp add: HistoryIs_def Linked_def)
  then show ?thesis
    using h Nil by simp
next
  case (snoc pre0 l)
  then show ?thesis
    using DeleteNode_inner[of s pre0 l m rest] assms by simp
qed

lemma DeleteLoop_keeps_history:
  "HistoryIs s (pre @ rest) \<Longrightarrow> NextPath (Heap s) c rest None \<Longrightarrow>
   \<exists>p' s' kept. DeleteLoop P p c s = Some (p', s') \<and> HistoryIs s' (pre @ kept) \<and>
      length kept \<le> length rest \<and> SameButHistory s s'"
proof (induction rest arbitrary: s pre p c)
  case Nil
  then have "c = None" by simp
  then show ?case
    using Nil.prems(1)
    by (subst DeleteLoop.simps) (auto simp: SameButHistory_def intro!: exI[of _ "[]"])
next
  case (Cons m rest)
  then have c: "c = Some m" and nx: "NextPath (Heap s) (NextLink (Heap s m)) rest None"
    by auto
  obtain b p1 where P: "P p m (Heap s m) = (b, p1)" by (cases "P p m (Heap s m)") auto
  show ?case
  proof (cases b)
    case True
    let ?s1 = "DeleteNode m s"
    have d: "HistoryIs ?s1 (pre @ rest)" "SameButHistory s ?s1"
      "NextPath (Heap ?s1) (NextLink (Heap s m)) rest None"
      using DeleteNode_any[OF Cons.prems(1)] by auto
    obtain p' s' kept where r: "DeleteLoop P p1 (NextLink (Heap s m)) ?s1 = Some (p', s')"
      "HistoryIs s' (pre @ kept)" "length kept \<le> length rest" "SameButHistory ?s1 s'"
      using Cons.IH[OF d(1) d(3), of p1] by blast
    have "DeleteLoop P p c s = Some (p', s')"
      by (subst DeleteLoop.simps) (simp add: c P True r(1))
    then show ?thesis
      using r(2,3,4) d(2) by (intro exI[of _ p'] exI[of _ s'] exI[of _ kept])
        (simp add: SameButHistory_def)
  next
    case False
    have h: "HistoryIs s ((pre @ [m]) @ rest)" using Cons.prems(1) by simp
    obtain p' s' kept where r: "DeleteLoop P p1 (NextLink (Heap s m)) s = Some (p', s')"
      "HistoryIs s' ((pre @ [m]) @ kept)" "length kept \<le> length rest" "SameButHistory s s'"
      using Cons.IH[OF h nx, of p1] by blast
    have "DeleteLoop P p c s = Some (p', s')"
      by (subst DeleteLoop.simps) (simp add: c P False r(1))
    then show ?thesis
      using r(2,3,4) by (intro exI[of _ p'] exI[of _ s'] exI[of _ "m # kept"]) simp
  qed
qed

lemma DeleteFromChatHistoryIf_keeps_invariant:
  assumes "HistoryInvariant s xs"
  shows "\<exists>p' s' kept. DeleteFromChatHistoryIf P p s = Some (p', s') \<and> HistoryInvariant s' kept"
proof -
  have h: "HistoryIs s ([] @ xs)" and n: "NextPath (Heap s) (ChatHistoryNewest s) xs None"
    and le: "int (length xs) \<le> ChatHistoryMax s"
    using assms by (auto simp: HistoryInvariant_def HistoryIs_def Linked_def)
  obtain p' s' kept where r: "DeleteLoop P p (ChatHistoryNewest s) s = Some (p', s')"
    "HistoryIs s' ([] @ kept)" "length kept \<le> length xs" "SameButHistory s s'"
    using DeleteLoop_keeps_history[OF h n, of P p] by blast
  have "HistoryInvariant s' kept"
    using r(2,3,4) le by (simp add: HistoryInvariant_def HistoryIs_def SameButHistory_def)
  then show ?thesis using r(1) by (auto simp: DeleteFromChatHistoryIf_def)
qed

lemma AddMessage_keeps_invariant:
  assumes "HistoryInvariant s xs" "PrevLink (Heap s m) = None" "m < HeapNext s" "m \<notin> set xs"
  shows "\<exists>s' zs. AddMessageToChatHistory m s = Inr s' \<and> HistoryInvariant s' zs"
proof (cases "bIsWhisper (Heap s m)")
  case True
  then have "AddMessageToChatHistory m s = Inr s" by (intro AddMessage_noop) simp
  then show ?thesis using assms(1) by auto
next
  case False
  have h: "HistoryIs s xs" and le: "int (length xs) \<le> max 0 (ChatHistoryMax s)"
    using assms(1) by (auto simp: HistoryInvariant_def HistoryIs_def)
  obtain s' where s': "AddMessageToChatHistory m s = Inr s'"
    "HistoryIs s' (take (nat (ChatHistoryMax s)) (m # xs))"
    using AddMessage_any_Max[OF h le False assms(2,3,4)] by blast
  have "ChatHistoryMax s' = ChatHistoryMax s"
    using AddMessage_frame[OF s'(1)] by (simp add: SameButHistory_def)
  moreover have "0 \<le> ChatHistoryMax s"
    using assms(1) by (simp add: HistoryInvariant_def HistoryIs_def)
  ultimately have "HistoryInvariant s' (take (nat (ChatHistoryMax s)) (m # xs))"
    using s'(2) by (simp add: HistoryInvariant_def HistoryIs_def)
  then show ?thesis using s'(1) by blast
qed

section \<open>Lemmas about the merge of a history reply\<close>

lemma HistoryReply_loop:
  assumes inv: "HistoryInvariant s xs"
    and nw: "NoWhisperEntry Parse Data"
  shows "\<exists>t ys. HistoryLoop Parse Data (StashHistory s) = Inr t \<and> HistoryIs t ys \<and>
           Linked (Heap t) (ChatHistoryNewest s) (ChatHistoryOldest s) xs \<and>
           set xs \<inter> set ys = {} \<and>
           ChatHistoryMax t = ChatHistoryMax s - int (length xs) \<and>
           SameRouter s t \<and> (\<forall>c<HeapNext s. Heap t c = Heap s c) \<and>
           map (\<lambda>a. MessageId (Heap t a)) ys =
             take (nat (ChatHistoryMax s - int (length xs))) (rev (ServerIds Parse Data)) \<and>
           HeapNext s \<le> HeapNext t"
proof -
  have h: "HistoryIs s xs" and le: "int (length xs) \<le> ChatHistoryMax s"
    and num: "ChatHistoryNum s = int (length xs)"
    using inv by (auto simp: HistoryInvariant_def HistoryIs_def)
  have lk: "Linked (Heap s) (ChatHistoryNewest s) (ChatHistoryOldest s) xs"
    and lt: "\<And>a. a \<in> set xs \<Longrightarrow> a < HeapNext s"
    using h by (auto simp: HistoryIs_def list_all_iff)
  let ?t0 = "StashHistory s"
  have t0: "HistoryIs ?t0 []" "ChatHistoryMax ?t0 = ChatHistoryMax s - int (length xs)"
    "HeapNext ?t0 = HeapNext s" "Heap ?t0 = Heap s" "SameRouter s ?t0"
    using num by (simp_all add: StashHistory_def HistoryIs_def Linked_def SameRouter_def)
  obtain t ys where t: "HistoryLoop Parse Data ?t0 = Inr t" "HistoryIs t ys"
    "list_all (\<lambda>a. HeapNext s \<le> a) ys" "ChatHistoryMax t = ChatHistoryMax ?t0"
    "HeapNext ?t0 \<le> HeapNext t"
    "SameRouter ?t0 t" "\<forall>c<HeapNext s. Heap t c = Heap ?t0 c"
    "map (\<lambda>a. MessageId (Heap t a)) ys =
        take (nat (ChatHistoryMax ?t0))
          (rev (ServerIds Parse Data) @ map (\<lambda>a. MessageId (Heap ?t0 a)) [])"
    using HistoryLoop_result[OF nw t0(1), of "HeapNext s"] t0(2,3) le by auto
  have same: "\<And>a. a \<in> set xs \<Longrightarrow> Heap t a = Heap s a"
    using t(7) t0(4) lt by simp
  have "NextPath (Heap t) p xs q = NextPath (Heap s) p xs q" for p q
    by (rule NextPath_cong) (simp add: same)
  moreover have "PrevLinked (Heap t) q xs = PrevLinked (Heap s) q xs" for q
    by (rule PrevLinked_cong) (simp add: same)
  ultimately have lk': "Linked (Heap t) (ChatHistoryNewest s) (ChatHistoryOldest s) xs"
    using lk by (simp add: Linked_def)
  have disj: "set xs \<inter> set ys = {}"
    using lt t(3) by (fastforce simp: list_all_iff)
  show ?thesis
    using t(1,2,4,5,6,7,8) t0 lk' disj by (auto simp: SameRouter_def)
qed

lemma HandleHistoryReply_unfold:
  assumes "TryGetArrayField JsonObj ''data'' = Some Data"
    "HistoryLoop Parse Data (StashHistory s) = Inr t"
    "RelinkHistory (ChatHistoryNewest s) (ChatHistoryOldest s) (ChatHistoryNum s) (ChatHistoryMax s) t = Some s'"
  shows "HandleHistoryReply Parse JsonObj s = Some (Inr (True, s'))"
  using assms by (simp add: HandleHistoryReply_def)

text \<open>The merge when no retained server message has the id of the oldest local message.\<close>

lemma HandleHistoryReply_merge_no_dupe:
  assumes inv: "HistoryInvariant s xs"
    and data: "TryGetArrayField JsonObj ''data'' = Some Data"
    and nw: "NoWhisperEntry Parse Data"
    and nd: "xs \<noteq> [] \<Longrightarrow> MessageId (Heap s (last xs)) \<notin>
               set (take (nat (ChatHistoryMax s - int (length xs))) (rev (ServerIds Parse Data)))"
    and ne: "xs = [] \<or> (ServerIds Parse Data \<noteq> [] \<and> int (length xs) < ChatHistoryMax s)"
  shows "\<exists>s' ys. HandleHistoryReply Parse JsonObj s = Some (Inr (True, s')) \<and>
           HistoryInvariant s' (xs @ ys) \<and>
           map (\<lambda>a. MessageId (Heap s' a)) ys =
             take (nat (ChatHistoryMax s - int (length xs))) (rev (ServerIds Parse Data)) \<and>
           ChatHistoryMax s' = ChatHistoryMax s \<and> SameRouter s s' \<and>
           map (\<lambda>a. Unlinked (Heap s' a)) xs = map (\<lambda>a. Unlinked (Heap s a)) xs"
proof -
  obtain t ys where t: "HistoryLoop Parse Data (StashHistory s) = Inr t" "HistoryIs t ys"
    "Linked (Heap t) (ChatHistoryNewest s) (ChatHistoryOldest s) xs"
    "set xs \<inter> set ys = {}"
    "ChatHistoryMax t = ChatHistoryMax s - int (length xs)"
    "SameRouter s t" "\<forall>c<HeapNext s. Heap t c = Heap s c"
    "map (\<lambda>a. MessageId (Heap t a)) ys =
       take (nat (ChatHistoryMax s - int (length xs))) (rev (ServerIds Parse Data))"
    "HeapNext s \<le> HeapNext t"
    using HistoryReply_loop[OF inv nw] by blast
  have h: "HistoryIs s xs" and le: "int (length xs) \<le> ChatHistoryMax s"
    and num: "ChatHistoryNum s = int (length xs)"
    using inv by (auto simp: HistoryInvariant_def HistoryIs_def)
  have lt: "\<And>a. a \<in> set xs \<Longrightarrow> a < HeapNext s"
    using h by (auto simp: HistoryIs_def list_all_iff)
  have same: "\<And>a. a \<in> set xs \<Longrightarrow> Heap t a = Heap s a"
    using t(7) lt by simp
  have leny: "int (length ys) \<le> ChatHistoryMax s - int (length xs)"
  proof -
    have "length (map (\<lambda>a. MessageId (Heap t a)) ys) \<le> nat (ChatHistoryMax s - int (length xs))"
      unfolding t(8) by simp
    then show ?thesis using le by simp
  qed
  have tn: "ChatHistoryNum t = int (length ys)" "list_all (\<lambda>a. a < HeapNext t) ys"
    using t(2) by (simp_all add: HistoryIs_def)
  note hn = t(9)
  show ?thesis
  proof (cases "xs = []")
    case True
    then have old: "ChatHistoryNewest s = None" "ChatHistoryOldest s = None" "ChatHistoryNum s = 0"
      using h by (auto simp: HistoryIs_def Linked_def)
    show ?thesis
    proof (cases "ys = []")
      case ye: True
      have r: "RelinkHistory (ChatHistoryNewest s) (ChatHistoryOldest s) (ChatHistoryNum s)
                 (ChatHistoryMax s) t = Some (t\<lparr>ChatHistoryNewest := None, ChatHistoryOldest := None\<rparr>)"
        using Relink_server_empty[of t] t(2) ye old by simp
      have "HistoryInvariant (t\<lparr>ChatHistoryNewest := None, ChatHistoryOldest := None\<rparr>) []"
        using t(2,5) ye le True by (simp add: HistoryInvariant_def HistoryIs_def Linked_def)
      then show ?thesis
        using HandleHistoryReply_unfold[OF data t(1) r] t(5,6,8) True ye
        by (intro exI[of _ "t\<lparr>ChatHistoryNewest := None, ChatHistoryOldest := None\<rparr>"] exI[of _ "[]"])
           (simp add: SameRouter_def)
    next
      case yne: False
      have r: "RelinkHistory (ChatHistoryNewest s) (ChatHistoryOldest s) (ChatHistoryNum s)
                 (ChatHistoryMax s) t = Some t"
        using Relink_local_empty[OF t(2) yne] old by simp
      have "HistoryInvariant t ys"
        using t(2,5) tn leny True by (simp add: HistoryInvariant_def)
      then show ?thesis
        using HandleHistoryReply_unfold[OF data t(1) r] t(5,6,8) True
        by (intro exI[of _ t] exI[of _ ys]) simp
    qed
  next
    case False
    then obtain xs0 lo where xs: "xs = xs0 @ [lo]" by (cases xs rule: rev_cases) auto
    have yne: "ys \<noteq> []"
    proof
      assume "ys = []"
      then have "take (nat (ChatHistoryMax s - int (length xs))) (rev (ServerIds Parse Data)) = []"
        using t(8) by simp
      then show False using ne False by (auto simp: take_eq_Nil)
    qed
    have lo: "Heap t lo = Heap s lo" using same xs by simp
    have ndl: "list_all (\<lambda>a. MessageId (Heap t a) \<noteq> MessageId (Heap t lo)) ys"
    proof -
      have "MessageId (Heap s lo) \<notin> set (map (\<lambda>a. MessageId (Heap t a)) ys)"
        unfolding t(8) using nd[OF False] xs by simp
      then show ?thesis unfolding lo by (force simp: list_all_iff)
    qed
    obtain s' where s': "RelinkHistory (ChatHistoryNewest s) (ChatHistoryOldest s) (ChatHistoryNum s)
                 (ChatHistoryMax s) t = Some s'"
      "Linked (Heap s') (ChatHistoryNewest s') (ChatHistoryOldest s') (xs0 @ lo # ys)"
      "ChatHistoryNum s' = int (length ys) + ChatHistoryNum s" "ChatHistoryMax s' = ChatHistoryMax s"
      "HeapNext s' = HeapNext t" "SameRouter t s'"
      "\<forall>c. Unlinked (Heap s' c) = Unlinked (Heap t c)"
      using Relink_no_dupe[OF t(2) yne t(3)[unfolded xs] t(4)[unfolded xs] ndl] by blast
    have "list_all (\<lambda>a. a < HeapNext s') (xs @ ys)"
      using tn(2) lt hn s'(5) by (fastforce simp: list_all_iff)
    then have "HistoryInvariant s' (xs @ ys)"
      using s'(2,3,4) num leny xs by (simp add: HistoryInvariant_def HistoryIs_def)
    moreover have "map (\<lambda>a. MessageId (Heap s' a)) ys = map (\<lambda>a. MessageId (Heap t a)) ys"
    proof (rule map_cong[OF refl])
      fix a show "MessageId (Heap s' a) = MessageId (Heap t a)"
        using arg_cong[OF s'(7)[rule_format, of a], of MessageId] by (simp add: Unlinked_def)
    qed
    moreover have "map (\<lambda>a. Unlinked (Heap s' a)) xs = map (\<lambda>a. Unlinked (Heap s a)) xs"
      using s'(7) same by (intro map_cong) auto
    ultimately show ?thesis
      using HandleHistoryReply_unfold[OF data t(1) s'(1)] t(6,8) s'(4,6)
      by (intro exI[of _ s'] exI[of _ ys]) (simp add: SameRouter_def)
  qed
qed

section \<open>Lemmas about the examples\<close>

lemma EntryId_Example: "EntryId ExampleParse (AsObject (ExampleEntry i)) = ExampleParse i"
  by (simp add: EntryId_def AsObject_def ExampleEntry_def TryGetStringField_def
      TryGetNumberField_def TryGetObjectField_def TryGetArrayField_def)

lemma EntryWhisper_Example: "\<not> EntryWhisper (AsObject (ExampleEntry i))"
  by (simp add: EntryWhisper_def AsObject_def ExampleEntry_def TryGetObjectField_def)

lemma ExampleParse_values:
  "ExampleParse ''10'' = Some 10" "ExampleParse ''11'' = Some 11"
  "ExampleParse ''20'' = Some 20" "ExampleParse ''21'' = Some 21"
  by (simp_all add: ExampleParse_def)

lemma ExampleReply_data: "TryGetArrayField (ExampleReply is) ''data'' = Some (map ExampleEntry is)"
  by (simp add: ExampleReply_def TryGetArrayField_def)

lemma NoWhisperEntry_Example: "NoWhisperEntry ExampleParse (map ExampleEntry is)"
  by (simp add: NoWhisperEntry_def list_all_iff EntryWhisper_Example)

lemma ServerIds_Example:
  "ServerIds ExampleParse (map ExampleEntry is) = List.map_filter ExampleParse is"
  by (induction "is") (simp_all add: ServerIds_def map_filter_simps EntryId_Example split: option.split)

lemma TwoMessages_inv: "M \<ge> 2 \<Longrightarrow> HistoryInvariant (TwoMessages M) [1, 0]"
  by (simp add: HistoryInvariant_def HistoryIs_def Linked_def TwoMessages_def EmptyConnection_def
      ExampleMessage_def FChatMessageMixerImpl_new_def)


subsection \<open>The router state under the handlers\<close>

lemma SameRouter_RouterGrows: "SameRouter s s' \<Longrightarrow> RouterGrows s s'"
  by (simp add: SameRouter_def RouterGrows_def)

lemma SameButHistory_SameRouter: "SameButHistory s s' \<Longrightarrow> SameRouter s s'"
  by (simp add: SameButHistory_def SameRouter_def)

lemma SameRouter_trans: "SameRouter s t \<Longrightarrow> SameRouter t u \<Longrightarrow> SameRouter s u"
  by (simp add: SameRouter_def)

lemma SameRouter_refl: "SameRouter s s"
  by (simp add: SameRouter_def)

lemma DeleteNode_SameButHistory: "SameButHistory s (DeleteNode m s)"
  by (simp add: DeleteNode_def SameButHistory_def Let_def set_NextLink_sel set_PrevLink_sel
      split: option.split)

lemma SameButHistory_trans:
  "SameButHistory s t \<Longrightarrow> SameButHistory t u \<Longrightarrow> SameButHistory s u"
  by (simp add: SameButHistory_def)

lemma DeleteLoop_SameButHistory:
  assumes "DeleteLoop Pred q c s = Some r"
  shows "SameButHistory s (snd r)"
proof (rule DeleteLoop.raw_induct[where P = "\<lambda>Pred q c s r. SameButHistory s (snd r)", OF _ assms],
    goal_cases)
  case (1 loop Pred q c s r)
  show ?case
  proof (cases c)
    case None
    then show ?thesis using 1(2) by (auto simp: SameButHistory_def)
  next
    case (Some m)
    obtain b q' where P: "Pred q m (Heap s m) = (b, q')" by (cases "Pred q m (Heap s m)") auto
    show ?thesis
    proof (cases b)
      case True
      then have "loop Pred q' (NextLink (Heap s m)) (DeleteNode m s) = Some r"
        using 1(2) Some P by (simp add: Let_def)
      then have "SameButHistory (DeleteNode m s) (snd r)" by (rule 1(1))
      then show ?thesis
        using DeleteNode_SameButHistory[of s m] SameButHistory_trans by blast
    next
      case False
      then have "loop Pred q' (NextLink (Heap s m)) s = Some r"
        using 1(2) Some P by (simp add: Let_def)
      then show ?thesis by (rule 1(1))
    qed
  qed
qed

lemma SendMethodPacket_result:
  assumes "SendMethodPacket Payload Handler s = Inr s'"
  shows "ReplyHandlers s (CorrelationId s) = None" "CorrelationId s \<noteq> 2147483647"
    "\<exists>ws. WebSocket s = Some ws \<and>
       s' = s\<lparr>ReplyHandlers := (ReplyHandlers s)(CorrelationId s \<mapsto> Handler),
              CorrelationId := CorrelationId s + 1,
              WebSocket := Some (ws\<lparr>Sent := Sent ws @ [Payload]\<rparr>)\<rparr>"
  using assms
  by (auto simp: SendMethodPacket_def Let_def split: if_splits option.splits)

lemma SendMethodPacket_RouterGrows:
  "SendMethodPacket Payload Handler s = Inr s' \<Longrightarrow> RouterGrows s s'"
  using SendMethodPacket_result(3)[of Payload Handler s s']
  by (auto simp: RouterGrows_def split: if_splits)

lemma RouterGrows_refl: "RouterGrows s s"
  by (simp add: RouterGrows_def)

lemma RouterGrows_UE_LOG: "RouterGrows s (UE_LOG l s)"
  by (simp add: RouterGrows_def UE_LOG_sel)

lemma SameRouter_UE_LOG: "SameRouter s (UE_LOG l s)"
  by (simp add: SameRouter_def UE_LOG_sel)

lemma SameRouter_Notify: "SameRouter s (Notify n s)"
  by (simp add: SameRouter_def Notify_sel)

lemma HandleAuthReply_RouterGrows:
  assumes "HandleAuthReply JsonObj s = Inr (b, s')"
  shows "RouterGrows s s'"
proof (cases "TryGetObjectField JsonObj ''error''")
  case (Some Error)
  then show ?thesis
    using assms by (auto simp: HandleAuthReply_def RouterGrows_def Notify_sel Let_def)
next
  case None
  show ?thesis
  proof (cases "0 < ChatHistoryMax s")
    case False
    then show ?thesis
      using assms None by (auto simp: HandleAuthReply_def RouterGrows_def Notify_sel)
  next
    case True
    then obtain s2 where s2: "SendHistory (min (ChatHistoryMax s) 100) (s\<lparr>bIsReady := True\<rparr>) = Inr s2"
      and s': "s' = Notify (ConnectAttemptFinished True []) s2"
      using assms None by (auto simp: HandleAuthReply_def Let_def split: sum.splits)
    have "RouterGrows (s\<lparr>bIsReady := True\<rparr>) s2"
      using s2 unfolding SendHistory_def by (rule SendMethodPacket_RouterGrows)
    then show ?thesis
      unfolding s' by (simp add: RouterGrows_def Notify_sel)
  qed
qed

lemma HandleChatMessageEvent_SameRouter:
  assumes "HandleChatMessageEvent Parse JsonObj s = Inr (b, s')"
  shows "SameRouter s s'"
proof -
  obtain ok m s1 where i: "HandleChatMessageEventInternal Parse JsonObj s = (ok, m, s1)"
    by (cases "HandleChatMessageEventInternal Parse JsonObj s") auto
  have r: "SameRouter s s1" by (rule HandleChatMessageEventInternal_result(3)[OF i])
  show ?thesis
  proof (cases ok)
    case False
    then show ?thesis using assms i r by (simp add: HandleChatMessageEvent_def)
  next
    case True
    then obtain a where a: "m = Some a"
      using assms i by (cases m) (auto simp: HandleChatMessageEvent_def)
    show ?thesis
    proof (cases "bIsWhisper (Heap s1 a)")
      case True
      then show ?thesis
        using assms i r a \<open>ok\<close>
        by (auto simp: HandleChatMessageEvent_def SameRouter_def Notify_sel UE_LOG_sel)
    next
      case False
      then obtain s2 where s2: "AddMessageToChatHistory a
                       (UE_LOG (ChatMessageFrom (FromUser_Name (Heap s1 a)) (Body (Heap s1 a))) s1) = Inr s2"
        and s': "s' = Notify (ChatRoomMessageReceived a) s2"
        using assms i a \<open>ok\<close> by (auto simp: HandleChatMessageEvent_def split: sum.splits)
      have "SameRouter (UE_LOG (ChatMessageFrom (FromUser_Name (Heap s1 a)) (Body (Heap s1 a))) s1) s2"
        using AddMessage_frame[OF s2] SameButHistory_SameRouter by blast
      then show ?thesis
        using r unfolding s' by (simp add: SameRouter_def Notify_sel UE_LOG_sel)
    qed
  qed
qed

lemma HistoryLoop_SameRouter:
  "HistoryLoop Parse Data s = Inr s' \<Longrightarrow> SameRouter s s'"
proof (induction Data arbitrary: s)
  case Nil
  then show ?case by (simp add: SameRouter_def)
next
  case (Cons e Data)
  obtain ok m s1 where i: "HandleChatMessageEventInternal Parse (AsObject e) s = (ok, m, s1)"
    by (cases "HandleChatMessageEventInternal Parse (AsObject e) s") auto
  have r: "SameRouter s s1" by (rule HandleChatMessageEventInternal_result(3)[OF i])
  show ?case
  proof (cases ok)
    case False
    then have "HistoryLoop Parse Data s1 = Inr s'" using Cons.prems i by simp
    then show ?thesis using Cons.IH r SameRouter_trans by blast
  next
    case True
    then obtain a s2 where a: "m = Some a" "AddMessageToChatHistory a s1 = Inr s2"
      "HistoryLoop Parse Data s2 = Inr s'"
      using Cons.prems i by (auto split: option.splits if_splits sum.splits)
    have "SameRouter s1 s2" using AddMessage_frame[OF a(2)] SameButHistory_SameRouter by blast
    then show ?thesis using Cons.IH[OF a(3)] r SameRouter_trans by blast
  qed
qed

lemma RelinkHistory_SameRouter:
  "RelinkHistory a b c d s = Some s' \<Longrightarrow> SameRouter s s'"
  by (auto simp: RelinkHistory_def SameRouter_def Let_def set_NextLink_sel set_PrevLink_sel
      split: option.splits)

lemma HandleHistoryReply_SameRouter:
  assumes "HandleHistoryReply Parse JsonObj s = Some (Inr (b, s'))"
  shows "SameRouter s s'"
proof (cases "TryGetArrayField JsonObj ''data''")
  case None
  then show ?thesis using assms by (auto simp: HandleHistoryReply_def SameRouter_def UE_LOG_sel)
next
  case (Some Data)
  then obtain s1 where s1: "HistoryLoop Parse Data (StashHistory s) = Inr s1"
    and s2: "RelinkHistory (ChatHistoryNewest s) (ChatHistoryOldest s)
                       (ChatHistoryNum s) (ChatHistoryMax s) s1 = Some s'"
    using assms by (auto simp: HandleHistoryReply_def split: sum.splits option.splits)
  have "SameRouter s (StashHistory s)" by (simp add: SameRouter_def StashHistory_def)
  then show ?thesis
    using HistoryLoop_SameRouter[OF s1] RelinkHistory_SameRouter[OF s2] SameRouter_trans by blast
qed

lemma DeleteFromChatHistoryIf_SameRouter:
  "DeleteFromChatHistoryIf Pred q s = Some (q', s') \<Longrightarrow> SameRouter s s'"
  unfolding DeleteFromChatHistoryIf_def
  using DeleteLoop_SameButHistory[of Pred q "ChatHistoryNewest s" s "(q', s')"]
    SameButHistory_SameRouter by auto

lemma Invoke_RouterGrows:
  assumes "Invoke Parse h JsonObj s = Some (Inr (b, s'))"
  shows "RouterGrows s s'"
proof (cases h)
  case HandleAuthReply_fn
  then show ?thesis using assms HandleAuthReply_RouterGrows[of JsonObj s b s'] by (simp add: Invoke_def)
next
  case HandleHistoryReply_fn
  then show ?thesis
    using assms HandleHistoryReply_SameRouter[of Parse JsonObj s b s'] SameRouter_RouterGrows
    by (auto simp: Invoke_def)
next
  case HandleWelcomeEvent_fn
  then show ?thesis
    using assms by (auto simp: Invoke_def HandleWelcomeEvent_def RouterGrows_UE_LOG)
next
  case HandleChatMessageEvent_fn
  then show ?thesis
    using assms HandleChatMessageEvent_SameRouter[of Parse JsonObj s b s'] SameRouter_RouterGrows
    by (auto simp: Invoke_def)
next
  case HandleUserJoinEvent_fn
  then show ?thesis
    using assms
    by (auto simp: Invoke_def HandleUserJoinEvent_def RouterGrows_def UE_LOG_sel Notify_sel Let_def
        split: option.splits)
next
  case HandleUserLeaveEvent_fn
  then show ?thesis
    using assms
    by (auto simp: Invoke_def HandleUserLeaveEvent_def RouterGrows_def UE_LOG_sel Notify_sel
        split: option.splits)
next
  case HandleDeleteMessageEvent_fn
  then show ?thesis
    using assms
    by (auto simp: Invoke_def HandleDeleteMessageEvent_def RouterGrows_UE_LOG
        split: option.splits
        dest!: DeleteFromChatHistoryIf_SameRouter intro: SameRouter_RouterGrows)
next
  case HandleClearMessagesEvent_fn
  then show ?thesis
    using assms
    by (auto simp: Invoke_def HandleClearMessagesEvent_def
        split: option.splits if_splits
        dest!: DeleteFromChatHistoryIf_SameRouter intro: SameRouter_RouterGrows)
next
  case HandlePurgeMessageEvent_fn
  then show ?thesis
    using assms
    by (auto simp: Invoke_def HandlePurgeMessageEvent_def RouterGrows_UE_LOG
        split: option.splits
        dest!: DeleteFromChatHistoryIf_SameRouter intro: SameRouter_RouterGrows)
qed

lemma InvokeHandled_RouterGrows:
  "InvokeHandled Parse h JsonObj s = Some (Inr (b, s')) \<Longrightarrow> RouterGrows s s'"
  using Invoke_RouterGrows[of Parse h JsonObj s]
  by (auto simp: InvokeHandled_def split: option.splits sum.splits)

lemma PendingBelow_RouterGrows:
  "PendingBelow s \<Longrightarrow> RouterGrows s s' \<Longrightarrow> PendingBelow s'"
  unfolding PendingBelow_def RouterGrows_def by (metis order_less_le_trans)

lemma PendingBelow_EmptyConnection: "PendingBelow (EmptyConnection M)"
  by (simp add: PendingBelow_def EmptyConnection_def)

lemma OnChatPacketInternal_reply:
  assumes "TryGetStringField JsonObj ''type'' = Some ''reply''"
    "TryGetNumberField JsonObj ''id'' = Some i" "ReplyHandlers s i = Some H"
  shows "OnChatPacketInternal Parse JsonObj s =
       (case H of
          Some h \<Rightarrow> InvokeHandled Parse h JsonObj (s\<lparr>ReplyHandlers := (ReplyHandlers s)(i := None)\<rparr>)
        | None \<Rightarrow> Some (Inr (True, s\<lparr>ReplyHandlers := (ReplyHandlers s)(i := None)\<rparr>)))"
  using assms by (simp add: OnChatPacketInternal_def Let_def)

lemma OnChatPacketInternal_RouterGrows:
  assumes "OnChatPacketInternal Parse JsonObj s = Some (Inr (b, t))"
  shows "CorrelationId s \<le> CorrelationId t"
    "\<And>j. ReplyHandlers t j \<noteq> ReplyHandlers s j \<Longrightarrow>
       CorrelationId s \<le> j \<and> j < CorrelationId t \<or>
       TryGetNumberField JsonObj ''id'' = Some j \<and> ReplyHandlers t j = None"
proof -
  have "CorrelationId s \<le> CorrelationId t \<and>
    (\<forall>j. ReplyHandlers t j \<noteq> ReplyHandlers s j \<longrightarrow>
       CorrelationId s \<le> j \<and> j < CorrelationId t \<or>
       TryGetNumberField JsonObj ''id'' = Some j \<and> ReplyHandlers t j = None)"
  proof (cases "\<exists>i H. TryGetStringField JsonObj ''type'' = Some ''reply'' \<and>
                 TryGetNumberField JsonObj ''id'' = Some i \<and> ReplyHandlers s i = Some H")
    case True
    then obtain i H where r: "TryGetStringField JsonObj ''type'' = Some ''reply''"
      "TryGetNumberField JsonObj ''id'' = Some i" "ReplyHandlers s i = Some H"
      by blast
    let ?s1 = "s\<lparr>ReplyHandlers := (ReplyHandlers s)(i := None)\<rparr>"
    have g: "RouterGrows ?s1 t"
    proof (cases H)
      case None
      then show ?thesis
        using assms OnChatPacketInternal_reply[OF r, of Parse] by (auto simp: RouterGrows_def)
    next
      case (Some h)
      then have "InvokeHandled Parse h JsonObj ?s1 = Some (Inr (b, t))"
        using assms OnChatPacketInternal_reply[OF r, of Parse] by simp
      then show ?thesis by (rule InvokeHandled_RouterGrows)
    qed
    show ?thesis
      using g r(2) unfolding RouterGrows_def
      by (simp split: if_splits) (metis fun_upd_apply)
  next
    case False
    have "RouterGrows s t"
    proof (cases "TryGetStringField JsonObj ''type'' = Some ''event''")
      case True
      then show ?thesis
        using assms
        by (auto simp: OnChatPacketInternal_def RouterGrows_UE_LOG RouterGrows_refl
            split: option.splits dest: InvokeHandled_RouterGrows)
    next
      case ne: False
      then show ?thesis
        using assms False
        by (auto simp: OnChatPacketInternal_def RouterGrows_UE_LOG RouterGrows_refl
            split: option.splits if_splits)
    qed
    then show ?thesis unfolding RouterGrows_def by blast
  qed
  then show "CorrelationId s \<le> CorrelationId t"
    "\<And>j. ReplyHandlers t j \<noteq> ReplyHandlers s j \<Longrightarrow>
       CorrelationId s \<le> j \<and> j < CorrelationId t \<or>
       TryGetNumberField JsonObj ''id'' = Some j \<and> ReplyHandlers t j = None"
    by blast+
qed

lemma OnChatPacketInternal_PendingBelow:
  assumes "PendingBelow s" "OnChatPacketInternal Parse JsonObj s = Some (Inr (b, t))"
  shows "PendingBelow t"
  unfolding PendingBelow_def
proof (intro allI impI)
  fix j assume p: "ReplyHandlers t j \<noteq> None"
  show "j < CorrelationId t"
  proof (cases "ReplyHandlers t j = ReplyHandlers s j")
    case True
    then have "j < CorrelationId s" using p assms(1) by (simp add: PendingBelow_def)
    then show ?thesis using OnChatPacketInternal_RouterGrows(1)[OF assms(2)] by simp
  next
    case False
    then show ?thesis using OnChatPacketInternal_RouterGrows(2)[OF assms(2) False] p by blast
  qed
qed

subsection \<open>The user registry under a chat message\<close>

lemma HandleChatMessageEventInternal_users:
  assumes "HandleChatMessageEventInternal Parse JsonObj s = (b, m, s')"
  shows "(\<not> b \<and> (\<exists>l. s' = UE_LOG l s)) \<or>
         (\<exists>i u. TryGetNumberField JsonObj ''user_id'' = Some i \<and>
            CachedUsers s' = (CachedUsers s)(i \<mapsto> u) \<and>
            ChatInterface s' = ChatInterface s @
              (if CachedUsers s i = None then [ChatRoomMemberJoin u] else []))"
proof -
  let ?fail = "TryGetStringField JsonObj ''user_name'' = None \<or> TryGetNumberField JsonObj ''user_id'' = None \<or>
     TryGetObjectField JsonObj ''message'' = None \<or> TryGetStringField JsonObj ''id'' = None \<or>
     (\<exists>i. TryGetStringField JsonObj ''id'' = Some i \<and> Parse i = None)"
  show ?thesis
  proof (cases ?fail)
    case True
    then obtain l where "HandleChatMessageEventInternal Parse JsonObj s = (False, None, UE_LOG l s)"
      using HCMEI_fail[OF True] by blast
    then show ?thesis using assms by auto
  next
    case False
    then obtain FromUserName FromUserIdRaw MessageJson IdString MsgId where d:
      "TryGetStringField JsonObj ''user_name'' = Some FromUserName"
      "TryGetNumberField JsonObj ''user_id'' = Some FromUserIdRaw"
      "TryGetObjectField JsonObj ''message'' = Some MessageJson"
      "TryGetStringField JsonObj ''id'' = Some IdString"
      "Parse IdString = Some MsgId"
      by auto
    obtain s2 u where s2: "CachedUsers s2 = (CachedUsers s)(FromUserIdRaw \<mapsto> u)"
      "ChatInterface s2 = ChatInterface s @
             (if CachedUsers s FromUserIdRaw = None then [ChatRoomMemberJoin u] else [])"
      and eq: "HandleChatMessageEventInternal Parse JsonObj s =
             (fst (HandleChatMessageEventMessageObject MessageJson (HeapNext s)
                (s2\<lparr>Heap := (Heap s2)(HeapNext s := FChatMessageMixerImpl_new MsgId u),
                    HeapNext := HeapNext s + 1\<rparr>)),
              Some (HeapNext s),
              snd (HandleChatMessageEventMessageObject MessageJson (HeapNext s)
                (s2\<lparr>Heap := (Heap s2)(HeapNext s := FChatMessageMixerImpl_new MsgId u),
                    HeapNext := HeapNext s + 1\<rparr>)))"
      using HCMEI_decoded[where Parse=Parse and s=s and IdString=IdString, OF d] by blast
    define s3 where "s3 = s2\<lparr>Heap := (Heap s2)(HeapNext s := FChatMessageMixerImpl_new MsgId u),
                    HeapNext := HeapNext s + 1\<rparr>"
    have mo: "HandleChatMessageEventMessageObject MessageJson (HeapNext s) s3 = (b, s')"
      using eq assms unfolding s3_def by (simp_all add: prod_eq_iff)
    have "BuildsMessage (HeapNext s) s3 s'" by (rule MessageObject_result(2)[OF mo])
    then have "CachedUsers s' = CachedUsers s2" "ChatInterface s' = ChatInterface s2"
      unfolding s3_def by (simp_all add: BuildsMessage_def)
    then have "TryGetNumberField JsonObj ''user_id'' = Some FromUserIdRaw \<and>
            CachedUsers s' = (CachedUsers s)(FromUserIdRaw \<mapsto> u) \<and>
            ChatInterface s' = ChatInterface s @
              (if CachedUsers s FromUserIdRaw = None then [ChatRoomMemberJoin u] else [])"
      using s2 d(2) by simp
    then show ?thesis by blast
  qed
qed

lemma HandleChatMessageEvent_users:
  assumes "HandleChatMessageEvent Parse JsonObj s = Inr (True, s')"
  shows "\<exists>i u. TryGetNumberField JsonObj ''user_id'' = Some i \<and>
            CachedUsers s' = (CachedUsers s)(i \<mapsto> u) \<and>
            ChatInterface s' = ChatInterface s @
              (if CachedUsers s i = None then [ChatRoomMemberJoin u] else []) @
              [if EntryWhisper JsonObj then ChatPrivateMessageReceived (HeapNext s)
               else ChatRoomMessageReceived (HeapNext s)]"
proof -
  obtain ok m s1 where i: "HandleChatMessageEventInternal Parse JsonObj s = (ok, m, s1)"
    by (cases "HandleChatMessageEventInternal Parse JsonObj s") auto
  have ok: ok using assms i by (auto simp: HandleChatMessageEvent_def split: if_splits)
  note r = HandleChatMessageEventInternal_result(7)[OF i ok]
  have m: "m = Some (HeapNext s)" and w: "bIsWhisper (Heap s1 (HeapNext s)) = EntryWhisper JsonObj"
    using r by simp_all
  obtain j u where u: "TryGetNumberField JsonObj ''user_id'' = Some j"
    "CachedUsers s1 = (CachedUsers s)(j \<mapsto> u)"
    "ChatInterface s1 = ChatInterface s @
              (if CachedUsers s j = None then [ChatRoomMemberJoin u] else [])"
    using HandleChatMessageEventInternal_users[OF i] ok by blast
  have "CachedUsers s' = CachedUsers s1 \<and>
        ChatInterface s' = ChatInterface s1 @
              [if EntryWhisper JsonObj then ChatPrivateMessageReceived (HeapNext s)
               else ChatRoomMessageReceived (HeapNext s)]"
  proof (cases "EntryWhisper JsonObj")
    case True
    then show ?thesis
      using assms i ok m w by (auto simp: HandleChatMessageEvent_def Notify_sel UE_LOG_sel)
  next
    case False
    let ?a = "HeapNext s"
    obtain s2 where s2: "AddMessageToChatHistory ?a
                       (UE_LOG (ChatMessageFrom (FromUser_Name (Heap s1 ?a)) (Body (Heap s1 ?a))) s1) = Inr s2"
      and s': "s' = Notify (ChatRoomMessageReceived ?a) s2"
      using assms i ok m w False by (auto simp: HandleChatMessageEvent_def split: sum.splits)
    have "SameButHistory (UE_LOG (ChatMessageFrom (FromUser_Name (Heap s1 ?a)) (Body (Heap s1 ?a))) s1) s2"
      using AddMessage_frame[OF s2] by blast
    then show ?thesis
      using False unfolding s' by (simp add: SameButHistory_def Notify_sel UE_LOG_sel)
  qed
  then show ?thesis using u by auto
qed

subsection \<open>A chat message that fails to decode\<close>








section \<open>Clearing the history\<close>

text \<open>
  C9. For a cache that holds the messages \<open>xs\<close>, \<^verbatim>\<open>DeleteFromChatHistoryIf\<close> with a predicate
  that always answers true returns with \<^verbatim>\<open>ChatHistoryNum\<close> 0 and both ends empty. Every
  message of \<open>xs\<close> is a tombstone afterwards (body empty, moderated, same id) with both
  links empty. The predicate is called once for each message of \<open>xs\<close>, newest first: its
  final state is the fold of its calls over \<open>xs\<close>, and \<open>xs\<close> has no repetition. The
  handler of the \<^verbatim>\<open>ClearMessages\<close> event passes its three checks.
\<close>

theorem DeleteFromChatHistoryIf_always_true:
  assumes "HistoryIs s xs" and "\<And>p a m. fst (Predicate p a m)"
  shows "\<exists>s'. DeleteFromChatHistoryIf Predicate p s =
            Some (foldl (\<lambda>p a. snd (Predicate p a ((Heap s a)\<lparr>PrevLink := None\<rparr>))) p xs, s') \<and>
          distinct xs \<and>
          ChatHistoryNum s' = 0 \<and> ChatHistoryNewest s' = None \<and> ChatHistoryOldest s' = None \<and>
          list_all (\<lambda>a. Body (Heap s' a) = [] \<and> bIsModerated (Heap s' a) \<and>
                        MessageId (Heap s' a) = MessageId (Heap s a) \<and>
                        NextLink (Heap s' a) = None \<and> PrevLink (Heap s' a) = None) xs \<and>
          HandleClearMessagesEvent JsonObj s = Some (Inr (True, s'))"
proof -
  obtain s' where s':
    "DeleteLoop Predicate p (ChatHistoryNewest s) s =
       Some (foldl (\<lambda>p a. snd (Predicate p a ((Heap s a)\<lparr>PrevLink := None\<rparr>))) p xs, s')"
    "HistoryIs s' []"
    "\<forall>a\<in>set xs. Heap s' a = Unlinked (FlagAsDeleted (Heap s a))"
    using DeleteLoop_all[of Predicate s xs p, OF assms(2) assms(1)] by blast
  obtain t where t:
    "DeleteLoop (\<lambda>(u::unit) a m. (True, u)) () (ChatHistoryNewest s) s = Some ((), t)"
    "HistoryIs t []"
    "\<forall>a\<in>set xs. Heap t a = Unlinked (FlagAsDeleted (Heap s a))"
    "\<forall>b. b \<notin> set xs \<longrightarrow> Heap t b = Heap s b" "SameButHistory s t"
    using DeleteLoop_all[of "\<lambda>(u::unit) a m. (True, u)" s xs "()"] assms(1) by auto
  obtain t' where t': 
    "\<forall>b. b \<notin> set xs \<longrightarrow> Heap s' b = Heap s b" "SameButHistory s s'"
    using DeleteLoop_all[of Predicate s xs p, OF assms(2) assms(1)] s'(1) by auto
  have empty: "ChatHistoryNum s' = 0" "ChatHistoryNewest s' = None" "ChatHistoryOldest s' = None"
    using s'(2) by (auto simp: HistoryIs_def Linked_def)
  have emptyt: "ChatHistoryNum t = 0" "ChatHistoryNewest t = None" "ChatHistoryOldest t = None"
    using t(2) by (auto simp: HistoryIs_def Linked_def)
  have "Heap t = Heap s'"
  proof
    fix b show "Heap t b = Heap s' b"
      using t(3,4) s'(3) t'(1) by (cases "b \<in> set xs") auto
  qed
  then have "t = s'"
    using t(5) t'(2) empty emptyt by (simp add: SameButHistory_def)
  then have clear: "HandleClearMessagesEvent JsonObj s = Some (Inr (True, s'))"
    using t(1) emptyt by (simp add: HandleClearMessagesEvent_def DeleteFromChatHistoryIf_def)
  have tomb: "list_all (\<lambda>a. Body (Heap s' a) = [] \<and> bIsModerated (Heap s' a) \<and>
                        MessageId (Heap s' a) = MessageId (Heap s a) \<and>
                        NextLink (Heap s' a) = None \<and> PrevLink (Heap s' a) = None) xs"
    using s'(3) by (simp add: list_all_iff Unlinked_def FlagAsDeleted_def)
  have "distinct xs" using assms(1) by (simp add: HistoryIs_def Linked_def)
  then show ?thesis
    using s'(1) empty tomb clear by (simp add: DeleteFromChatHistoryIf_def)
qed

theorem DeleteFromChatHistoryIf_always_true_witness:
  "HistoryIs (TwoMessages 5) [1, 0] \<and>
   map_option fst (DeleteFromChatHistoryIf (\<lambda>p a m. (True, p @ [a])) [] (TwoMessages 5)) = Some [1, 0] \<and>
   map_option (ChatHistoryNum \<circ> snd)
     (DeleteFromChatHistoryIf (\<lambda>p a m. (True, p @ [a])) [] (TwoMessages 5)) = Some 0"
proof -
  have h: "HistoryIs (TwoMessages 5) [1, 0]"
    by (simp add: HistoryIs_def Linked_def TwoMessages_def EmptyConnection_def ExampleMessage_def
        FChatMessageMixerImpl_new_def)
  have p: "\<And>p a m. fst ((\<lambda>p a (m::FChatMessageMixerImpl). (True, p @ [a::nat])) p a m)"
    by simp
  obtain s' where
    "DeleteFromChatHistoryIf (\<lambda>p a m. (True, p @ [a])) [] (TwoMessages 5) = Some ([1, 0], s')"
    "ChatHistoryNum s' = 0"
    using DeleteFromChatHistoryIf_always_true
      [where Predicate = "\<lambda>p a m. (True, p @ [a])" and p = "[]" and JsonObj = "[]", OF h p]
    by auto
  then show ?thesis using h by simp
qed

section \<open>Pushing messages\<close>

text \<open>
  C2. Pushes of new messages \<open>msgs\<close> (in this order) against a cache with
  \<^verbatim>\<open>ChatHistoryMax\<close> = \<open>M\<close> that holds the messages \<open>xs\<close>: all pushes return, the count stays
  between 0 and \<open>M\<close> (it is 0 when \<open>M\<close> is negative), and the cache then holds, newest
  first, the first \<open>M\<close> of: the pushed messages that are no whispers, latest push first,
  followed by what it held before. From an empty cache these are the \<open>M\<close> most recently
  pushed messages that are no whispers. The statement holds for every list of pushes,
  so after each call. A single push with \<open>M \<le> 0\<close> or of a whisper returns the state as
  it was.
\<close>

theorem AddMessageToChatHistory_keeps_most_recent:
  assumes "HistoryIs s xs" and "ChatHistoryMax s = M" and "int (length xs) \<le> max 0 M"
    and "list_all (\<lambda>m. NextLink m = None \<and> PrevLink m = None) msgs"
  shows "(\<exists>s' zs. PushAll msgs s = Inr s' \<and> HistoryIs s' zs \<and>
            ChatHistoryMax s' = M \<and> 0 \<le> ChatHistoryNum s' \<and> ChatHistoryNum s' \<le> max 0 M \<and>
            map (\<lambda>a. Unlinked (Heap s' a)) zs =
              take (nat M) (rev (filter (\<lambda>m. \<not> bIsWhisper m) msgs) @
                            map (\<lambda>a. Unlinked (Heap s a)) xs)) \<and>
         (ChatHistoryMax t \<le> 0 \<or> bIsWhisper (Heap t a) \<longrightarrow>
            AddMessageToChatHistory a t = Inr t)"
proof -
  obtain s' zs where r: "PushAll msgs s = Inr s'" "HistoryIs s' zs"
    "ChatHistoryMax s' = ChatHistoryMax s"
    "map (\<lambda>a. Unlinked (Heap s' a)) zs =
       take (nat (ChatHistoryMax s))
         (rev (filter (\<lambda>m. \<not> bIsWhisper m) msgs) @ map (\<lambda>a. Unlinked (Heap s a)) xs)"
    using PushAll_HistoryIs[OF assms(4) assms(1)] assms(2,3) by auto
  have "length (map (\<lambda>a. Unlinked (Heap s' a)) zs) \<le> nat M"
    unfolding r(4) assms(2) by (rule order_trans[OF eq_refl[OF length_take]]) simp
  then have "length zs \<le> nat M" by simp
  moreover have "ChatHistoryNum s' = int (length zs)"
    using r(2) by (simp add: HistoryIs_def)
  ultimately have "0 \<le> ChatHistoryNum s'" "ChatHistoryNum s' \<le> max 0 M"
    by linarith+
  moreover have "ChatHistoryMax t \<le> 0 \<or> bIsWhisper (Heap t a) \<Longrightarrow>
      AddMessageToChatHistory a t = Inr t"
    by (rule AddMessage_noop) auto
  ultimately show ?thesis
    using r assms(2) by auto
qed

text \<open>
  The scenario of the claim: a cache with \<^verbatim>\<open>ChatHistoryMax\<close> = 3, pushes of the messages
  with ids 1, 2, 3, 4. The cache then holds the messages with ids 4, 3, 2, the newest
  has id 4 and the oldest id 2. A push against a cache with \<^verbatim>\<open>ChatHistoryMax\<close> = 0 changes
  nothing.
\<close>

theorem AddMessageToChatHistory_keeps_most_recent_witness:
  "HistoryIs (EmptyConnection 3) [] \<and>
   (\<exists>s' zs. PushAll (map ExampleMessage [1, 2, 3, 4]) (EmptyConnection 3) = Inr s' \<and>
       HistoryIs s' zs \<and> ChatHistoryNum s' = 3 \<and>
       map (\<lambda>a. MessageId (Heap s' a)) zs = [4, 3, 2] \<and>
       map_option (\<lambda>a. MessageId (Heap s' a)) (ChatHistoryNewest s') = Some 4 \<and>
       map_option (\<lambda>a. MessageId (Heap s' a)) (ChatHistoryOldest s') = Some 2) \<and>
   ChatHistoryMax (EmptyConnection 0) \<le> 0 \<and>
   AddMessageToChatHistory 0 (EmptyConnection 0) = Inr (EmptyConnection 0)"
proof -
  have h: "HistoryIs (EmptyConnection 3) []"
    by (simp add: HistoryIs_def Linked_def EmptyConnection_def)
  have m: "ChatHistoryMax (EmptyConnection 3) = 3" "int (length ([]::nat list)) \<le> max 0 3"
    by (simp_all add: EmptyConnection_def)
  have l: "list_all (\<lambda>m. NextLink m = None \<and> PrevLink m = None) (map ExampleMessage [1, 2, 3, 4])"
    by (simp add: ExampleMessage_def FChatMessageMixerImpl_new_def)
  obtain s' zs where r: "PushAll (map ExampleMessage [1, 2, 3, 4]) (EmptyConnection 3) = Inr s'"
    "HistoryIs s' zs" "ChatHistoryNum s' \<le> max 0 3"
    "map (\<lambda>a. Unlinked (Heap s' a)) zs =
       take (nat 3) (rev (filter (\<lambda>m. \<not> bIsWhisper m) (map ExampleMessage [1, 2, 3, 4])) @
                            map (\<lambda>a. Unlinked (Heap (EmptyConnection 3) a)) [])"
    using AddMessageToChatHistory_keeps_most_recent[OF h m(1) m(2) l] by blast
  have z: "ChatHistoryMax (EmptyConnection 0) \<le> 0"
    by (simp add: EmptyConnection_def)
  have n: "AddMessageToChatHistory 0 (EmptyConnection 0) = Inr (EmptyConnection 0)"
    using AddMessageToChatHistory_keeps_most_recent
      [OF h m(1) m(2) l, where t = "EmptyConnection 0" and a = 0] z by blast
  have c: "map (\<lambda>a. Unlinked (Heap s' a)) zs =
             [ExampleMessage 4, ExampleMessage 3, ExampleMessage 2]"
    unfolding r(4) by (simp add: ExampleMessage_def FChatMessageMixerImpl_new_def FlagAsWhisper_def)
  then obtain a b d where zs: "zs = [a, b, d]"
    and u: "Unlinked (Heap s' a) = ExampleMessage 4" "Unlinked (Heap s' b) = ExampleMessage 3"
      "Unlinked (Heap s' d) = ExampleMessage 2"
    by (auto simp: map_eq_Cons_conv)
  have id: "MessageId (Heap s' x) = MessageId (Unlinked (Heap s' x))" for x
    by (simp add: Unlinked_def)
  have ids: "map (\<lambda>a. MessageId (Heap s' a)) zs = [4, 3, 2]"
    by (simp add: zs id u) (simp add: ExampleMessage_def FChatMessageMixerImpl_new_def)
  have "ChatHistoryNewest s' = Some a" "ChatHistoryOldest s' = Some d" "ChatHistoryNum s' = 3"
    using r(2) unfolding zs by (auto simp: HistoryIs_def Linked_def)
  then show ?thesis
    using h r(1,2) ids zs z n by auto
qed

section \<open>Merging a reply that overlaps the local history\<close>

text \<open>
  C4. The cache holds the local messages \<open>xs\<close>, not empty; the reply decodes without a
  whisper; the ids of the server messages the loop retains are, newest first,
  \<open>newer @ L # older\<close>, where \<open>L\<close> is the id of the oldest local message and does not
  occur in \<open>newer\<close>. Then the loop builds a chain \<open>ns @ d # os\<close> with these ids, \<open>d\<close> being
  the duplicate, and \<^verbatim>\<open>HandleHistoryReply\<close> returns true with: the chain from
  \<^verbatim>\<open>ChatHistoryNewest\<close> is \<open>xs @ os\<close>, linked both ways, without repetition; the duplicate
  \<open>d\<close> and the newer server messages \<open>ns\<close> are not on it; the local messages are unchanged;
  \<^verbatim>\<open>ChatHistoryNum\<close> is the local count plus the length of the server chain minus the
  number of discarded messages; \<^verbatim>\<open>ChatHistoryMax\<close> is as before; and when the server's
  ids are distinct, no message left on the chain from the server has the id \<open>L\<close>.
  (The statement is about the chain from \<^verbatim>\<open>ChatHistoryNewest\<close>; see C1 for
  \<^verbatim>\<open>ChatHistoryOldest\<close>.)
\<close>

theorem HandleHistoryReply_overlap:
  assumes inv: "HistoryInvariant s xs" and ne: "xs \<noteq> []"
    and data: "TryGetArrayField JsonObj ''data'' = Some Data"
    and nw: "NoWhisperEntry Parse Data"
    and ids: "take (nat (ChatHistoryMax s - int (length xs))) (rev (ServerIds Parse Data)) =
                newer @ L # older"
    and L: "L = MessageId (Heap s (last xs))" and nL: "L \<notin> set newer"
  shows "\<exists>t ns d os s'.
           HistoryLoop Parse Data (StashHistory s) = Inr t \<and> HistoryIs t (ns @ d # os) \<and>
           map (\<lambda>a. MessageId (Heap t a)) ns = newer \<and> MessageId (Heap t d) = L \<and>
           HandleHistoryReply Parse JsonObj s = Some (Inr (True, s')) \<and>
           distinct (xs @ os) \<and>
           NextPath (Heap s') (ChatHistoryNewest s') (xs @ os) None \<and>
           PrevLinked (Heap s') None (xs @ os) \<and>
           set (ns @ [d]) \<inter> set (xs @ os) = {} \<and>
           map (\<lambda>a. MessageId (Heap s' a)) os = older \<and>
           map (\<lambda>a. Unlinked (Heap s' a)) xs = map (\<lambda>a. Unlinked (Heap s a)) xs \<and>
           ChatHistoryNum s' =
             int (length xs) + int (length (ns @ d # os)) - int (length (ns @ [d])) \<and>
           ChatHistoryMax s' = ChatHistoryMax s \<and>
           (distinct (newer @ L # older) \<longrightarrow> L \<notin> set (map (\<lambda>a. MessageId (Heap s' a)) os))"
proof -
  obtain t ys where t: "HistoryLoop Parse Data (StashHistory s) = Inr t" "HistoryIs t ys"
    "Linked (Heap t) (ChatHistoryNewest s) (ChatHistoryOldest s) xs"
    "set xs \<inter> set ys = {}"
    "\<forall>c<HeapNext s. Heap t c = Heap s c"
    "map (\<lambda>a. MessageId (Heap t a)) ys =
       take (nat (ChatHistoryMax s - int (length xs))) (rev (ServerIds Parse Data))"
    using HistoryReply_loop[OF inv nw] by blast
  have h: "HistoryIs s xs" and num: "ChatHistoryNum s = int (length xs)"
    using inv by (auto simp: HistoryInvariant_def HistoryIs_def)
  have lt: "\<And>a. a \<in> set xs \<Longrightarrow> a < HeapNext s"
    using h by (auto simp: HistoryIs_def list_all_iff)
  have same: "\<And>a. a \<in> set xs \<Longrightarrow> Heap t a = Heap s a"
    using t(5) lt by simp
  obtain xs0 lo where xs: "xs = xs0 @ [lo]" using ne by (cases xs rule: rev_cases) auto
  have lo: "Heap t lo = Heap s lo" using same xs by simp
  obtain ns d os where ys: "ys = ns @ d # os"
    and m: "map (\<lambda>a. MessageId (Heap t a)) ns = newer" "MessageId (Heap t d) = L"
      "map (\<lambda>a. MessageId (Heap t a)) os = older"
    using t(6) unfolding ids by (auto simp: map_eq_append_conv map_eq_Cons_conv)
  have nd: "list_all (\<lambda>a. MessageId (Heap t a) \<noteq> MessageId (Heap t lo)) ns"
  proof -
    have "L \<notin> set (map (\<lambda>a. MessageId (Heap t a)) ns)" using nL m(1) by simp
    then show ?thesis unfolding lo using L xs by (force simp: list_all_iff)
  qed
  have dup: "MessageId (Heap t d) = MessageId (Heap t lo)"
    using m(2) L xs lo by simp
  obtain s' where s': "RelinkHistory (ChatHistoryNewest s) (ChatHistoryOldest s) (ChatHistoryNum s)
                 (ChatHistoryMax s) t = Some s'"
    "distinct (xs0 @ lo # os)"
    "NextPath (Heap s') (ChatHistoryNewest s') (xs0 @ lo # os) None"
    "PrevLinked (Heap s') None (xs0 @ lo # os)"
    "ChatHistoryNum s' = int (length os) + ChatHistoryNum s" "ChatHistoryMax s' = ChatHistoryMax s"
    "\<forall>c. Unlinked (Heap s' c) = Unlinked (Heap t c)"
    using Relink_dupe[OF t(2)[unfolded ys] t(3)[unfolded xs] t(4)[unfolded xs ys] nd dup]
    by blast
  have id': "MessageId (Heap s' a) = MessageId (Heap t a)" for a
    using arg_cong[OF s'(7)[rule_format, of a], of MessageId] by (simp add: Unlinked_def)
  have dy: "distinct ys" using t(2) by (simp add: HistoryIs_def Linked_def)
  have disj: "set (ns @ [d]) \<inter> set (xs @ os) = {}"
    using dy t(4) unfolding ys by auto
  have loc: "map (\<lambda>a. Unlinked (Heap s' a)) xs = map (\<lambda>a. Unlinked (Heap s a)) xs"
    using s'(7) same by (intro map_cong) auto
  have older: "map (\<lambda>a. MessageId (Heap s' a)) os = older"
    unfolding id' by (rule m(3))
  show ?thesis
    using t(1) t(2)[unfolded ys] m(1,2) HandleHistoryReply_unfold[OF data t(1) s'(1)]
      s'(2,3,4,5,6) disj older loc num xs
    by (intro exI[of _ t] exI[of _ ns] exI[of _ d] exI[of _ os] exI[of _ s']) auto
qed

text \<open>
  The local history holds the ids 11 and 10; the server reports 20, 10, 11, oldest first.
  The chain is then the two local messages followed by the server's message 20.
\<close>

theorem HandleHistoryReply_overlap_witness:
  "HistoryInvariant (TwoMessages 5) [1, 0] \<and>
   take (nat (ChatHistoryMax (TwoMessages 5) - 2))
     (rev (ServerIds ExampleParse (map ExampleEntry [''20'', ''10'', ''11'']))) = [11] @ 10 # [20] \<and>
   MessageId (Heap (TwoMessages 5) (last [1, 0])) = 10 \<and>
   (\<exists>s' os. HandleHistoryReply ExampleParse (ExampleReply [''20'', ''10'', ''11''])
              (TwoMessages 5) = Some (Inr (True, s')) \<and>
      NextPath (Heap s') (ChatHistoryNewest s') ([1, 0] @ os) None \<and>
      map (\<lambda>a. MessageId (Heap s' a)) os = [20] \<and>
      ChatHistoryNum s' = 3 \<and> ChatHistoryMax s' = 5)"
proof -
  have inv: "HistoryInvariant (TwoMessages 5) [1, 0]"
    by (rule TwoMessages_inv) simp
  have ne: "[1, 0] \<noteq> ([]::nat list)" by simp
  have ids: "take (nat (ChatHistoryMax (TwoMessages 5) - int (length [1::nat, 0])))
     (rev (ServerIds ExampleParse (map ExampleEntry [''20'', ''10'', ''11'']))) = [11] @ 10 # [20]"
    unfolding ServerIds_Example
    by (simp add: map_filter_simps ExampleParse_values TwoMessages_def EmptyConnection_def)
  have L: "10 = MessageId (Heap (TwoMessages 5) (last [1, 0]))"
    by (simp add: TwoMessages_def ExampleMessage_def FChatMessageMixerImpl_new_def)
  have nL: "10 \<notin> set [11::nat]" by simp
  obtain t ns d os s' where r:
    "HistoryIs t (ns @ d # os)" "map (\<lambda>a. MessageId (Heap t a)) ns = [11]"
    "HandleHistoryReply ExampleParse (ExampleReply [''20'', ''10'', ''11'']) (TwoMessages 5) =
       Some (Inr (True, s'))"
    "NextPath (Heap s') (ChatHistoryNewest s') ([1, 0] @ os) None"
    "map (\<lambda>a. MessageId (Heap s' a)) os = [20]"
    "ChatHistoryNum s' =
       int (length [1::nat, 0]) + int (length (ns @ d # os)) - int (length (ns @ [d]))"
    "ChatHistoryMax s' = ChatHistoryMax (TwoMessages 5)"
    using HandleHistoryReply_overlap[OF inv ne ExampleReply_data NoWhisperEntry_Example ids L nL]
    by (elim exE conjE) (rule that; assumption)
  have "length os = 1" using arg_cong[OF r(5), of length] by simp
  then have "ChatHistoryNum s' = 3" using r(6) by simp
  moreover have "ChatHistoryMax s' = 5"
    using r(7) by (simp add: TwoMessages_def EmptyConnection_def)
  ultimately show ?thesis
    using inv ids L r(3,4,5) by auto
qed

section \<open>Merging a reply that shares no id with the local history\<close>

text \<open>
  C3, as stated, fails: the cache holds two messages and has room for three; the server
  reports two messages with other ids. The loop runs against a cache whose bound is the
  room that is left, one message, and retains only the newest message of the reply. The
  count is then 3 and not 2 + 2.
\<close>

theorem HandleHistoryReply_disjoint_counterexample:
  "HistoryInvariant (TwoMessages 3) [1, 0] \<and>
   map (\<lambda>a. MessageId (Heap (TwoMessages 3) a)) [1, 0] = [11, 10] \<and>
   ServerIds ExampleParse (map ExampleEntry [''20'', ''21'']) = [20, 21] \<and>
   ChatHistoryNum (TwoMessages 3) +
     int (length (ServerIds ExampleParse (map ExampleEntry [''20'', ''21'']))) = 4 \<and>
   map_option (map_sum id (\<lambda>(b, s'). (b, ChatHistoryNum s', ChatHistoryMax s')))
     (HandleHistoryReply ExampleParse (ExampleReply [''20'', ''21'']) (TwoMessages 3)) =
   Some (Inr (True, 3, 3))"
proof -
  have "HistoryInvariant (TwoMessages 3) [1, 0]"
    by (rule TwoMessages_inv) simp
  moreover have "map (\<lambda>a. MessageId (Heap (TwoMessages 3) a)) [1, 0] = [11, 10]"
    by (simp add: TwoMessages_def ExampleMessage_def FChatMessageMixerImpl_new_def)
  moreover have sid: "ServerIds ExampleParse (map ExampleEntry [''20'', ''21'']) = [20, 21]"
    unfolding ServerIds_Example by (simp add: map_filter_simps ExampleParse_values)
  moreover have "ChatHistoryNum (TwoMessages 3) +
     int (length (ServerIds ExampleParse (map ExampleEntry [''20'', ''21'']))) = 4"
    unfolding sid by (simp add: TwoMessages_def EmptyConnection_def)
  moreover have "map_option (map_sum id (\<lambda>(b, s'). (b, ChatHistoryNum s', ChatHistoryMax s')))
     (HandleHistoryReply ExampleParse (ExampleReply [''20'', ''21'']) (TwoMessages 3)) =
   Some (Inr (True, 3, 3))"
    by code_simp
  ultimately show ?thesis by blast
qed

text \<open>
  C3, amended. The cache holds the local messages \<open>xs\<close>; the reply decodes without a
  whisper and shares no id with the local messages; and the local history is empty, or
  the reply has a message that decodes and the cache is not full. Then
  \<^verbatim>\<open>HandleHistoryReply\<close> returns true; the cache holds the local messages, unchanged,
  followed by the retained server messages, which are the newest of the reply as far as
  the room left (\<^verbatim>\<open>ChatHistoryMax\<close> minus the local count) allows; \<^verbatim>\<open>ChatHistoryNum\<close>
  is the local count plus the smaller of the server's count and that room; and
  \<^verbatim>\<open>ChatHistoryMax\<close> is as before.
\<close>

theorem HandleHistoryReply_disjoint:
  assumes "HistoryInvariant s xs"
    and "TryGetArrayField JsonObj ''data'' = Some Data"
    and "NoWhisperEntry Parse Data"
    and "set (ServerIds Parse Data) \<inter> set (map (\<lambda>a. MessageId (Heap s a)) xs) = {}"
    and "xs = [] \<or> (ServerIds Parse Data \<noteq> [] \<and> int (length xs) < ChatHistoryMax s)"
  shows "\<exists>s' ys. HandleHistoryReply Parse JsonObj s = Some (Inr (True, s')) \<and>
           HistoryInvariant s' (xs @ ys) \<and>
           map (\<lambda>a. MessageId (Heap s' a)) ys =
             take (nat (ChatHistoryMax s - int (length xs))) (rev (ServerIds Parse Data)) \<and>
           ChatHistoryNum s' =
             int (length xs) +
             min (int (length (ServerIds Parse Data))) (ChatHistoryMax s - int (length xs)) \<and>
           ChatHistoryMax s' = ChatHistoryMax s \<and>
           map (\<lambda>a. Unlinked (Heap s' a)) xs = map (\<lambda>a. Unlinked (Heap s a)) xs"
proof -
  have nd: "MessageId (Heap s (last xs)) \<notin>
      set (take (nat (ChatHistoryMax s - int (length xs))) (rev (ServerIds Parse Data)))"
    if "xs \<noteq> []"
  proof
    assume "MessageId (Heap s (last xs)) \<in>
      set (take (nat (ChatHistoryMax s - int (length xs))) (rev (ServerIds Parse Data)))"
    then have "MessageId (Heap s (last xs)) \<in> set (ServerIds Parse Data)"
      by (auto dest: in_set_takeD)
    moreover have "MessageId (Heap s (last xs)) \<in> set (map (\<lambda>a. MessageId (Heap s a)) xs)"
      using that by simp
    ultimately show False using assms(4) by blast
  qed
  have le: "int (length xs) \<le> ChatHistoryMax s"
    using assms(1) by (simp add: HistoryInvariant_def HistoryIs_def)
  obtain s' ys where r: "HandleHistoryReply Parse JsonObj s = Some (Inr (True, s'))"
    "HistoryInvariant s' (xs @ ys)"
    "map (\<lambda>a. MessageId (Heap s' a)) ys =
       take (nat (ChatHistoryMax s - int (length xs))) (rev (ServerIds Parse Data))"
    "ChatHistoryMax s' = ChatHistoryMax s"
    "map (\<lambda>a. Unlinked (Heap s' a)) xs = map (\<lambda>a. Unlinked (Heap s a)) xs"
    using HandleHistoryReply_merge_no_dupe[OF assms(1,2,3) nd assms(5)] by blast
  have "length ys = min (length (ServerIds Parse Data)) (nat (ChatHistoryMax s - int (length xs)))"
    using arg_cong[OF r(3), of length] by simp
  then have "int (length ys) =
      min (int (length (ServerIds Parse Data))) (ChatHistoryMax s - int (length xs))"
    using le by simp
  moreover have "ChatHistoryNum s' = int (length xs) + int (length ys)"
    using r(2) by (simp add: HistoryInvariant_def HistoryIs_def)
  ultimately show ?thesis using r by auto
qed

text \<open>
  The local history holds the ids 11 and 10 in a cache for five messages; the server
  reports 20 and 21. The cache then holds 11, 10, 21, 20.
\<close>

theorem HandleHistoryReply_disjoint_witness:
  "HistoryInvariant (TwoMessages 5) [1, 0] \<and>
   TryGetArrayField (ExampleReply [''20'', ''21'']) ''data'' = Some (map ExampleEntry [''20'', ''21'']) \<and>
   NoWhisperEntry ExampleParse (map ExampleEntry [''20'', ''21'']) \<and>
   set (ServerIds ExampleParse (map ExampleEntry [''20'', ''21''])) \<inter>
     set (map (\<lambda>a. MessageId (Heap (TwoMessages 5) a)) [1, 0]) = {} \<and>
   ServerIds ExampleParse (map ExampleEntry [''20'', ''21'']) \<noteq> [] \<and>
   int (length [1::nat, 0]) < ChatHistoryMax (TwoMessages 5) \<and>
   (\<exists>s' ys. HandleHistoryReply ExampleParse (ExampleReply [''20'', ''21'']) (TwoMessages 5) =
               Some (Inr (True, s')) \<and>
      HistoryInvariant s' ([1, 0] @ ys) \<and> map (\<lambda>a. MessageId (Heap s' a)) ys = [21, 20] \<and>
      ChatHistoryNum s' = 4 \<and> ChatHistoryMax s' = 5)"
proof -
  have inv: "HistoryInvariant (TwoMessages 5) [1, 0]"
    by (rule TwoMessages_inv) simp
  have sid: "ServerIds ExampleParse (map ExampleEntry [''20'', ''21'']) = [20, 21]"
    unfolding ServerIds_Example by (simp add: map_filter_simps ExampleParse_values)
  have loc: "map (\<lambda>a. MessageId (Heap (TwoMessages 5) a)) [1, 0] = [11, 10]"
    by (simp add: TwoMessages_def ExampleMessage_def FChatMessageMixerImpl_new_def)
  have disj: "set (ServerIds ExampleParse (map ExampleEntry [''20'', ''21''])) \<inter>
     set (map (\<lambda>a. MessageId (Heap (TwoMessages 5) a)) [1, 0]) = {}"
    unfolding sid loc by simp
  have mx: "ChatHistoryMax (TwoMessages 5) = 5"
    by (simp add: TwoMessages_def EmptyConnection_def)
  have room: "[1, 0] = ([]::nat list) \<or>
      (ServerIds ExampleParse (map ExampleEntry [''20'', ''21'']) \<noteq> [] \<and>
       int (length [1::nat, 0]) < ChatHistoryMax (TwoMessages 5))"
    unfolding sid mx by simp
  obtain s' ys where r:
    "HandleHistoryReply ExampleParse (ExampleReply [''20'', ''21'']) (TwoMessages 5) =
       Some (Inr (True, s'))"
    "HistoryInvariant s' ([1, 0] @ ys)"
    "map (\<lambda>a. MessageId (Heap s' a)) ys =
       take (nat (ChatHistoryMax (TwoMessages 5) - int (length [1::nat, 0])))
         (rev (ServerIds ExampleParse (map ExampleEntry [''20'', ''21''])))"
    "ChatHistoryNum s' = int (length [1::nat, 0]) +
       min (int (length (ServerIds ExampleParse (map ExampleEntry [''20'', ''21'']))))
           (ChatHistoryMax (TwoMessages 5) - int (length [1::nat, 0]))"
    "ChatHistoryMax s' = ChatHistoryMax (TwoMessages 5)"
    using HandleHistoryReply_disjoint
      [OF inv ExampleReply_data NoWhisperEntry_Example disj room]
    by (elim exE conjE) (rule that; assumption)
  have "map (\<lambda>a. MessageId (Heap s' a)) ys = [21, 20]"
    unfolding r(3) sid mx by simp
  moreover have "ChatHistoryNum s' = 4" unfolding r(4) sid mx by simp
  ultimately show ?thesis
    using inv ExampleReply_data[of "[''20'', ''21'']"] NoWhisperEntry_Example[of "[''20'', ''21'']"]
      disj room r(1,2,5) mx
    by (intro conjI) auto
qed

section \<open>The invariant of the cache and the merge\<close>

text \<open>
  C1. \<^verbatim>\<open>AddMessageToChatHistory\<close> and \<^verbatim>\<open>DeleteFromChatHistoryIf\<close> keep the invariant of
  the cache (lemmas \<open>AddMessage_keeps_invariant\<close> and \<open>DeleteFromChatHistoryIf_keeps_invariant\<close>). The merge of
  \<^verbatim>\<open>HandleHistoryReply\<close> does not.

  A cache of two messages with room for five satisfies the invariant. After a reply
  with an empty list, the two messages are still linked, but \<^verbatim>\<open>ChatHistoryNum\<close> is 0 and
  \<^verbatim>\<open>ChatHistoryMax\<close> is 3: the branch taken when the server's chain is empty restores the
  two pointers and neither the count nor the bound, which the other branch restores.
  A \<^verbatim>\<open>ClearMessages\<close> event after that fails the check \<^verbatim>\<open>ChatHistoryNum == 0\<close> of its
  handler.

  After a reply that reports the ids 10 and 20 (10 is the id of the oldest local
  message, and of the oldest server message), the chain from \<^verbatim>\<open>ChatHistoryNewest\<close> is the
  two local messages (addresses 1 and 0) and the count is 2, but \<^verbatim>\<open>ChatHistoryOldest\<close>
  is the discarded duplicate at address 2.
\<close>

theorem HandleHistoryReply_breaks_invariant:
  "HistoryInvariant (TwoMessages 5) [1, 0] \<and>
   map_option (map_sum id (\<lambda>(b, s'). (b, ChatHistoryNum s', ChatHistoryNewest s',
        ChatHistoryOldest s', ChatHistoryMax s')))
     (HandleHistoryReply ExampleParse (ExampleReply []) (TwoMessages 5)) =
   Some (Inr (True, 0, Some 1, Some 0, 3)) \<and>
   (case HandleHistoryReply ExampleParse (ExampleReply []) (TwoMessages 5) of
      Some (Inr (b, s')) \<Rightarrow> map_option (map_sum id fst) (HandleClearMessagesEvent [] s')
    | _ \<Rightarrow> None) = Some (Inl CheckFailed) \<and>
   map_option (map_sum id (\<lambda>(b, s'). (b, ChatHistoryNum s', ChatHistoryNewest s',
        ChatHistoryOldest s', ChatHistoryMax s', map (\<lambda>a. NextLink (Heap s' a)) [1, 0])))
     (HandleHistoryReply ExampleParse (ExampleReply [''10'', ''20'']) (TwoMessages 5)) =
   Some (Inr (True, 2, Some 1, Some 2, 5, [Some 0, None]))"
proof -
  have "HistoryInvariant (TwoMessages 5) [1, 0]"
    by (rule TwoMessages_inv) simp
  moreover have "map_option (map_sum id (\<lambda>(b, s'). (b, ChatHistoryNum s', ChatHistoryNewest s',
        ChatHistoryOldest s', ChatHistoryMax s')))
     (HandleHistoryReply ExampleParse (ExampleReply []) (TwoMessages 5)) =
   Some (Inr (True, 0, Some 1, Some 0, 3))"
    by code_simp
  moreover have "(case HandleHistoryReply ExampleParse (ExampleReply []) (TwoMessages 5) of
      Some (Inr (b, s')) \<Rightarrow> map_option (map_sum id fst) (HandleClearMessagesEvent [] s')
    | _ \<Rightarrow> None) = Some (Inl CheckFailed)"
    by code_simp
  moreover have "map_option (map_sum id (\<lambda>(b, s'). (b, ChatHistoryNum s', ChatHistoryNewest s',
        ChatHistoryOldest s', ChatHistoryMax s', map (\<lambda>a. NextLink (Heap s' a)) [1, 0])))
     (HandleHistoryReply ExampleParse (ExampleReply [''10'', ''20'']) (TwoMessages 5)) =
   Some (Inr (True, 2, Some 1, Some 2, 5, [Some 0, None]))"
    by code_simp
  ultimately show ?thesis by blast
qed

section \<open>Sending chat\<close>

text \<open>
  C6. \<^verbatim>\<open>SendChatMessage\<close> and \<^verbatim>\<open>SendWhisper\<close> return false and leave the socket (and
  everything but the log) as it was whenever the connection is not ready or the session
  is anonymous. When the connection is ready and the session is not anonymous,
  \<^verbatim>\<open>SendChatMessage\<close> never returns false; and on a connection in the state the code checks
  for (the socket is connected, the next correlation id is not pending and the counter is
  not at its last value) it returns true, and what it passes to the socket is the \<^verbatim>\<open>msg\<close>
  method frame with the message body as its argument and the next correlation id.
\<close>

theorem Send_rejected_unless_ready:
  "(\<not> bIsReady s \<or> IsAnonymous s \<longrightarrow>
      (\<exists>l s'. SendChatMessage IsAnonymous MessageBody s = Inr (False, s') \<and>
              s' = UE_LOG l s \<and> WebSocket s' = WebSocket s) \<and>
      (\<exists>l s'. SendWhisper IsAnonymous ToUser MessageBody s = Inr (False, s') \<and>
              s' = UE_LOG l s \<and> WebSocket s' = WebSocket s)) \<and>
   (bIsReady s \<and> \<not> IsAnonymous s \<longrightarrow>
      (\<forall>s'. SendChatMessage IsAnonymous MessageBody s \<noteq> Inr (False, s'))) \<and>
   (bIsReady s \<and> \<not> IsAnonymous s \<and> WebSocket s = Some ws \<and> IsConnected ws \<and>
    ReplyHandlers s (CorrelationId s) = None \<and> CorrelationId s \<noteq> 2147483647 \<longrightarrow>
      (\<exists>s'. SendChatMessage IsAnonymous MessageBody s = Inr (True, s') \<and>
            CorrelationId s' = CorrelationId s + 1 \<and>
            WebSocket s' =
              Some (ws\<lparr>Sent := Sent ws @
                [JObject [(''type'', JString ''method''), (''method'', JString ''msg''),
                          (''arguments'', JArray [JString MessageBody]),
                          (''id'', JNumber (CorrelationId s))]]\<rparr>)))"
proof (intro conjI impI)
  assume "\<not> bIsReady s \<or> IsAnonymous s"
  then show "\<exists>l s'. SendChatMessage IsAnonymous MessageBody s = Inr (False, s') \<and>
              s' = UE_LOG l s \<and> WebSocket s' = WebSocket s"
    by (auto simp: SendChatMessage_def UE_LOG_sel)
next
  assume "\<not> bIsReady s \<or> IsAnonymous s"
  then show "\<exists>l s'. SendWhisper IsAnonymous ToUser MessageBody s = Inr (False, s') \<and>
              s' = UE_LOG l s \<and> WebSocket s' = WebSocket s"
    by (auto simp: SendWhisper_def UE_LOG_sel)
next
  assume "bIsReady s \<and> \<not> IsAnonymous s"
  then show "\<forall>s'. SendChatMessage IsAnonymous MessageBody s \<noteq> Inr (False, s')"
    by (auto simp: SendChatMessage_def split: option.splits sum.splits)
next
  assume "bIsReady s \<and> \<not> IsAnonymous s \<and> WebSocket s = Some ws \<and> IsConnected ws \<and>
    ReplyHandlers s (CorrelationId s) = None \<and> CorrelationId s \<noteq> 2147483647"
  then show "\<exists>s'. SendChatMessage IsAnonymous MessageBody s = Inr (True, s') \<and>
            CorrelationId s' = CorrelationId s + 1 \<and>
            WebSocket s' =
              Some (ws\<lparr>Sent := Sent ws @
                [JObject [(''type'', JString ''method''), (''method'', JString ''msg''),
                          (''arguments'', JArray [JString MessageBody]),
                          (''id'', JNumber (CorrelationId s))]]\<rparr>)"
    by (simp add: SendChatMessage_def SendMethodPacket_def WriteRemoteMethodPacket_def Let_def)
qed

theorem Send_rejected_unless_ready_witness:
  "(\<exists>l. SendChatMessage (\<lambda>s. False) ''hi'' (EmptyConnection 0) =
          Inr (False, UE_LOG l (EmptyConnection 0))) \<and>
   (\<exists>l. SendWhisper (\<lambda>s. False) ''ann'' ''hi'' (EmptyConnection 0) =
          Inr (False, UE_LOG l (EmptyConnection 0))) \<and>
   (\<exists>s1 s'. HandleAuthReply [] (EmptyConnection 0) = Inr (True, s1) \<and>
      SendChatMessage (\<lambda>s. False) ''hi'' s1 = Inr (True, s') \<and>
      CorrelationId s' = 1 \<and>
      WebSocket s' =
        Some \<lparr>IsConnected = True,
              Sent = [JObject [(''type'', JString ''method''), (''method'', JString ''msg''),
                               (''arguments'', JArray [JString ''hi'']),
                               (''id'', JNumber 0)]]\<rparr>)"
proof -
  let ?s1 = "Notify (ConnectAttemptFinished True []) ((EmptyConnection 0)\<lparr>bIsReady := True\<rparr>)"
  have a: "HandleAuthReply [] (EmptyConnection 0) = Inr (True, ?s1)"
    by (simp add: HandleAuthReply_def TryGetObjectField_def EmptyConnection_def Let_def)
  have e: "\<not> bIsReady (EmptyConnection 0)" by (simp add: EmptyConnection_def)
  have r: "bIsReady ?s1 \<and> \<not> False \<and>
           WebSocket ?s1 = Some \<lparr>IsConnected = True, Sent = []\<rparr> \<and>
           IsConnected \<lparr>IsConnected = True, Sent = []\<rparr> \<and>
           ReplyHandlers ?s1 (CorrelationId ?s1) = None \<and> CorrelationId ?s1 \<noteq> 2147483647"
    by (simp add: Notify_sel EmptyConnection_def)
  have c: "CorrelationId ?s1 = 0" by (simp add: Notify_sel EmptyConnection_def)
  show ?thesis
    using Send_rejected_unless_ready[of "EmptyConnection 0" "\<lambda>s. False" "''hi''" "''ann''"
        "\<lparr>IsConnected = True, Sent = []\<rparr>"]
      Send_rejected_unless_ready[of ?s1 "\<lambda>s. False" "''hi''" "''ann''"
        "\<lparr>IsConnected = True, Sent = []\<rparr>"] a e r c
    by auto
qed

section \<open>The reply to the auth call\<close>

text \<open>
  A reply that has a field \<^verbatim>\<open>error\<close> which holds no object (here \<^verbatim>\<open>null\<close>) is taken by
  \<^verbatim>\<open>HandleAuthReply\<close> as a success: the typed getter \<^verbatim>\<open>TryGetObjectField\<close> fails on it, so
  the connection becomes ready and the success of the attempt is reported.
\<close>

theorem HandleAuthReply_error_field_counterexample:
  "map_of [(''type'', JString ''reply''), (''id'', JNumber 0), (''error'', JNull)] ''error'' =
     Some JNull \<and>
   \<not> bIsReady (EmptyConnection 0) \<and>
   HandleAuthReply [(''type'', JString ''reply''), (''id'', JNumber 0), (''error'', JNull)]
       (EmptyConnection 0) =
     Inr (True, Notify (ConnectAttemptFinished True []) ((EmptyConnection 0)\<lparr>bIsReady := True\<rparr>))"
  by (simp add: HandleAuthReply_def TryGetObjectField_def EmptyConnection_def Let_def)

text \<open>
  C8, amended. On a reply whose field \<^verbatim>\<open>error\<close> holds an object, \<^verbatim>\<open>HandleAuthReply\<close> returns
  false, reports the failure of the attempt and changes nothing else, so \<open>bIsReady\<close> stays
  as it was. On any other reply it never returns false, and a returned state is ready.
  With \<open>ChatHistoryMax \<le> 0\<close> it sets \<open>bIsReady\<close>, reports success and sends nothing. With
  \<open>ChatHistoryMax > 0\<close>, on a connection whose socket is there, whose next correlation id is
  not pending and whose counter is not at its last value, it sets \<open>bIsReady\<close>, reports
  success and sends one \<^verbatim>\<open>history\<close> frame that asks for \<open>min ChatHistoryMax 100\<close> messages,
  never more than 100, whose reply goes to \<^verbatim>\<open>HandleHistoryReply\<close>.
\<close>

theorem HandleAuthReply_outcomes:
  "(TryGetObjectField JsonObj ''error'' = Some Error \<longrightarrow>
      (\<exists>s'. HandleAuthReply JsonObj s = Inr (False, s') \<and>
            s' = Notify (ConnectAttemptFinished False
                   (case TryGetStringField Error ''message'' of None \<Rightarrow> [] | Some m \<Rightarrow> m)) s \<and>
            bIsReady s' = bIsReady s \<and> WebSocket s' = WebSocket s)) \<and>
   (TryGetObjectField JsonObj ''error'' = None \<longrightarrow>
      (\<forall>b s'. HandleAuthReply JsonObj s = Inr (b, s') \<longrightarrow> b \<and> bIsReady s')) \<and>
   (TryGetObjectField JsonObj ''error'' = None \<and> ChatHistoryMax s \<le> 0 \<longrightarrow>
      HandleAuthReply JsonObj s =
        Inr (True, Notify (ConnectAttemptFinished True []) (s\<lparr>bIsReady := True\<rparr>))) \<and>
   (TryGetObjectField JsonObj ''error'' = None \<and> 0 < ChatHistoryMax s \<and>
    WebSocket s = Some ws \<and> ReplyHandlers s (CorrelationId s) = None \<and>
    CorrelationId s \<noteq> 2147483647 \<longrightarrow>
      (\<exists>s'. HandleAuthReply JsonObj s = Inr (True, s') \<and> bIsReady s' \<and>
            ChatInterface s' = ChatInterface s @ [ConnectAttemptFinished True []] \<and>
            WebSocket s' =
              Some (ws\<lparr>Sent := Sent ws @
                [JObject [(''type'', JString ''method''), (''method'', JString ''history''),
                          (''arguments'', JArray [JNumber (min (ChatHistoryMax s) 100)]),
                          (''id'', JNumber (CorrelationId s))]]\<rparr>) \<and>
            min (ChatHistoryMax s) 100 \<le> 100 \<and>
            ReplyHandlers s' = (ReplyHandlers s)(CorrelationId s \<mapsto> Some HandleHistoryReply_fn)))"
proof (intro conjI impI allI)
  assume "TryGetObjectField JsonObj ''error'' = Some Error"
  then show "\<exists>s'. HandleAuthReply JsonObj s = Inr (False, s') \<and>
            s' = Notify (ConnectAttemptFinished False
                   (case TryGetStringField Error ''message'' of None \<Rightarrow> [] | Some m \<Rightarrow> m)) s \<and>
            bIsReady s' = bIsReady s \<and> WebSocket s' = WebSocket s"
    by (simp add: HandleAuthReply_def Notify_sel)
next
  fix b s'
  assume "TryGetObjectField JsonObj ''error'' = None" "HandleAuthReply JsonObj s = Inr (b, s')"
  then have "b \<and> bIsReady s'"
    by (auto simp: HandleAuthReply_def SendHistory_def SendMethodPacket_def Let_def Notify_sel
        split: if_splits option.splits sum.splits)
  then show "b" "bIsReady s'" by simp_all
next
  assume "TryGetObjectField JsonObj ''error'' = None \<and> ChatHistoryMax s \<le> 0"
  then show "HandleAuthReply JsonObj s =
        Inr (True, Notify (ConnectAttemptFinished True []) (s\<lparr>bIsReady := True\<rparr>))"
    by (simp add: HandleAuthReply_def)
next
  assume "TryGetObjectField JsonObj ''error'' = None \<and> 0 < ChatHistoryMax s \<and>
    WebSocket s = Some ws \<and> ReplyHandlers s (CorrelationId s) = None \<and>
    CorrelationId s \<noteq> 2147483647"
  then show "\<exists>s'. HandleAuthReply JsonObj s = Inr (True, s') \<and> bIsReady s' \<and>
            ChatInterface s' = ChatInterface s @ [ConnectAttemptFinished True []] \<and>
            WebSocket s' =
              Some (ws\<lparr>Sent := Sent ws @
                [JObject [(''type'', JString ''method''), (''method'', JString ''history''),
                          (''arguments'', JArray [JNumber (min (ChatHistoryMax s) 100)]),
                          (''id'', JNumber (CorrelationId s))]]\<rparr>) \<and>
            min (ChatHistoryMax s) 100 \<le> 100 \<and>
            ReplyHandlers s' = (ReplyHandlers s)(CorrelationId s \<mapsto> Some HandleHistoryReply_fn)"
    by (simp add: HandleAuthReply_def SendHistory_def SendMethodPacket_def
        WriteRemoteMethodPacket_def Let_def Notify_sel)
qed

theorem HandleAuthReply_outcomes_witness:
  "(\<exists>s'. HandleAuthReply [(''error'', JObject [(''message'', JString ''denied'')])]
            (EmptyConnection 250) = Inr (False, s') \<and>
         ChatInterface s' = [ConnectAttemptFinished False ''denied''] \<and> \<not> bIsReady s') \<and>
   HandleAuthReply [] (EmptyConnection 0) =
     Inr (True, Notify (ConnectAttemptFinished True []) ((EmptyConnection 0)\<lparr>bIsReady := True\<rparr>)) \<and>
   (\<exists>s'. HandleAuthReply [] (EmptyConnection 250) = Inr (True, s') \<and> bIsReady s' \<and>
         ChatInterface s' = [ConnectAttemptFinished True []] \<and>
         WebSocket s' =
           Some \<lparr>IsConnected = True,
                 Sent = [JObject [(''type'', JString ''method''), (''method'', JString ''history''),
                                  (''arguments'', JArray [JNumber 100]),
                                  (''id'', JNumber 0)]]\<rparr>)"
proof -
  have e: "TryGetObjectField [(''error'', JObject [(''message'', JString ''denied'')])] ''error'' =
             Some [(''message'', JString ''denied'')]"
    by (simp add: TryGetObjectField_def)
  have n: "TryGetObjectField [] ''error'' = None" by (simp add: TryGetObjectField_def)
  have c: "ChatHistoryMax (EmptyConnection 0) \<le> 0" "0 < ChatHistoryMax (EmptyConnection 250)"
    "WebSocket (EmptyConnection 250) = Some \<lparr>IsConnected = True, Sent = []\<rparr>"
    "ReplyHandlers (EmptyConnection 250) (CorrelationId (EmptyConnection 250)) = None"
    "CorrelationId (EmptyConnection 250) \<noteq> 2147483647"
    "ChatInterface (EmptyConnection 250) = []" "\<not> bIsReady (EmptyConnection 250)"
    "CorrelationId (EmptyConnection 250) = 0" "ChatHistoryMax (EmptyConnection 250) = 250"
    by (simp_all add: EmptyConnection_def)
  have t: "TryGetStringField [(''message'', JString ''denied'')] ''message'' = Some ''denied''"
    by (simp add: TryGetStringField_def)
  have 1: "\<exists>s'. HandleAuthReply [(''error'', JObject [(''message'', JString ''denied'')])]
            (EmptyConnection 250) = Inr (False, s') \<and>
         ChatInterface s' = [ConnectAttemptFinished False ''denied''] \<and> \<not> bIsReady s'"
    using HandleAuthReply_outcomes[of "[(''error'', JObject [(''message'', JString ''denied'')])]"
        "[(''message'', JString ''denied'')]" "EmptyConnection 250"
        "\<lparr>IsConnected = True, Sent = []\<rparr>", THEN conjunct1] e t c(6,7)
    by (simp add: Notify_sel)
  have 2: "HandleAuthReply [] (EmptyConnection 0) =
     Inr (True, Notify (ConnectAttemptFinished True []) ((EmptyConnection 0)\<lparr>bIsReady := True\<rparr>))"
    using HandleAuthReply_outcomes[of "[]" "[]" "EmptyConnection 0"
        "\<lparr>IsConnected = True, Sent = []\<rparr>", THEN conjunct2, THEN conjunct2, THEN conjunct1]
      n c(1)
    by simp
  have 3: "\<exists>s'. HandleAuthReply [] (EmptyConnection 250) = Inr (True, s') \<and> bIsReady s' \<and>
         ChatInterface s' = [ConnectAttemptFinished True []] \<and>
         WebSocket s' =
           Some \<lparr>IsConnected = True,
                 Sent = [JObject [(''type'', JString ''method''), (''method'', JString ''history''),
                                  (''arguments'', JArray [JNumber 100]),
                                  (''id'', JNumber 0)]]\<rparr>"
    using HandleAuthReply_outcomes[of "[]" "[]" "EmptyConnection 250"
        "\<lparr>IsConnected = True, Sent = []\<rparr>", THEN conjunct2, THEN conjunct2, THEN conjunct2]
      n c(2-6,8,9)
    by simp blast
  show ?thesis using 1 2 3 by blast
qed

section \<open>Correlation ids and pending replies\<close>

text \<open>
  C5. \<^verbatim>\<open>SendMethodPacket\<close>, when it returns, has registered the handler under the current
  value of the counter, which was not pending, and has incremented the counter by one; it
  stops at its \<^verbatim>\<open>check\<close> when that id is pending. No frame makes the counter go back. In a
  state where every pending id lies below the counter (\<open>PendingBelow\<close>, which holds of the
  empty connection and is kept by every send and every frame), the next id is not pending,
  so an id is never reassigned while its entry is pending. When a reply arrives for a
  pending id, the handler runs on the state from which the entry has already been
  removed; once the frame is processed the id is no longer pending, and a second reply
  with the same id is an unexpected reply: it is logged and no handler runs.
\<close>

theorem CorrelationId_assigned_once:
  "(SendMethodPacket Payload Handler s = Inr s' \<longrightarrow>
      CorrelationId s' = CorrelationId s + 1 \<and> ReplyHandlers s (CorrelationId s) = None \<and>
      ReplyHandlers s' = (ReplyHandlers s)(CorrelationId s \<mapsto> Handler)) \<and>
   (ReplyHandlers s (CorrelationId s) \<noteq> None \<longrightarrow>
      SendMethodPacket Payload Handler s = Inl CheckFailed) \<and>
   (OnChatPacketInternal Parse JsonObj s = Some (Inr (b, t)) \<longrightarrow>
      CorrelationId s \<le> CorrelationId t) \<and>
   (PendingBelow s \<longrightarrow> ReplyHandlers s (CorrelationId s) = None) \<and>
   (PendingBelow s \<and> SendMethodPacket Payload Handler s = Inr s' \<longrightarrow> PendingBelow s') \<and>
   (PendingBelow s \<and> OnChatPacketInternal Parse JsonObj s = Some (Inr (b, t)) \<longrightarrow>
      PendingBelow t) \<and>
   (TryGetStringField JsonObj ''type'' = Some ''reply'' \<and>
    TryGetNumberField JsonObj ''id'' = Some i \<and> ReplyHandlers s i = Some H \<longrightarrow>
      OnChatPacketInternal Parse JsonObj s =
        (case H of
           Some h \<Rightarrow>
             InvokeHandled Parse h JsonObj (s\<lparr>ReplyHandlers := (ReplyHandlers s)(i := None)\<rparr>)
         | None \<Rightarrow> Some (Inr (True, s\<lparr>ReplyHandlers := (ReplyHandlers s)(i := None)\<rparr>)))) \<and>
   (PendingBelow s \<and> TryGetStringField JsonObj ''type'' = Some ''reply'' \<and>
    TryGetNumberField JsonObj ''id'' = Some i \<and> ReplyHandlers s i \<noteq> None \<and>
    OnChatPacketInternal Parse JsonObj s = Some (Inr (b, t)) \<longrightarrow>
      ReplyHandlers t i = None \<and>
      OnChatPacketInternal Parse JsonObj t = Some (Inr (False, UE_LOG (UnexpectedReply i) t)))"
proof (intro conjI impI)
  assume a: "SendMethodPacket Payload Handler s = Inr s'"
  from SendMethodPacket_result[OF a]
  show "CorrelationId s' = CorrelationId s + 1" "ReplyHandlers s (CorrelationId s) = None"
    "ReplyHandlers s' = (ReplyHandlers s)(CorrelationId s \<mapsto> Handler)"
    by auto
next
  assume "ReplyHandlers s (CorrelationId s) \<noteq> None"
  then show "SendMethodPacket Payload Handler s = Inl CheckFailed"
    by (simp add: SendMethodPacket_def)
next
  assume "OnChatPacketInternal Parse JsonObj s = Some (Inr (b, t))"
  then show "CorrelationId s \<le> CorrelationId t" by (rule OnChatPacketInternal_RouterGrows(1))
next
  assume "PendingBelow s"
  then show "ReplyHandlers s (CorrelationId s) = None"
    unfolding PendingBelow_def by (metis less_irrefl)
next
  assume "PendingBelow s \<and> SendMethodPacket Payload Handler s = Inr s'"
  then show "PendingBelow s'"
    using PendingBelow_RouterGrows SendMethodPacket_RouterGrows by blast
next
  assume "PendingBelow s \<and> OnChatPacketInternal Parse JsonObj s = Some (Inr (b, t))"
  then show "PendingBelow t" using OnChatPacketInternal_PendingBelow by blast
next
  assume "TryGetStringField JsonObj ''type'' = Some ''reply'' \<and>
    TryGetNumberField JsonObj ''id'' = Some i \<and> ReplyHandlers s i = Some H"
  then show "OnChatPacketInternal Parse JsonObj s =
        (case H of
           Some h \<Rightarrow>
             InvokeHandled Parse h JsonObj (s\<lparr>ReplyHandlers := (ReplyHandlers s)(i := None)\<rparr>)
         | None \<Rightarrow> Some (Inr (True, s\<lparr>ReplyHandlers := (ReplyHandlers s)(i := None)\<rparr>)))"
    using OnChatPacketInternal_reply by blast
next
  assume a: "PendingBelow s \<and> TryGetStringField JsonObj ''type'' = Some ''reply'' \<and>
    TryGetNumberField JsonObj ''id'' = Some i \<and> ReplyHandlers s i \<noteq> None \<and>
    OnChatPacketInternal Parse JsonObj s = Some (Inr (b, t))"
  then have lt: "i < CorrelationId s" by (simp add: PendingBelow_def)
  have r: "OnChatPacketInternal Parse JsonObj s = Some (Inr (b, t))" using a by simp
  obtain H where H: "ReplyHandlers s i = Some H" using a by auto
  let ?s1 = "s\<lparr>ReplyHandlers := (ReplyHandlers s)(i := None)\<rparr>"
  have g: "RouterGrows ?s1 t"
  proof (cases H)
    case None
    then show ?thesis
      using r OnChatPacketInternal_reply[of JsonObj i s H Parse] a H by (auto simp: RouterGrows_def)
  next
    case (Some h)
    then have "InvokeHandled Parse h JsonObj ?s1 = Some (Inr (b, t))"
      using r OnChatPacketInternal_reply[of JsonObj i s H Parse] a H by simp
    then show ?thesis by (rule InvokeHandled_RouterGrows)
  qed
  have "\<not> CorrelationId ?s1 \<le> i" using lt by simp
  then have "ReplyHandlers t i = ReplyHandlers ?s1 i"
    using g unfolding RouterGrows_def by blast
  then show n: "ReplyHandlers t i = None" by simp
  show "OnChatPacketInternal Parse JsonObj t = Some (Inr (False, UE_LOG (UnexpectedReply i) t))"
    using a n by (simp add: OnChatPacketInternal_def)
qed

theorem CorrelationId_assigned_once_witness:
  "\<exists>s1 s2 t.
     SendMethodPacket (JString ''first'') (Some HandleHistoryReply_fn) (EmptyConnection 0) = Inr s1 \<and>
     CorrelationId s1 = 1 \<and> ReplyHandlers s1 0 = Some (Some HandleHistoryReply_fn) \<and>
     SendMethodPacket (JString ''second'') None s1 = Inr s2 \<and>
     CorrelationId s2 = 2 \<and> ReplyHandlers s2 0 = Some (Some HandleHistoryReply_fn) \<and>
     ReplyHandlers s2 1 = Some None \<and> PendingBelow s2 \<and>
     OnChatPacketInternal ExampleParse (ExampleReply []) s2 = Some (Inr (True, t)) \<and>
     ReplyHandlers t 0 = None \<and> ReplyHandlers t 1 = Some None \<and> CorrelationId t = 2 \<and>
     OnChatPacketInternal ExampleParse (ExampleReply []) t =
       Some (Inr (False, UE_LOG (UnexpectedReply 0) t))"
proof -
  define s1 where "s1 = (EmptyConnection 0)
     \<lparr>ReplyHandlers := (ReplyHandlers (EmptyConnection 0))(0 \<mapsto> Some HandleHistoryReply_fn),
      CorrelationId := 1,
      WebSocket := Some \<lparr>IsConnected = True, Sent = [JString ''first'']\<rparr>\<rparr>"
  define s2 where "s2 = s1
     \<lparr>ReplyHandlers := (ReplyHandlers s1)(1 \<mapsto> None),
      CorrelationId := 2,
      WebSocket := Some \<lparr>IsConnected = True, Sent = [JString ''first'', JString ''second'']\<rparr>\<rparr>"
  define t where "t = s2\<lparr>ReplyHandlers := (ReplyHandlers s2)(0 := None)\<rparr>"
  have e1: "SendMethodPacket (JString ''first'') (Some HandleHistoryReply_fn) (EmptyConnection 0) = Inr s1"
    by (simp add: SendMethodPacket_def EmptyConnection_def s1_def Let_def)
  have e2: "SendMethodPacket (JString ''second'') None s1 = Inr s2"
    by (simp add: SendMethodPacket_def EmptyConnection_def s1_def s2_def Let_def)
  have f: "TryGetStringField (ExampleReply []) ''type'' = Some ''reply''"
    "TryGetNumberField (ExampleReply []) ''id'' = Some 0"
    "TryGetArrayField (ExampleReply []) ''data'' = Some []"
    by (simp_all add: ExampleReply_def TryGetStringField_def TryGetNumberField_def
        TryGetArrayField_def)
  have h: "ReplyHandlers s2 0 = Some (Some HandleHistoryReply_fn)" "ReplyHandlers s2 1 = Some None"
    "CorrelationId s2 = 2" "CorrelationId s1 = 1"
    "ReplyHandlers s1 0 = Some (Some HandleHistoryReply_fn)"
    by (simp_all add: s1_def s2_def)
  have c: "ChatHistoryNewest t = None" "ChatHistoryOldest t = None" "ChatHistoryNum t = 0"
    by (simp_all add: t_def s2_def s1_def EmptyConnection_def)
  have hr: "HandleHistoryReply ExampleParse (ExampleReply []) t = Some (Inr (True, t))"
    by (simp add: HandleHistoryReply_def f StashHistory_def RelinkHistory_def t_def s2_def s1_def
        EmptyConnection_def)
  have p1: "PendingBelow s1"
    using CorrelationId_assigned_once[of "JString ''first''" "Some HandleHistoryReply_fn"
        "EmptyConnection 0" s1, THEN conjunct2, THEN conjunct2, THEN conjunct2, THEN conjunct2, THEN conjunct1] e1 PendingBelow_EmptyConnection[of 0]
    by blast
  have p2: "PendingBelow s2"
    using CorrelationId_assigned_once[of "JString ''second''" None s1 s2, THEN conjunct2, THEN conjunct2, THEN conjunct2, THEN conjunct2, THEN conjunct1] e2 p1
    by blast
  have r: "OnChatPacketInternal ExampleParse (ExampleReply []) s2 = Some (Inr (True, t))"
    using CorrelationId_assigned_once[of _ _ s2 _ ExampleParse "ExampleReply []" _ _ 0
        "Some HandleHistoryReply_fn", THEN conjunct2, THEN conjunct2, THEN conjunct2, THEN conjunct2, THEN conjunct2, THEN conjunct2, THEN conjunct1] f h(1) hr
    by (simp add: t_def InvokeHandled_def Invoke_def)
  have u: "ReplyHandlers t 0 = None \<and>
      OnChatPacketInternal ExampleParse (ExampleReply []) t =
        Some (Inr (False, UE_LOG (UnexpectedReply 0) t))"
    using CorrelationId_assigned_once[of _ _ s2 _ ExampleParse "ExampleReply []" True t 0, THEN conjunct2, THEN conjunct2, THEN conjunct2, THEN conjunct2, THEN conjunct2, THEN conjunct2, THEN conjunct2]
      f h(1) p2 r
    by simp
  have k: "ReplyHandlers t 1 = Some None" "CorrelationId t = 2"
    using h by (simp_all add: t_def)
  show ?thesis
    by (intro exI[of _ s1] exI[of _ s2] exI[of _ t] conjI e1 e2 h p2 r k u[THEN conjunct1]
        u[THEN conjunct2])
qed

section \<open>Join and leave notifications\<close>

text \<open>
  C10. An event that introduces a user and is decoded leaves the user's id present in
  \<^verbatim>\<open>CachedUsers\<close>, and the calls it makes on the chat interface are a \<^verbatim>\<open>ChatRoomMemberJoin\<close>
  for that user exactly when the id was absent before, followed for a chat message by the
  notification of the message (private for a whisper): so a second sighting of an id
  fires no join. This holds of \<^verbatim>\<open>HandleUserJoinEvent\<close> and of \<^verbatim>\<open>HandleChatMessageEvent\<close>,
  whisper or not. A \<^verbatim>\<open>UserLeave\<close> event with an id is always handled, leaves the id
  absent, and its only call on the chat interface is a \<^verbatim>\<open>ChatRoomMemberExit\<close> for the
  cached user exactly when the id was present before.
\<close>

theorem Join_and_leave_notifications:
  "(HandleUserJoinEvent JsonObj s = (True, s') \<longrightarrow>
      (\<exists>i u. TryGetNumberField JsonObj ''id'' = Some i \<and> CachedUsers s' i = Some u \<and>
         (\<forall>j. j \<noteq> i \<longrightarrow> CachedUsers s' j = CachedUsers s j) \<and>
         ChatInterface s' = ChatInterface s @
           (if CachedUsers s i = None then [ChatRoomMemberJoin u] else []))) \<and>
   (HandleChatMessageEvent Parse JsonObj s = Inr (True, s') \<longrightarrow>
      (\<exists>i u. TryGetNumberField JsonObj ''user_id'' = Some i \<and> CachedUsers s' i = Some u \<and>
         (\<forall>j. j \<noteq> i \<longrightarrow> CachedUsers s' j = CachedUsers s j) \<and>
         ChatInterface s' = ChatInterface s @
           (if CachedUsers s i = None then [ChatRoomMemberJoin u] else []) @
           [if EntryWhisper JsonObj then ChatPrivateMessageReceived (HeapNext s)
            else ChatRoomMessageReceived (HeapNext s)])) \<and>
   (TryGetNumberField JsonObj ''id'' = Some i \<longrightarrow>
      (\<exists>s'. HandleUserLeaveEvent JsonObj s = (True, s') \<and> CachedUsers s' i = None \<and>
         (\<forall>j. j \<noteq> i \<longrightarrow> CachedUsers s' j = CachedUsers s j) \<and>
         ChatInterface s' = ChatInterface s @
           (case CachedUsers s i of Some u \<Rightarrow> [ChatRoomMemberExit u] | None \<Rightarrow> [])))"
proof (intro conjI impI)
  assume "HandleUserJoinEvent JsonObj s = (True, s')"
  then show "\<exists>i u. TryGetNumberField JsonObj ''id'' = Some i \<and> CachedUsers s' i = Some u \<and>
         (\<forall>j. j \<noteq> i \<longrightarrow> CachedUsers s' j = CachedUsers s j) \<and>
         ChatInterface s' = ChatInterface s @
           (if CachedUsers s i = None then [ChatRoomMemberJoin u] else [])"
    by (auto simp: HandleUserJoinEvent_def Let_def Notify_sel UE_LOG_sel split: option.splits)
next
  assume "HandleChatMessageEvent Parse JsonObj s = Inr (True, s')"
  then obtain i u where "TryGetNumberField JsonObj ''user_id'' = Some i"
            "CachedUsers s' = (CachedUsers s)(i \<mapsto> u)"
            "ChatInterface s' = ChatInterface s @
              (if CachedUsers s i = None then [ChatRoomMemberJoin u] else []) @
              [if EntryWhisper JsonObj then ChatPrivateMessageReceived (HeapNext s)
               else ChatRoomMessageReceived (HeapNext s)]"
    using HandleChatMessageEvent_users by blast
  then show "\<exists>i u. TryGetNumberField JsonObj ''user_id'' = Some i \<and> CachedUsers s' i = Some u \<and>
         (\<forall>j. j \<noteq> i \<longrightarrow> CachedUsers s' j = CachedUsers s j) \<and>
         ChatInterface s' = ChatInterface s @
           (if CachedUsers s i = None then [ChatRoomMemberJoin u] else []) @
           [if EntryWhisper JsonObj then ChatPrivateMessageReceived (HeapNext s)
            else ChatRoomMessageReceived (HeapNext s)]"
    by (intro exI[of _ i] exI[of _ u]) simp
next
  assume "TryGetNumberField JsonObj ''id'' = Some i"
  then show "\<exists>s'. HandleUserLeaveEvent JsonObj s = (True, s') \<and> CachedUsers s' i = None \<and>
         (\<forall>j. j \<noteq> i \<longrightarrow> CachedUsers s' j = CachedUsers s j) \<and>
         ChatInterface s' = ChatInterface s @
           (case CachedUsers s i of Some u \<Rightarrow> [ChatRoomMemberExit u] | None \<Rightarrow> [])"
    by (auto simp: HandleUserLeaveEvent_def Notify_sel UE_LOG_sel split: option.splits)
qed

theorem Join_and_leave_notifications_witness:
  "\<exists>s1 s2 s3 s4 u u'.
     HandleChatMessageEvent ExampleParse (AsObject (ExampleEntry ''10'')) (EmptyConnection 5) =
       Inr (True, s1) \<and>
     CachedUsers s1 9 = Some u \<and>
     ChatInterface s1 = [ChatRoomMemberJoin u, ChatRoomMessageReceived 0] \<and>
     HandleUserJoinEvent [(''id'', JNumber 9), (''username'', JString ''bob'')] s1 = (True, s1) \<and>
     HandleUserLeaveEvent [(''id'', JNumber 9)] s1 = (True, s2) \<and>
     ChatInterface s2 = [ChatRoomMemberJoin u, ChatRoomMessageReceived 0, ChatRoomMemberExit u] \<and>
     HandleUserLeaveEvent [(''id'', JNumber 9)] s2 = (True, s3) \<and>
     ChatInterface s3 = ChatInterface s2 \<and>
     HandleUserJoinEvent [(''id'', JNumber 9), (''username'', JString ''bob'')] s3 = (True, s4) \<and>
     ChatInterface s4 = ChatInterface s3 @ [ChatRoomMemberJoin u']"
proof -
  let ?Chat = "AsObject (ExampleEntry ''10'')"
  let ?Leave = "[(''id'', JNumber 9)]"
  have "(case HandleChatMessageEvent ExampleParse ?Chat (EmptyConnection 5) of
           Inr (b, s1) \<Rightarrow> b | Inl e \<Rightarrow> False)"
    by code_simp
  then obtain s1 where s1: "HandleChatMessageEvent ExampleParse ?Chat (EmptyConnection 5) = Inr (True, s1)"
    by (auto split: sum.splits)
  have f: "TryGetNumberField ?Chat ''user_id'' = Some 9" "TryGetNumberField ?Leave ''id'' = Some 9"
    "TryGetNumberField [(''id'', JNumber 9), (''username'', JString ''bob'')] ''id'' = Some 9"
    by (simp_all add: ExampleEntry_def AsObject_def TryGetNumberField_def)
  have e: "CachedUsers (EmptyConnection 5) 9 = None" "ChatInterface (EmptyConnection 5) = []"
    "HeapNext (EmptyConnection 5) = 0"
    by (simp_all add: EmptyConnection_def)
  obtain u where u: "CachedUsers s1 9 = Some u"
    "ChatInterface s1 = [ChatRoomMemberJoin u, ChatRoomMessageReceived 0]"
    using Join_and_leave_notifications[where s="EmptyConnection 5" and s'=s1 and
          Parse=ExampleParse and JsonObj="?Chat",
        THEN conjunct2, THEN conjunct1] s1 f(1) e EntryWhisper_Example[of "''10''"]
    by auto
  have j: "HandleUserJoinEvent [(''id'', JNumber 9), (''username'', JString ''bob'')] s1 = (True, s1)"
    using u(1) f(3) by (simp add: HandleUserJoinEvent_def)
  obtain s2 where s2: "HandleUserLeaveEvent ?Leave s1 = (True, s2)" "CachedUsers s2 9 = None"
    "ChatInterface s2 = [ChatRoomMemberJoin u, ChatRoomMessageReceived 0, ChatRoomMemberExit u]"
    using Join_and_leave_notifications[where s=s1 and JsonObj="?Leave" and i=9,
        THEN conjunct2, THEN conjunct2] f(2) u
    by auto
  obtain s3 where s3: "HandleUserLeaveEvent ?Leave s2 = (True, s3)"
    "ChatInterface s3 = ChatInterface s2" and c3: "CachedUsers s3 9 = None"
    using Join_and_leave_notifications[where s=s2 and JsonObj="?Leave" and i=9,
        THEN conjunct2, THEN conjunct2] f(2) s2(2)
    by auto
  obtain s4 where s4: "HandleUserJoinEvent [(''id'', JNumber 9), (''username'', JString ''bob'')] s3 =
      (True, s4)"
    using c3 f(3) by (simp add: HandleUserJoinEvent_def TryGetStringField_def Let_def)
  obtain u' where u': "ChatInterface s4 = ChatInterface s3 @ [ChatRoomMemberJoin u']"
    using Join_and_leave_notifications[where s=s3 and s'=s4 and
          JsonObj="[(''id'', JNumber 9), (''username'', JString ''bob'')]", THEN conjunct1]
      s4 f(3) c3
    by auto
  show ?thesis
    by (intro exI[of _ s1] exI[of _ s2] exI[of _ s3] exI[of _ s4] exI[of _ u] exI[of _ u'] conjI
        s1 u j s2(1) s2(3) s3 s4 u')
qed

section \<open>Frames that fail to decode\<close>




end
